(* ===== verification/Prelude.thy ===== *)
theory Prelude
  imports Main "HOL-Library.Word" "HOL-Library.Multiset"
begin

text \<open>
  Shared vocabulary of the development: the machine types the Rust code uses, Rust's
  \<open>Result\<close> as a sum with the \<open>?\<close> operator and the iterator idioms built on it
  (\<open>collect::<Result<Vec<_>>>\<close>, loops with early return), integer formatting, the
  \<open>str::trim().is_empty()\<close> test, and the generic lemmas the components share.
\<close>

section \<open>Machine types\<close>

type_synonym u8 = "8 word"
type_synonym u16 = "16 word"
type_synonym u32 = "32 word"
type_synonym u64 = "64 word"
type_synonym bytes = "u8 list"

text \<open>\<open>u16::MAX\<close> and the \<open>as usize\<close> widening of a \<open>u16\<close>.\<close>

abbreviation u16_max :: u16 where
  "u16_max \<equiv> 65535"

abbreviation usize_of :: "u16 \<Rightarrow> nat" where
  "usize_of \<equiv> unat"

text \<open>\<open>n as u16\<close> on a \<open>usize\<close> keeps the low sixteen bits.\<close>

definition as_u16 :: "nat \<Rightarrow> u16" where
  "as_u16 n = word_of_nat n"

text \<open>\<open>u16::try_from(n)\<close> on a wider unsigned integer.\<close>

definition u16_try_from :: "nat \<Rightarrow> u16 option" where
  "u16_try_from n = (if n \<le> 65535 then Some (word_of_nat n) else None)"

section \<open>Proof automation collections\<close>

named_theorems result_simps \<open>characterisations of successful \<open>Result\<close> computations\<close>
named_theorems record_defs \<open>unfolding of the small wrapper definitions\<close>

section \<open>Results\<close>

text \<open>
  \<open>Result<T, E>\<close> is \<open>'e + 'a\<close>: \<open>Inl\<close> is \<open>Err\<close>, \<open>Inr\<close> is \<open>Ok\<close>. \<open>rbind\<close> is the
  \<open>?\<close> operator: an error leaves the function, a value is passed on.
\<close>

fun rbind :: "'e + 'a \<Rightarrow> ('a \<Rightarrow> 'e + 'b) \<Rightarrow> 'e + 'b" where
  "rbind (Inl e) f = Inl e"
| "rbind (Inr x) f = f x"

text \<open>An early \<open>return Err(e)\<close> guarded by the negation of \<open>b\<close>.\<close>

definition ensure :: "bool \<Rightarrow> 'e \<Rightarrow> 'e + unit" where
  "ensure b e = (if b then Inr () else Inl e)"

text \<open>\<open>Option::ok_or\<close>.\<close>

definition ok_or :: "'a option \<Rightarrow> 'e \<Rightarrow> 'e + 'a" where
  "ok_or x e = (case x of None \<Rightarrow> Inl e | Some v \<Rightarrow> Inr v)"

text \<open>\<open>iter().map(f).collect::<Result<Vec<_>>>()\<close>: the first error wins.\<close>

primrec collect :: "('a \<Rightarrow> 'e + 'b) \<Rightarrow> 'a list \<Rightarrow> 'e + 'b list" where
  "collect f [] = Inr []"
| "collect f (x # xs) = rbind (f x) (\<lambda>y. rbind (collect f xs) (\<lambda>ys. Inr (y # ys)))"

text \<open>A \<open>for\<close> loop over a list with local state \<open>s\<close> and early return.\<close>

primrec try_for :: "('a \<Rightarrow> 's \<Rightarrow> 'e + 's) \<Rightarrow> 'a list \<Rightarrow> 's \<Rightarrow> 'e + 's" where
  "try_for f [] s = Inr s"
| "try_for f (x # xs) s = rbind (f x s) (try_for f xs)"

definition is_ok :: "'e + 'a \<Rightarrow> bool" where
  "is_ok r = (case r of Inl _ \<Rightarrow> False | Inr _ \<Rightarrow> True)"

lemma is_ok_simps [simp]: "is_ok (Inr x)" "\<not> is_ok (Inl e)"
  by (simp_all add: is_ok_def)

lemma is_ok_iff: "is_ok r \<longleftrightarrow> (\<exists>x. r = Inr x)"
  by (cases r) simp_all

lemma rbind_Inr_iff [result_simps]: "rbind r f = Inr y \<longleftrightarrow> (\<exists>x. r = Inr x \<and> f x = Inr y)"
  by (cases r) simp_all

lemma rbind_Inl_iff: "rbind r f = Inl e \<longleftrightarrow> r = Inl e \<or> (\<exists>x. r = Inr x \<and> f x = Inl e)"
  by (cases r) simp_all

lemma not_Inr_unit: "(r :: 'e + unit) \<noteq> Inr () \<Longrightarrow> \<exists>e. r = Inl e"
  by (cases r) simp_all

lemma rbind_ensure: "rbind (ensure b e) f = (if b then f () else Inl e)"
  by (simp add: ensure_def)

lemma ensure_Inr_iff [result_simps]: "ensure b e = Inr u \<longleftrightarrow> b"
  by (simp add: ensure_def)

lemma ensure_True [simp]: "ensure True e = Inr ()"
  by (simp add: ensure_def)

lemma ensure_False [simp]: "ensure False e = Inl e"
  by (simp add: ensure_def)

lemma ok_or_Inr_iff [result_simps]: "ok_or x e = Inr v \<longleftrightarrow> x = Some v"
  by (simp add: ok_or_def split: option.splits)

lemma ok_or_simps [simp]: "ok_or (Some v) e = Inr v" "ok_or None e = Inl e"
  by (simp_all add: ok_or_def)

lemma collect_Inr_iff [result_simps]:
  "collect f xs = Inr ys \<longleftrightarrow> list_all2 (\<lambda>x y. f x = Inr y) xs ys"
  by (induction xs arbitrary: ys) (auto simp: rbind_Inr_iff list_all2_Cons1)

lemma collect_map_Inr: "(\<And>x. x \<in> set xs \<Longrightarrow> f x = Inr (g x)) \<Longrightarrow> collect f xs = Inr (map g xs)"
  by (induction xs) auto

lemma collect_Inr_map: "collect f xs = Inr ys \<Longrightarrow> (\<And>x y. x \<in> set xs \<Longrightarrow> f x = Inr y \<Longrightarrow> g y = h x) \<Longrightarrow> map g ys = map h xs"
  by (induction xs arbitrary: ys) (auto simp: rbind_Inr_iff)

lemma collect_error: "x \<in> set xs \<Longrightarrow> f x = Inl e \<Longrightarrow> \<exists>e'. collect f xs = Inl e'"
proof (induction xs)
  case (Cons a xs)
  then show ?case by (cases "f a") auto
qed simp

lemma collect_Inr_length: "collect f xs = Inr ys \<Longrightarrow> length ys = length xs"
  by (auto simp: collect_Inr_iff dest: list_all2_lengthD)

lemma collect_cong_set: "(\<And>x. x \<in> set xs \<Longrightarrow> f x = g x) \<Longrightarrow> collect f xs = collect g xs"
  by (induction xs) auto

lemma collect_map: "collect h (map f xs) = collect (\<lambda>x. h (f x)) xs"
  by (induction xs) simp_all

lemma zip_map_same: "zip (map f xs) (map g xs) = map (\<lambda>x. (f x, g x)) xs"
  by (induction xs) simp_all

lemma try_for_map: "try_for f (map g xs) a = try_for (\<lambda>x. f (g x)) xs a"
  by (induction xs arbitrary: a) (auto intro: arg_cong2 [where f = rbind])

lemma try_for_cong_set: "(\<And>x a. x \<in> set xs \<Longrightarrow> f x a = g x a) \<Longrightarrow> try_for f xs a = try_for g xs a"
  by (induction xs arbitrary: a) (auto intro!: arg_cong2 [where f = rbind])

text \<open>The rule for a loop that does not fail: an invariant of the elements done and the state.\<close>

lemma try_for_invariant:
  assumes step: "\<And>ys x zs s. xs = ys @ x # zs \<Longrightarrow> I ys s \<Longrightarrow> \<exists>s'. f x s = Inr s' \<and> I (ys @ [x]) s'"
    and init: "I [] s"
  shows "\<exists>s'. try_for f xs s = Inr s' \<and> I xs s'"
proof -
  have "\<exists>s'. try_for f zs s = Inr s' \<and> I xs s'" if "xs = ys @ zs" "I ys s" for ys zs s
    using that
  proof (induction zs arbitrary: ys s)
    case (Cons x zs)
    from step [OF Cons.prems] obtain s' where s': "f x s = Inr s'" "I (ys @ [x]) s'" by blast
    with Cons.IH [of "ys @ [x]" s'] Cons.prems(1) show ?case by simp
  qed simp
  from this [of "[]" xs s] init show ?thesis by simp
qed

lemma try_for_append: "try_for f (xs @ ys) s = rbind (try_for f xs s) (try_for f ys)"
proof (induction xs arbitrary: s)
  case (Cons x xs)
  then show ?case by (cases "f x s") simp_all
qed simp

text \<open>A loop whose state is untouched is a check of every element.\<close>

lemma try_for_check_iff:
  "try_for (\<lambda>x _. g x) xs () = Inr () \<longleftrightarrow> (\<forall>x\<in>set xs. g x = Inr ())"
proof (induction xs)
  case (Cons x xs)
  then show ?case by (cases "g x") auto
qed simp

text \<open>A loop that adds one summand per element.\<close>

lemma try_for_sum:
  fixes a :: "'s::comm_monoid_add"
  assumes "\<And>x. x \<in> set xs \<Longrightarrow> v x = Inr (g x)"
  shows "try_for (\<lambda>x acc. rbind (v x) (\<lambda>y. Inr (acc + y))) xs a = Inr (a + (\<Sum>x\<leftarrow>xs. g x))"
  using assms by (induction xs arbitrary: a) (auto simp: add.assoc)

lemma try_for_sum_Inr:
  fixes a :: "'s::comm_monoid_add"
  assumes "try_for (\<lambda>x acc. rbind (v x) (\<lambda>y. Inr (acc + y))) xs a = Inr s"
  shows "\<exists>ys. list_all2 (\<lambda>x y. v x = Inr y) xs ys \<and> s = a + sum_list ys"
  using assms
proof (induction xs arbitrary: a)
  case (Cons x xs)
  from Cons.prems obtain y where y: "v x = Inr y"
    and rest: "try_for (\<lambda>x acc. rbind (v x) (\<lambda>y. Inr (acc + y))) xs (a + y) = Inr s"
    by (auto simp: rbind_Inr_iff)
  from Cons.IH [OF rest] obtain ys where "list_all2 (\<lambda>x y. v x = Inr y) xs ys" "s = a + y + sum_list ys"
    by blast
  with y show ?case by (intro exI [of _ "y # ys"]) (simp add: add.assoc)
qed simp

lemma try_for_sum_iff:
  fixes a :: "'s::comm_monoid_add"
  assumes "\<And>x y. x \<in> set xs \<Longrightarrow> v x = Inr y \<longleftrightarrow> P x \<and> y = g x"
  shows "try_for (\<lambda>x acc. rbind (v x) (\<lambda>y. Inr (acc + y))) xs a = Inr s \<longleftrightarrow>
    (\<forall>x\<in>set xs. P x) \<and> s = a + (\<Sum>x\<leftarrow>xs. g x)"
  using assms by (induction xs arbitrary: a) (auto simp: add.assoc rbind_Inr_iff)

text \<open>Loop invariants for loops over \<open>0..n\<close>, with and without early return.\<close>

lemma fold_upt_invariant:
  assumes "P 0 s" and "\<And>k s. k < n \<Longrightarrow> P k s \<Longrightarrow> P (Suc k) (f k s)"
  shows "P n (fold f [0..<n] s)"
  using assms by (induction n) auto

lemma try_for_upt_invariant:
  assumes "P 0 s" and "\<And>k s s'. k < n \<Longrightarrow> P k s \<Longrightarrow> f k s = Inr s' \<Longrightarrow> P (Suc k) s'"
  shows "case try_for f [0..<n] s of Inr s' \<Rightarrow> P n s' | Inl e \<Rightarrow> \<exists>k s'. k < n \<and> P k s' \<and> f k s' = Inl e"
  using assms
proof (induction n)
  case (Suc n)
  then have IH: "case try_for f [0..<n] s of Inr s' \<Rightarrow> P n s' | Inl e \<Rightarrow> \<exists>k s'. k < n \<and> P k s' \<and> f k s' = Inl e"
    by simp
  show ?case
  proof (cases "try_for f [0..<n] s")
    case (Inl e)
    with IH show ?thesis by (auto simp: try_for_append less_Suc_eq)
  next
    case (Inr s')
    with IH have "P n s'" by simp
    with Inr Suc.prems(2) [of n s'] show ?thesis
      by (cases "f n s'") (auto simp: try_for_append)
  qed
qed simp

section \<open>The duplicate check\<close>

text \<open>
  The idiom \<open>if !seen.insert(key(x)) { return Err(..) }\<close>: a \<open>BTreeSet\<close> of the keys
  seen so far, an error at the first repeated one.
\<close>

lemma try_for_distinct_iff:
  assumes "\<And>x s s'. f x s = Inr s' \<longleftrightarrow> P x \<and> key x \<notin> s \<and> s' = insert (key x) s"
  shows "try_for f xs s = Inr s' \<longleftrightarrow>
    (\<forall>x\<in>set xs. P x) \<and> distinct (map key xs) \<and> key ` set xs \<inter> s = {} \<and> s' = key ` set xs \<union> s"
proof (induction xs arbitrary: s)
  case (Cons x xs)
  show ?case
    unfolding try_for.simps rbind_Inr_iff assms Cons.IH by auto
qed auto

text \<open>The same loop with a second check: every element carries the tag of the first one.\<close>

lemma try_for_distinct_tagged_iff:
  assumes "\<And>x s o' st. f x (s, o') = Inr st \<longleftrightarrow>
    P x \<and> key x \<notin> s \<and> (o' = None \<or> o' = Some (tag x)) \<and> st = (insert (key x) s, Some (tag x))"
  shows "try_for f xs (s, o') = Inr st \<longleftrightarrow>
    (\<forall>x\<in>set xs. P x) \<and> distinct (map key xs) \<and> key ` set xs \<inter> s = {}
    \<and> (\<forall>x\<in>set xs. tag x = (case o' of None \<Rightarrow> tag (hd xs) | Some t \<Rightarrow> t))
    \<and> st = (key ` set xs \<union> s, if xs = [] then o' else Some (tag (hd xs)))"
proof (induction xs arbitrary: s o')
  case (Cons x xs)
  have hd: "(if xs = [] then Some (tag x) else Some (tag (hd xs))) = Some (tag x)" if "\<forall>y\<in>set xs. tag y = tag x"
    using that by (cases xs) auto
  have "try_for f (x # xs) (s, o') = Inr st \<longleftrightarrow> P x \<and> key x \<notin> s \<and> (o' = None \<or> o' = Some (tag x))
      \<and> try_for f xs (insert (key x) s, Some (tag x)) = Inr st"
    by (auto simp: rbind_Inr_iff assms)
  then show ?case unfolding Cons.IH using hd by (cases o') (auto simp del: if_split_eq1)
qed auto

lemma tags_equal_iff: "(\<forall>x\<in>set xs. tag x = tag (hd xs)) \<longleftrightarrow> (\<forall>x\<in>set xs. \<forall>y\<in>set xs. tag x = tag y)"
  by (cases xs) auto

section \<open>Formatting\<close>

text \<open>\<open>format!\<close> is the concatenation of its pieces; \<open>Display\<close> of an unsigned integer is its decimal numeral.\<close>

definition fmt :: "string list \<Rightarrow> string" where
  "fmt = concat"

fun show_nat :: "nat \<Rightarrow> string" where
  "show_nat n = (if n < 10 then [char_of (48 + n)] else show_nat (n div 10) @ [char_of (48 + n mod 10)])"

declare show_nat.simps [simp del]

abbreviation show_u16 :: "u16 \<Rightarrow> string" where
  "show_u16 w \<equiv> show_nat (unat w)"

lemma show_nat_not_Nil [simp]: "show_nat n \<noteq> []"
  by (subst show_nat.simps) simp

lemma show_nat_digits: "c \<in> set (show_nat n) \<Longrightarrow> 48 \<le> (of_char c :: nat) \<and> (of_char c :: nat) \<le> 57"
proof (induction n rule: show_nat.induct)
  case (1 n)
  then show ?case by (subst (asm) (2) show_nat.simps) (auto split: if_splits)
qed

text \<open>The value of a decimal numeral, which undoes \<open>Display\<close>.\<close>

definition digits_value :: "string \<Rightarrow> nat" where
  "digits_value s = foldl (\<lambda>v c. v * 10 + (of_char c - 48)) 0 s"

lemma digits_value_show_nat [simp]: "digits_value (show_nat n) = n"
proof (induction n rule: show_nat.induct)
  case (1 n)
  then show ?case by (subst show_nat.simps) (auto simp: digits_value_def)
qed

lemma show_nat_eq_iff [simp]: "show_nat m = show_nat n \<longleftrightarrow> m = n"
  by (metis digits_value_show_nat)

section \<open>Blank strings\<close>

text \<open>
  \<open>s.trim().is_empty()\<close> on a UTF-8 string: every code point has the Unicode property
  White_Space. The one-, two- and three-byte encodings of those code points are listed.
\<close>

definition white1 :: "char \<Rightarrow> bool" where
  "white1 c \<longleftrightarrow> (of_char c :: nat) \<in> {9, 10, 11, 12, 13, 32}"

definition white2 :: "char \<Rightarrow> char \<Rightarrow> bool" where
  "white2 c d \<longleftrightarrow> (of_char c :: nat) = 0xC2 \<and> (of_char d :: nat) \<in> {0x85, 0xA0}"

definition white3 :: "char \<Rightarrow> char \<Rightarrow> char \<Rightarrow> bool" where
  "white3 c d e \<longleftrightarrow>
     (let a = (of_char c :: nat); b = (of_char d :: nat); k = (of_char e :: nat) in
      a = 0xE1 \<and> b = 0x9A \<and> k = 0x80
      \<or> a = 0xE2 \<and> b = 0x80 \<and> (0x80 \<le> k \<and> k \<le> 0x8A \<or> k \<in> {0xA8, 0xA9, 0xAF})
      \<or> a = 0xE2 \<and> b = 0x81 \<and> k = 0x9F
      \<or> a = 0xE3 \<and> b = 0x80 \<and> k = 0x80)"

fun trim_is_empty :: "string \<Rightarrow> bool" where
  "trim_is_empty [] = True"
| "trim_is_empty [c] = white1 c"
| "trim_is_empty [c, d] = (if white1 c then trim_is_empty [d] else white2 c d)"
| "trim_is_empty (c # d # e # s) =
     (if white1 c then trim_is_empty (d # e # s)
      else if white2 c d then trim_is_empty (e # s)
      else white3 c d e \<and> trim_is_empty s)"

section \<open>Words, lists and sums\<close>

lemma as_u16_id: "n \<le> 65535 \<Longrightarrow> unat (as_u16 n) = n"
  by (simp add: as_u16_def unat_of_nat)

lemma unat_u16_le: "unat (w :: u16) \<le> 65535"
proof -
  have "unat w < 2 ^ 16" using unsigned_less [of w] by simp
  then show ?thesis by simp
qed

lemma u16_try_from_Some_iff: "u16_try_from n = Some w \<longleftrightarrow> n \<le> 65535 \<and> unat w = n"
  by (auto simp: u16_try_from_def unat_of_nat word_unat_eq_iff)

lemma find_Some_iff_distinct:
  assumes "distinct (map key xs)" "x \<in> set xs"
  shows "find (\<lambda>y. key y = key x) xs = Some x"
  using assms
proof (induction xs)
  case (Cons a xs)
  then show ?case by (auto simp: image_iff)
qed simp

lemma find_Some_memD: "find P xs = Some x \<Longrightarrow> x \<in> set xs \<and> P x"
  by (auto simp: find_Some_iff)

lemma ball_enumerate: "(\<forall>x\<in>set (enumerate 0 xs). P x) \<longleftrightarrow> (\<forall>i<length xs. P (i, xs ! i))"
proof -
  have "set (enumerate 0 xs) = (\<lambda>i. (i, xs ! i)) ` {..<length xs}"
    by (auto simp: in_set_enumerate_eq image_iff)
  then show ?thesis by auto
qed

lemma distinct_set_eq_card: "distinct xs \<Longrightarrow> set xs \<subseteq> set ys \<Longrightarrow> length xs = length ys \<Longrightarrow> distinct ys \<and> set xs = set ys"
  by (metis List.finite_set card_distinct card_mono card_subset_eq card_length distinct_card le_antisym)

lemma distinct_perm_mset:
  assumes "distinct xs" "set xs \<subseteq> set ys" "length xs = length ys"
  shows "mset xs = mset ys"
  using distinct_set_eq_card [OF assms] assms(1) by (metis set_eq_iff_mset_eq_distinct)

lemma sum_list_mset_cong: "mset xs = mset ys \<Longrightarrow> (\<Sum>x\<leftarrow>xs. f x) = (\<Sum>x\<leftarrow>ys. (f x :: 'a::comm_monoid_add))"
  by (metis mset_map sum_mset_sum_list)

lemma map_enumerate: "map (\<lambda>(i, q). h q) (enumerate k ps) = map h ps"
  by (rule nth_equalityI) (simp_all add: nth_enumerate_eq)

lemma mset_eq_map:
  assumes "mset ys = mset (map f xs)"
  shows "\<exists>xs'. mset xs' = mset xs \<and> ys = map f xs'"
  using assms
proof (induction ys arbitrary: xs)
  case (Cons y ys)
  then have "y \<in> set (map f xs)" by (metis list.set_intros(1) mset_eq_setD)
  then obtain x where x: "x \<in> set xs" "y = f x" by auto
  from x(1) have "mset xs = add_mset x (mset (remove1 x xs))" by simp
  then have "mset ys = mset (map f (remove1 x xs))" using Cons.prems x(2) by (simp del: mset_remove1)
  with Cons.IH obtain xs' where "mset xs' = mset (remove1 x xs)" "ys = map f xs'" by blast
  with x show ?case by (intro exI [of _ "x # xs'"]) simp
qed simp

lemma map_of_rev_distinct:
  "distinct (map fst kvs) \<Longrightarrow> map_of (rev kvs) k = map_of kvs k"
proof -
  assume d: "distinct (map fst kvs)"
  then have d': "distinct (map fst (rev kvs))" by (simp add: rev_map [symmetric])
  show ?thesis
  proof (cases "map_of kvs k")
    case None
    then have "map_of (rev kvs) k = None" by (simp add: map_of_eq_None_iff)
    with None show ?thesis by simp
  next
    case (Some v)
    with d d' show ?thesis by simp
  qed
qed

end
