(* ===== verification/Core_Types.thy ===== *)
theory Core_Types
  imports Prelude
begin

text \<open>
  \<open>dkgkit-core\<close>: errors, identifiers, participants, the three threshold configurations
  with their validating constructors, sessions and manifests. Each \<open>impl T { fn new }\<close>
  is a definition \<open>T_new\<close>, its checks in the order of the code.
\<close>

section \<open>Errors\<close>

datatype DkgKitError =
    InvalidThreshold (err_threshold: u16) (err_participants: u16)
  | InvalidParticipantId u16
  | ParticipantCountMismatch (err_expected: u16) (err_actual: nat)
  | DuplicateParticipantId u16
  | ParticipantOutOfRange (err_participant_id: u16) (err_range: u16)
  | MissingRankedParticipant u16
  | EmptySessionId
  | EmptyMessageKind
  | Serialization string
  | Protocol string
  | Transport string
  | NotImplemented string

type_synonym 'a result = "DkgKitError + 'a"

section \<open>Identifiers\<close>

datatype SessionId = SessionId (session_str: string)

definition SessionId_new :: "string \<Rightarrow> SessionId result" where
  "SessionId_new value =
     (if trim_is_empty value then Inl EmptySessionId else Inr (SessionId value))"

datatype ParticipantId = ParticipantId (pid_val: u16)

definition ParticipantId_new :: "u16 \<Rightarrow> ParticipantId result" where
  "ParticipantId_new value =
     (if value = 0 then Inl (InvalidParticipantId value) else Inr (ParticipantId value))"

text \<open>\<open>#[derive(PartialOrd, Ord)]\<close> on the newtype: the order of the wrapped integer.\<close>

instantiation ParticipantId :: linorder
begin

definition less_eq_ParticipantId :: "ParticipantId \<Rightarrow> ParticipantId \<Rightarrow> bool" where
  "less_eq_ParticipantId a b \<longleftrightarrow> pid_val a \<le> pid_val b"

definition less_ParticipantId :: "ParticipantId \<Rightarrow> ParticipantId \<Rightarrow> bool" where
  "less_ParticipantId a b \<longleftrightarrow> pid_val a < pid_val b"

instance
  by standard (auto simp: less_eq_ParticipantId_def less_ParticipantId_def ParticipantId.expand)

end

lemma inj_pid_val: "inj pid_val"
  by (auto intro: injI simp: ParticipantId.expand)

lemma pid_val_eq_iff: "pid_val a = pid_val b \<longleftrightarrow> a = b"
  by (auto simp: ParticipantId.expand)

section \<open>Thresholds and participants\<close>

record ThresholdConfig =
  tc_threshold :: u16
  tc_participants :: u16

definition ThresholdConfig_new :: "u16 \<Rightarrow> u16 \<Rightarrow> ThresholdConfig result" where
  "ThresholdConfig_new threshold participants =
     (if threshold = 0 \<or> participants = 0 \<or> threshold > participants
      then Inl (InvalidThreshold threshold participants)
      else Inr \<lparr>tc_threshold = threshold, tc_participants = participants\<rparr>)"

record Participant =
  p_id :: ParticipantId
  p_label :: "string option"

definition Participant_new :: "u16 \<Rightarrow> string option \<Rightarrow> Participant result" where
  "Participant_new i label =
     rbind (ParticipantId_new i) (\<lambda>pid. Inr \<lparr>p_id = pid, p_label = label\<rparr>)"

datatype Rank = Rank (rank_val: u16)

definition Rank_new :: "u16 \<Rightarrow> Rank" where
  "Rank_new value = Rank value"

record RankedParticipant =
  rp_id :: ParticipantId
  rp_rank :: Rank
  rp_label :: "string option"

definition RankedParticipant_new :: "u16 \<Rightarrow> u16 \<Rightarrow> string option \<Rightarrow> RankedParticipant result" where
  "RankedParticipant_new i rank label =
     rbind (ParticipantId_new i)
       (\<lambda>pid. Inr \<lparr>rp_id = pid, rp_rank = Rank_new rank, rp_label = label\<rparr>)"

section \<open>Hierarchical thresholds\<close>

record HierarchicalThresholdConfig =
  hc_threshold :: u16
  hc_participants :: "RankedParticipant list"

text \<open>The duplicate check shared by both ranked configurations.\<close>

definition check_unique_ids :: "RankedParticipant \<Rightarrow> u16 set \<Rightarrow> u16 set result" where
  "check_unique_ids participant seen =
     (if pid_val (rp_id participant) \<in> seen
      then Inl (DuplicateParticipantId (pid_val (rp_id participant)))
      else Inr (insert (pid_val (rp_id participant)) seen))"

definition HierarchicalThresholdConfig_new ::
    "u16 \<Rightarrow> RankedParticipant list \<Rightarrow> HierarchicalThresholdConfig result" where
  "HierarchicalThresholdConfig_new threshold participants =
     rbind (ok_or (u16_try_from (length participants)) (InvalidThreshold threshold u16_max))
       (\<lambda>participant_count.
        rbind (ThresholdConfig_new threshold participant_count) (\<lambda>_.
        rbind (try_for check_unique_ids participants {}) (\<lambda>_.
        Inr \<lparr>hc_threshold = threshold, hc_participants = participants\<rparr>)))"

definition hc_participant_count :: "HierarchicalThresholdConfig \<Rightarrow> u16" where
  "hc_participant_count config = as_u16 (length (hc_participants config))"

definition hc_threshold_config :: "HierarchicalThresholdConfig \<Rightarrow> ThresholdConfig result" where
  "hc_threshold_config config =
     ThresholdConfig_new (hc_threshold config) (hc_participant_count config)"

definition hc_rank_of :: "HierarchicalThresholdConfig \<Rightarrow> ParticipantId \<Rightarrow> Rank option" where
  "hc_rank_of config participant_id =
     map_option rp_rank (find (\<lambda>participant. rp_id participant = participant_id) (hc_participants config))"

section \<open>Grouped thresholds\<close>

record GroupThresholdRequirement =
  gr_rank :: Rank
  gr_required :: u16
  gr_total :: u16

definition GroupThresholdRequirement_new ::
    "u16 \<Rightarrow> u16 \<Rightarrow> u16 \<Rightarrow> GroupThresholdRequirement result" where
  "GroupThresholdRequirement_new rank required total_count =
     (if required = 0 \<or> total_count = 0 \<or> required > total_count
      then Inl (InvalidThreshold required total_count)
      else Inr \<lparr>gr_rank = Rank_new rank, gr_required = required, gr_total = total_count\<rparr>)"

record GroupedThresholdConfig =
  gc_participants :: "RankedParticipant list"
  gc_requirements :: "GroupThresholdRequirement list"

text \<open>One round of the loop over the requirements: unique rank, declared total equals the actual one.\<close>

definition check_requirement ::
    "RankedParticipant list \<Rightarrow> GroupThresholdRequirement \<Rightarrow> u16 set \<Rightarrow> u16 set result" where
  "check_requirement participants requirement seen_ranks =
     (let r = rank_val (gr_rank requirement);
          actual_total = length (filter (\<lambda>participant. rp_rank participant = gr_rank requirement) participants)
      in if r \<in> seen_ranks
         then Inl (Protocol (fmt [''duplicate grouped threshold rank: '', show_u16 r]))
         else if actual_total \<noteq> unat (gr_total requirement)
         then Inl (Protocol (fmt [''grouped threshold rank '', show_u16 r, '' total mismatch: declared '',
                show_u16 (gr_total requirement), '', found '', show_nat actual_total]))
         else Inr (insert r seen_ranks))"

definition check_rank_covered :: "u16 set \<Rightarrow> RankedParticipant \<Rightarrow> unit result" where
  "check_rank_covered seen_ranks participant =
     ensure (rank_val (rp_rank participant) \<in> seen_ranks)
       (Protocol (fmt [''missing grouped threshold requirement for rank '',
          show_u16 (rank_val (rp_rank participant))]))"

definition GroupedThresholdConfig_new ::
    "RankedParticipant list \<Rightarrow> GroupThresholdRequirement list \<Rightarrow> GroupedThresholdConfig result" where
  "GroupedThresholdConfig_new participants requirements =
     (if participants = [] \<or> requirements = []
      then Inl (InvalidThreshold 0 (as_u16 (length participants)))
      else rbind (try_for check_unique_ids participants {}) (\<lambda>_.
           rbind (try_for (check_requirement participants) requirements {}) (\<lambda>seen_ranks.
           rbind (try_for (\<lambda>participant _. check_rank_covered seen_ranks participant) participants ()) (\<lambda>_.
           Inr \<lparr>gc_participants = participants, gc_requirements = requirements\<rparr>))))"

definition gc_participant_count :: "GroupedThresholdConfig \<Rightarrow> u16" where
  "gc_participant_count config = as_u16 (length (gc_participants config))"

text \<open>\<open>Iterator::sum\<close> over \<open>u16\<close>, with the wrap-around of the release build.\<close>

definition gc_required_signer_count :: "GroupedThresholdConfig \<Rightarrow> u16" where
  "gc_required_signer_count config = sum_list (map gr_required (gc_requirements config))"

definition gc_threshold_config :: "GroupedThresholdConfig \<Rightarrow> ThresholdConfig result" where
  "gc_threshold_config config =
     ThresholdConfig_new (gc_required_signer_count config) (gc_participant_count config)"

definition gc_rank_of :: "GroupedThresholdConfig \<Rightarrow> ParticipantId \<Rightarrow> Rank option" where
  "gc_rank_of config participant_id =
     map_option rp_rank (find (\<lambda>participant. rp_id participant = participant_id) (gc_participants config))"

datatype SigningPolicy =
    Threshold ThresholdConfig
  | Hierarchical HierarchicalThresholdConfig
  | Grouped GroupedThresholdConfig

section \<open>Sessions\<close>

record SessionConfig =
  sc_session_id :: SessionId
  sc_threshold :: ThresholdConfig
  sc_participants :: "Participant list"

definition check_session_participant :: "u16 \<Rightarrow> Participant \<Rightarrow> u16 set \<Rightarrow> u16 set result" where
  "check_session_participant participant_count participant seen =
     (let i = pid_val (p_id participant) in
      if i > participant_count then Inl (ParticipantOutOfRange i participant_count)
      else if i \<in> seen then Inl (DuplicateParticipantId i)
      else Inr (insert i seen))"

definition SessionConfig_new ::
    "string \<Rightarrow> u16 \<Rightarrow> u16 \<Rightarrow> Participant list \<Rightarrow> SessionConfig result" where
  "SessionConfig_new session_id threshold participant_count participants =
     rbind (ThresholdConfig_new threshold participant_count) (\<lambda>threshold.
     rbind (ensure (length participants = unat participant_count)
              (ParticipantCountMismatch participant_count (length participants))) (\<lambda>_.
     rbind (try_for (check_session_participant participant_count) participants {}) (\<lambda>_.
     rbind (SessionId_new session_id) (\<lambda>sid.
     Inr \<lparr>sc_session_id = sid, sc_threshold = threshold, sc_participants = participants\<rparr>))))"

definition sc_participant :: "SessionConfig \<Rightarrow> ParticipantId \<Rightarrow> Participant option" where
  "sc_participant config i = find (\<lambda>participant. p_id participant = i) (sc_participants config)"

datatype SessionPhase = Created | Round1 | Round2 | Finalized | Signing | Complete | Failed

record SessionManifest =
  sm_config :: SessionConfig
  sm_protocol :: string
  sm_protocol_version :: string
  sm_phase :: SessionPhase

definition SessionManifest_frost_v1 :: "SessionConfig \<Rightarrow> SessionManifest" where
  "SessionManifest_frost_v1 config =
     \<lparr>sm_config = config, sm_protocol = ''frost'', sm_protocol_version = ''0.1'', sm_phase = Created\<rparr>"

section \<open>Well-formed configurations\<close>

text \<open>What the validating constructors promise of the configuration they return.\<close>

definition tc_wf :: "ThresholdConfig \<Rightarrow> bool" where
  "tc_wf c \<longleftrightarrow> 0 < unat (tc_threshold c) \<and> unat (tc_threshold c) \<le> unat (tc_participants c)"

definition hc_wf :: "HierarchicalThresholdConfig \<Rightarrow> bool" where
  "hc_wf c \<longleftrightarrow> 0 < unat (hc_threshold c) \<and> unat (hc_threshold c) \<le> length (hc_participants c)
     \<and> length (hc_participants c) \<le> 65535 \<and> distinct (map rp_id (hc_participants c))"

definition gc_wf :: "GroupedThresholdConfig \<Rightarrow> bool" where
  "gc_wf c \<longleftrightarrow> gc_participants c \<noteq> [] \<and> gc_requirements c \<noteq> []
     \<and> distinct (map rp_id (gc_participants c))
     \<and> distinct (map gr_rank (gc_requirements c))
     \<and> (\<forall>r\<in>set (gc_requirements c).
           length (filter (\<lambda>p. rp_rank p = gr_rank r) (gc_participants c)) = unat (gr_total r))
     \<and> rp_rank ` set (gc_participants c) \<subseteq> gr_rank ` set (gc_requirements c)"

lemma distinct_pid_vals: "distinct (map (\<lambda>x. pid_val (f x)) xs) \<longleftrightarrow> distinct (map f xs)"
proof -
  have "map (\<lambda>x. pid_val (f x)) xs = map pid_val (map f xs)" by simp
  then show ?thesis by (metis distinct_map inj_on_subset inj_pid_val subset_UNIV)
qed

lemma rank_val_eq_iff: "rank_val a = rank_val b \<longleftrightarrow> a = b"
  by (auto simp: Rank.expand)

lemma distinct_rank_vals: "distinct (map (\<lambda>x. rank_val (f x)) xs) \<longleftrightarrow> distinct (map f xs)"
  by (induction xs) (auto simp: image_iff Rank.expand)

lemma ThresholdConfig_new_Inr_iff [result_simps]:
  "ThresholdConfig_new t n = Inr c \<longleftrightarrow>
     0 < unat t \<and> unat t \<le> unat n \<and> c = \<lparr>tc_threshold = t, tc_participants = n\<rparr>"
  by (auto simp: ThresholdConfig_new_def word_le_nat_alt word_less_nat_alt unat_gt_0
      unat_eq_zero)

lemma ThresholdConfig_new_Inl: "ThresholdConfig_new t n = Inl e \<Longrightarrow> e = InvalidThreshold t n"
  by (auto simp: ThresholdConfig_new_def split: if_splits)

lemma check_unique_ids_loop [result_simps]:
  "try_for check_unique_ids ps {} = Inr s \<longleftrightarrow>
     distinct (map rp_id ps) \<and> s = (\<lambda>p. pid_val (rp_id p)) ` set ps"
  by (subst try_for_distinct_iff [where key = "\<lambda>p. pid_val (rp_id p)" and P = "\<lambda>_. True"])
    (auto simp: check_unique_ids_def distinct_pid_vals)

lemma check_requirement_loop [result_simps]:
  "try_for (check_requirement ps) rs {} = Inr s \<longleftrightarrow>
     (\<forall>r\<in>set rs. length (filter (\<lambda>p. rp_rank p = gr_rank r) ps) = unat (gr_total r))
     \<and> distinct (map gr_rank rs) \<and> s = (\<lambda>r. rank_val (gr_rank r)) ` set rs"
  by (subst try_for_distinct_iff [where key = "\<lambda>r. rank_val (gr_rank r)"
        and P = "\<lambda>r. length (filter (\<lambda>p. rp_rank p = gr_rank r) ps) = unat (gr_total r)"])
    (auto simp: check_requirement_def Let_def distinct_rank_vals)

lemma HierarchicalThresholdConfig_new_Inr_iff [result_simps]:
  "HierarchicalThresholdConfig_new t ps = Inr c \<longleftrightarrow>
     c = \<lparr>hc_threshold = t, hc_participants = ps\<rparr> \<and> hc_wf c"
  by (auto simp: HierarchicalThresholdConfig_new_def hc_wf_def result_simps u16_try_from_Some_iff
      u16_try_from_def unat_of_nat)

lemma ranks_covered_iff:
  "(\<forall>p\<in>set ps. rank_val (rp_rank p) \<in> (\<lambda>r. rank_val (gr_rank r)) ` set rs) \<longleftrightarrow>
     rp_rank ` set ps \<subseteq> gr_rank ` set rs"
  by (simp add: image_iff image_subset_iff rank_val_eq_iff)

lemma GroupedThresholdConfig_new_Inr_iff [result_simps]:
  "GroupedThresholdConfig_new ps rs = Inr c \<longleftrightarrow>
     c = \<lparr>gc_participants = ps, gc_requirements = rs\<rparr> \<and> gc_wf c"
  unfolding GroupedThresholdConfig_new_def gc_wf_def
  by (auto simp: result_simps try_for_check_iff check_rank_covered_def ranks_covered_iff
      image_subset_iff)

section \<open>Rank lookup\<close>

text \<open>
  Both ranked configurations answer \<open>rank_of\<close> by the first participant with the
  identifier. The contract the signer-set rules rely on, with its consequences.
\<close>

locale ranked_config =
  fixes members :: "'c \<Rightarrow> RankedParticipant list"
    and rank_of :: "'c \<Rightarrow> ParticipantId \<Rightarrow> Rank option"
  assumes rank_of_find: "rank_of c i = map_option rp_rank (find (\<lambda>p. rp_id p = i) (members c))"
begin

lemma rank_of_None_iff: "rank_of c i = None \<longleftrightarrow> i \<notin> rp_id ` set (members c)"
  by (auto simp: rank_of_find find_None_iff)

lemma rank_of_SomeD: "rank_of c i = Some r \<Longrightarrow> \<exists>p\<in>set (members c). rp_id p = i \<and> rp_rank p = r"
  by (auto simp: rank_of_find dest: find_Some_memD)

lemma rank_of_member:
  "distinct (map rp_id (members c)) \<Longrightarrow> p \<in> set (members c) \<Longrightarrow> rank_of c (rp_id p) = Some (rp_rank p)"
  by (simp add: rank_of_find find_Some_iff_distinct)

lemma rank_of_Some_iff:
  "distinct (map rp_id (members c)) \<Longrightarrow>
     rank_of c i = Some r \<longleftrightarrow> (\<exists>p\<in>set (members c). rp_id p = i \<and> rp_rank p = r)"
  by (metis rank_of_SomeD rank_of_member)

end

interpretation hcr: ranked_config hc_participants hc_rank_of
  by unfold_locales (simp add: hc_rank_of_def)

interpretation gcr: ranked_config gc_participants gc_rank_of
  by unfold_locales (simp add: gc_rank_of_def)

section \<open>Counts stay within sixteen bits\<close>

lemma sum_filter_length_le:
  "distinct ks \<Longrightarrow> (\<Sum>k\<leftarrow>ks. length (filter (\<lambda>x. f x = k) xs)) \<le> length xs"
proof (induction xs)
  case (Cons x xs)
  have "(\<Sum>k\<leftarrow>ks. length (filter (\<lambda>x. f x = k) (x # xs)))
      = (\<Sum>k\<leftarrow>ks. (if f x = k then 1 else 0)) + (\<Sum>k\<leftarrow>ks. length (filter (\<lambda>x. f x = k) xs))"
    by (subst sum_list_addf [symmetric]) (auto intro!: arg_cong [where f = sum_list])
  moreover have "(\<Sum>k\<leftarrow>ks. (if f x = k then 1 else 0)) \<le> (1::nat)"
    using Cons.prems by (induction ks) (auto simp: sum_list_0 [symmetric])
  ultimately show ?case using Cons by simp
qed simp

lemma distinct_nonzero_ids_bound:
  assumes "distinct (map rp_id ps)" "\<forall>p\<in>set ps. pid_val (rp_id p) \<noteq> 0"
  shows "length ps \<le> 65535"
proof -
  have "distinct (map (\<lambda>p. pid_val (rp_id p)) ps)" using assms(1) by (simp only: distinct_pid_vals)
  then have "length ps = card ((\<lambda>p. pid_val (rp_id p)) ` set ps)" using distinct_card by fastforce
  also have "\<dots> \<le> card (UNIV - {0 :: u16})"
    using assms(2) by (intro card_mono) auto
  also have "\<dots> = 65535" by (simp add: card_Diff_subset card_word)
  finally show ?thesis .
qed

lemma unat_sum_list_le:
  fixes ws :: "u16 list"
  shows "(\<Sum>w\<leftarrow>ws. unat w) \<le> 65535 \<Longrightarrow> unat (sum_list ws) = (\<Sum>w\<leftarrow>ws. unat w)"
proof (induction ws)
  case (Cons w ws)
  then have "unat (sum_list ws) = (\<Sum>w\<leftarrow>ws. unat w)" by simp
  with Cons.prems show ?case by (simp add: unat_word_ariths)
qed simp

text \<open>
  Configurations assembled from validated parts: requirements from
  \<open>GroupThresholdRequirement::new\<close>, participants with non-zero identifiers as
  \<open>RankedParticipant::new\<close> makes them.
\<close>

definition gc_validated :: "GroupedThresholdConfig \<Rightarrow> bool" where
  "gc_validated c \<longleftrightarrow> gc_wf c
     \<and> (\<forall>r\<in>set (gc_requirements c). 0 < unat (gr_required r) \<and> unat (gr_required r) \<le> unat (gr_total r))
     \<and> (\<forall>p\<in>set (gc_participants c). pid_val (rp_id p) \<noteq> 0)"

lemma GroupThresholdRequirement_new_Inr:
  "GroupThresholdRequirement_new a b d = Inr r \<Longrightarrow> 0 < unat (gr_required r) \<and> unat (gr_required r) \<le> unat (gr_total r)"
  by (auto simp: GroupThresholdRequirement_new_def word_le_nat_alt word_less_nat_alt unat_gt_0 split: if_splits)

lemma RankedParticipant_new_Inr:
  "RankedParticipant_new i r l = Inr p \<Longrightarrow> pid_val (rp_id p) \<noteq> 0"
  by (auto simp: RankedParticipant_new_def ParticipantId_new_def rbind_Inr_iff split: if_splits)

lemma gc_validated_counts:
  assumes v: "gc_validated c"
  shows "length (gc_participants c) \<le> 65535"
    and "(\<Sum>r\<leftarrow>gc_requirements c. unat (gr_required r)) \<le> length (gc_participants c)"
    and "0 < (\<Sum>r\<leftarrow>gc_requirements c. unat (gr_required r))"
    and "unat (gc_required_signer_count c) = (\<Sum>r\<leftarrow>gc_requirements c. unat (gr_required r))"
    and "unat (gc_participant_count c) = length (gc_participants c)"
proof -
  from v have wf: "gc_wf c" and req: "\<forall>r\<in>set (gc_requirements c). unat (gr_required r) \<le> unat (gr_total r)"
    by (simp_all add: gc_validated_def)
  show len: "length (gc_participants c) \<le> 65535"
    using v by (intro distinct_nonzero_ids_bound) (auto simp: gc_validated_def gc_wf_def)
  have "(\<Sum>r\<leftarrow>gc_requirements c. unat (gr_required r)) \<le> (\<Sum>r\<leftarrow>gc_requirements c. unat (gr_total r))"
    using req by (intro sum_list_mono) auto
  also have "\<dots> = (\<Sum>r\<leftarrow>gc_requirements c. length (filter (\<lambda>p. rp_rank p = gr_rank r) (gc_participants c)))"
    using wf by (intro arg_cong [where f = sum_list] map_cong) (auto simp: gc_wf_def)
  also have "\<dots> = (\<Sum>k\<leftarrow>map gr_rank (gc_requirements c). length (filter (\<lambda>p. rp_rank p = k) (gc_participants c)))"
    by (simp add: o_def)
  also have "\<dots> \<le> length (gc_participants c)"
    using wf by (intro sum_filter_length_le) (simp add: gc_wf_def)
  finally show le: "(\<Sum>r\<leftarrow>gc_requirements c. unat (gr_required r)) \<le> length (gc_participants c)" .
  show "0 < (\<Sum>r\<leftarrow>gc_requirements c. unat (gr_required r))"
    using v by (cases "gc_requirements c") (auto simp: gc_validated_def gc_wf_def)
  show "unat (gc_required_signer_count c) = (\<Sum>r\<leftarrow>gc_requirements c. unat (gr_required r))"
    using le len unat_sum_list_le [of "map gr_required (gc_requirements c)"]
    by (simp add: gc_required_signer_count_def o_def)
  show "unat (gc_participant_count c) = length (gc_participants c)"
    using len by (simp add: gc_participant_count_def as_u16_id)
qed

lemma gc_threshold_config_validated:
  assumes "gc_validated c"
  shows "gc_threshold_config c = Inr \<lparr>tc_threshold = gc_required_signer_count c,
    tc_participants = gc_participant_count c\<rparr>"
  using gc_validated_counts [OF assms] by (simp add: gc_threshold_config_def ThresholdConfig_new_Inr_iff)

section \<open>Panics\<close>

datatype fault = Err DkgKitError | Panic string

type_synonym 'a outcome = "fault + 'a"

text \<open>
  A panic is a result of its own, so that what ends in one can be told from an error value.
\<close>

text \<open>A \<open>Result\<close> in a function that may also panic.\<close>

definition lift_err :: "'a result \<Rightarrow> 'a outcome" where
  "lift_err r = (case r of Inl e \<Rightarrow> Inl (Err e) | Inr x \<Rightarrow> Inr x)"

text \<open>\<open>Option::expect\<close>.\<close>

definition expect :: "'a option \<Rightarrow> string \<Rightarrow> 'a outcome" where
  "expect x message = ok_or x (Panic message)"

text \<open>\<open>map_err(|err| DkgKitError::Protocol(format!("..{err}")))\<close>.\<close>

definition map_protocol_err :: "string \<Rightarrow> string + 'a \<Rightarrow> 'a outcome" where
  "map_protocol_err what r = (case r of Inl e \<Rightarrow> Inl (Err (Protocol (fmt [what, e]))) | Inr x \<Rightarrow> Inr x)"

text \<open>A library function that panics: \<open>Inl\<close> is the text of the panic.\<close>

definition or_panic :: "string + 'a \<Rightarrow> 'a outcome" where
  "or_panic r = (case r of Inl e \<Rightarrow> Inl (Panic e) | Inr x \<Rightarrow> Inr x)"

lemma or_panic_Inr_iff [result_simps]: "or_panic r = Inr x \<longleftrightarrow> r = Inr x"
  by (auto simp: or_panic_def split: sum.splits)

lemma lift_err_Inr_iff [result_simps]: "lift_err r = Inr x \<longleftrightarrow> r = Inr x"
  by (auto simp: lift_err_def split: sum.splits)

lemma lift_err_simps [simp]: "lift_err (Inr x) = Inr x" "lift_err (Inl e) = Inl (Err e)"
  by (simp_all add: lift_err_def)

lemma map_protocol_err_Inr_iff [result_simps]: "map_protocol_err what r = Inr x \<longleftrightarrow> r = Inr x"
  by (auto simp: map_protocol_err_def split: sum.splits)

end
