(* ===== verification/Core_Messages.thy ===== *)
theory Core_Messages
  imports Core_Types
begin

text \<open>
  Protocol messages of \<open>dkgkit-core\<close>: the message kinds with their text names, the
  envelope with its broadcast and direct constructors, delivery, and the JSON form.
  \<open>serde_json\<close> with the derived (de)serialisers is not part of the repository: a codec is a
  record of the two functions the code calls, and \<open>codec_ok\<close> says what it is relied on for.
\<close>

section \<open>Serialisation\<close>

text \<open>\<open>String::as_bytes\<close>.\<close>

definition as_bytes :: "string \<Rightarrow> bytes" where
  "as_bytes s = map (\<lambda>c. word_of_nat (of_char c)) s"

record 'a codec =
  to_vec :: "'a \<Rightarrow> string + bytes"      \<comment> \<open>\<open>serde_json::to_vec\<close>, an error as its text\<close>
  from_slice :: "bytes \<Rightarrow> string + 'a"  \<comment> \<open>\<open>serde_json::from_slice\<close>\<close>

text \<open>Writing a value succeeds and reading it back gives the value.\<close>

definition codec_ok :: "'a codec \<Rightarrow> bool" where
  "codec_ok J \<longleftrightarrow> (\<forall>x. \<exists>b. to_vec J x = Inr b \<and> from_slice J b = Inr x)"

text \<open>\<open>.map_err(|err| DkgKitError::Serialization(err.to_string()))\<close>.\<close>

definition map_serialization_err :: "string + 'a \<Rightarrow> 'a result" where
  "map_serialization_err r = (case r of Inl e \<Rightarrow> Inl (Serialization e) | Inr x \<Rightarrow> Inr x)"

lemma map_serialization_err_Inr [simp]: "map_serialization_err r = Inr x \<longleftrightarrow> r = Inr x"
  by (auto simp: map_serialization_err_def split: sum.splits)

section \<open>Kinds\<close>

datatype ProtocolMessageKind =
    KSessionManifest
  | FrostDkgRound1
  | FrostDkgRound2
  | HtssDkgRound1
  | HtssDkgRound2
  | FrostSigningNonce
  | FrostSignatureShare
  | HtssSigningNonce
  | HtssSignatureShare
  | Custom string

definition ProtocolMessageKind_custom :: "string \<Rightarrow> ProtocolMessageKind result" where
  "ProtocolMessageKind_custom value =
     (if trim_is_empty value then Inl EmptyMessageKind else Inr (Custom value))"

fun kind_as_str :: "ProtocolMessageKind \<Rightarrow> string" where
  "kind_as_str KSessionManifest = ''session_manifest''"
| "kind_as_str FrostDkgRound1 = ''frost_dkg_round1''"
| "kind_as_str FrostDkgRound2 = ''frost_dkg_round2''"
| "kind_as_str HtssDkgRound1 = ''htss_dkg_round1''"
| "kind_as_str HtssDkgRound2 = ''htss_dkg_round2''"
| "kind_as_str FrostSigningNonce = ''frost_signing_nonce''"
| "kind_as_str FrostSignatureShare = ''frost_signature_share''"
| "kind_as_str HtssSigningNonce = ''htss_signing_nonce''"
| "kind_as_str HtssSignatureShare = ''htss_signature_share''"
| "kind_as_str (Custom value) = value"

text \<open>\<open>impl From<&str> for ProtocolMessageKind\<close>.\<close>

definition kind_from_str :: "string \<Rightarrow> ProtocolMessageKind" where
  "kind_from_str value =
     (if value = ''session_manifest'' then KSessionManifest
      else if value = ''frost_dkg_round1'' \<or> value = ''round1'' then FrostDkgRound1
      else if value = ''frost_dkg_round2'' \<or> value = ''round2'' then FrostDkgRound2
      else if value = ''htss_dkg_round1'' then HtssDkgRound1
      else if value = ''htss_dkg_round2'' then HtssDkgRound2
      else if value = ''frost_signing_nonce'' \<or> value = ''nonce'' then FrostSigningNonce
      else if value = ''frost_signature_share'' \<or> value = ''signature_share'' then FrostSignatureShare
      else if value = ''htss_signing_nonce'' then HtssSigningNonce
      else if value = ''htss_signature_share'' then HtssSignatureShare
      else Custom value)"

section \<open>Messages\<close>

definition DKGKIT_PROTOCOL_VERSION :: string where
  "DKGKIT_PROTOCOL_VERSION = ''dkgkit/0.1''"

record ProtocolMessage =
  pm_protocol_version :: string
  pm_session_id :: SessionId
  pm_sender :: ParticipantId
  pm_recipient :: "ParticipantId option"
  pm_kind :: ProtocolMessageKind
  pm_payload :: bytes

definition ProtocolMessage_broadcast ::
    "SessionId \<Rightarrow> ParticipantId \<Rightarrow> ProtocolMessageKind \<Rightarrow> bytes \<Rightarrow> ProtocolMessage" where
  "ProtocolMessage_broadcast session_id sender kind payload =
     \<lparr>pm_protocol_version = DKGKIT_PROTOCOL_VERSION, pm_session_id = session_id, pm_sender = sender,
      pm_recipient = None, pm_kind = kind, pm_payload = payload\<rparr>"

definition ProtocolMessage_new ::
    "SessionId \<Rightarrow> ParticipantId \<Rightarrow> ProtocolMessageKind \<Rightarrow> bytes \<Rightarrow> ProtocolMessage" where
  "ProtocolMessage_new session_id sender kind payload = ProtocolMessage_broadcast session_id sender kind payload"

definition ProtocolMessage_direct ::
    "SessionId \<Rightarrow> ParticipantId \<Rightarrow> ParticipantId \<Rightarrow> ProtocolMessageKind \<Rightarrow> bytes \<Rightarrow> ProtocolMessage" where
  "ProtocolMessage_direct session_id sender recipient kind payload =
     \<lparr>pm_protocol_version = DKGKIT_PROTOCOL_VERSION, pm_session_id = session_id, pm_sender = sender,
      pm_recipient = Some recipient, pm_kind = kind, pm_payload = payload\<rparr>"

definition is_for :: "ProtocolMessage \<Rightarrow> ParticipantId \<Rightarrow> bool" where
  "is_for message participant_id =
     (case map_option (\<lambda>recipient. recipient = participant_id) (pm_recipient message) of None \<Rightarrow> True | Some b \<Rightarrow> b)"

definition encode_json :: "ProtocolMessage codec \<Rightarrow> ProtocolMessage \<Rightarrow> bytes result" where
  "encode_json J message = map_serialization_err (to_vec J message)"

definition decode_json :: "ProtocolMessage codec \<Rightarrow> bytes \<Rightarrow> ProtocolMessage result" where
  "decode_json J bytes = map_serialization_err (from_slice J bytes)"

section \<open>Properties\<close>

lemma kind_from_as_str:
  "(\<forall>s. kind \<noteq> Custom s) \<Longrightarrow> kind_from_str (kind_as_str kind) = kind"
  by (cases kind) (simp_all add: kind_from_str_def)

text \<open>The names that the parser gives to built-in kinds.\<close>

definition reserved_kind_names :: "string set" where
  "reserved_kind_names = {''session_manifest'', ''frost_dkg_round1'', ''round1'', ''frost_dkg_round2'', ''round2'',
     ''htss_dkg_round1'', ''htss_dkg_round2'', ''frost_signing_nonce'', ''nonce'', ''frost_signature_share'',
     ''signature_share'', ''htss_signing_nonce'', ''htss_signature_share''}"

lemma kind_from_str_Custom_iff: "kind_from_str s = Custom s \<longleftrightarrow> s \<notin> reserved_kind_names"
  unfolding kind_from_str_def reserved_kind_names_def by auto

lemma kind_roundtrip_iff:
  "kind_from_str (kind_as_str kind) = kind \<longleftrightarrow> (\<forall>s. kind = Custom s \<longrightarrow> s \<notin> reserved_kind_names)"
  using kind_from_as_str [of kind] by (cases kind) (simp_all add: kind_from_str_Custom_iff)

text \<open>Reading a name and printing the kind gives the canonical name.\<close>

lemma kind_as_from_str:
  "kind_from_str (kind_as_str (kind_from_str s)) = kind_from_str s"
  by (simp add: kind_from_str_def)

lemma is_for_simps [simp]:
  "is_for (ProtocolMessage_broadcast sid s k b) i"
  "is_for (ProtocolMessage_direct sid s r k b) i \<longleftrightarrow> r = i"
  by (simp_all add: is_for_def ProtocolMessage_broadcast_def ProtocolMessage_direct_def)

end
