(* ===== verification/Secp.thy ===== *)
theory Secp
  imports Complex_Main Core_Types
begin

text \<open>
  The interface of the cryptographic libraries the code calls (\<open>secp256kfun\<close>,
  \<open>schnorr_fun\<close>), which are not part of the repository. Scalars are an arbitrary field
  \<open>'f\<close> (the integers modulo the prime group order), points an arbitrary abelian group
  \<open>'p\<close>; every library function the code calls is a field of the record \<open>secp\<close>, an
  argument of the definitions that use it. \<open>secp_laws\<close> collects the documented behaviour
  the properties rely on. The scalar helpers at the bottom of
  \<open>dkgkit-frost/src/lib.rs\<close> follow.
\<close>

section \<open>The library functions\<close>

record ('f, 'p) secp =
  scalar_to_bytes :: "'f \<Rightarrow> bytes"          \<comment> \<open>\<open>Scalar::to_bytes\<close>, 32 bytes\<close>
  scalar_from_bytes :: "bytes \<Rightarrow> 'f option"  \<comment> \<open>\<open>Scalar::<Public, Zero>::from_bytes\<close>\<close>
  g_mul :: "'f \<Rightarrow> 'p \<Rightarrow> 'p"                   \<comment> \<open>\<open>g!(s * P)\<close>\<close>
  base_point :: 'p                             \<comment> \<open>\<open>G\<close>\<close>
  point_to_bytes :: "'p \<Rightarrow> bytes"            \<comment> \<open>\<open>Point::to_bytes\<close>, 33 bytes\<close>
  point_from_bytes :: "bytes \<Rightarrow> 'p option"   \<comment> \<open>\<open>Point::<Normal, Public, NonZero>::from_bytes\<close>\<close>
  even_y :: "'p \<Rightarrow> 'p \<times> bool"                  \<comment> \<open>\<open>into_point_with_even_y\<close>\<close>
  to_xonly_bytes :: "'p \<Rightarrow> bytes"            \<comment> \<open>\<open>Point::<EvenY>::to_xonly_bytes\<close>, 32 bytes\<close>
  from_xonly_bytes :: "bytes \<Rightarrow> 'p option"   \<comment> \<open>\<open>Point::<EvenY, Public>::from_xonly_bytes\<close>\<close>
  new_keypair :: "'f \<Rightarrow> 'f \<times> 'p"              \<comment> \<open>\<open>Schnorr::new_keypair\<close>\<close>
  schnorr_challenge :: "'p \<Rightarrow> 'p \<Rightarrow> bytes \<Rightarrow> 'f" \<comment> \<open>\<open>Schnorr::challenge(R, X, m)\<close>\<close>
  schnorr_sign :: "'f \<times> 'p \<Rightarrow> bytes \<Rightarrow> 'p \<times> 'f" \<comment> \<open>\<open>Schnorr::sign\<close>\<close>
  schnorr_verify :: "'p \<Rightarrow> bytes \<Rightarrow> 'p \<times> 'f \<Rightarrow> bool" \<comment> \<open>\<open>Schnorr::verify\<close>\<close>
  signature_to_bytes :: "'p \<times> 'f \<Rightarrow> bytes"    \<comment> \<open>\<open>Signature::to_bytes\<close>, 64 bytes\<close>

section \<open>Their documented behaviour\<close>

definition scalar_codec_ok :: "('f, 'p) secp \<Rightarrow> bool" where
  "scalar_codec_ok C \<longleftrightarrow> (\<forall>s. scalar_from_bytes C (scalar_to_bytes C s) = Some s)"

text \<open>Multiplication by scalars is a module action and \<open>G\<close> generates a group of the field's order.\<close>

definition group_ok :: "('f::field, 'p::ab_group_add) secp \<Rightarrow> bool" where
  "group_ok C \<longleftrightarrow>
     (\<forall>a b P. g_mul C (a + b) P = g_mul C a P + g_mul C b P)
     \<and> (\<forall>a P Q. g_mul C a (P + Q) = g_mul C a P + g_mul C a Q)
     \<and> (\<forall>a b P. g_mul C (a * b) P = g_mul C a (g_mul C b P))
     \<and> (\<forall>a. g_mul C a (base_point C) = 0 \<longleftrightarrow> a = 0)
     \<and> (\<forall>P. \<exists>a. P = g_mul C a (base_point C))"

definition point_codec_ok :: "('f, 'p::ab_group_add) secp \<Rightarrow> bool" where
  "point_codec_ok C \<longleftrightarrow>
     inj (point_to_bytes C)
     \<and> (\<forall>P. length (point_to_bytes C P) = 33)
     \<and> (\<forall>P. P \<noteq> 0 \<longrightarrow> point_from_bytes C (point_to_bytes C P) = Some P)
     \<and> (\<forall>b P. point_from_bytes C b = Some P \<longrightarrow> P \<noteq> 0 \<and> point_to_bytes C P = b)"

text \<open>
  \<open>into_point_with_even_y\<close> negates a point with odd y-coordinate and says whether it
  did; the x-only encoding is faithful on points with even y-coordinate.
\<close>

definition even_y_ok :: "('f, 'p::ab_group_add) secp \<Rightarrow> bool" where
  "even_y_ok C \<longleftrightarrow>
     (\<forall>P. P \<noteq> 0 \<longrightarrow> even_y C P = (P, False) \<or> even_y C P = (- P, True))
     \<and> (\<forall>P. P \<noteq> 0 \<longrightarrow> even_y C (fst (even_y C P)) = (fst (even_y C P), False))
     \<and> (\<forall>P. P \<noteq> 0 \<longrightarrow> fst (even_y C (- P)) = fst (even_y C P))
     \<and> (\<forall>P. P \<noteq> 0 \<and> \<not> snd (even_y C P) \<longrightarrow> from_xonly_bytes C (to_xonly_bytes C P) = Some P)
     \<and> (\<forall>b P. from_xonly_bytes C b = Some P \<longrightarrow> P \<noteq> 0 \<and> \<not> snd (even_y C P))"

text \<open>
  A key pair holds the secret normalised to an even public key; verification of \<open>(R, s)\<close>
  is the equation \<open>s G = R + e X\<close> with the challenge \<open>e\<close>; \<open>sign\<close> makes valid signatures.
\<close>

definition schnorr_ok :: "('f::field, 'p::ab_group_add) secp \<Rightarrow> bool" where
  "schnorr_ok C \<longleftrightarrow>
     (\<forall>d. d \<noteq> 0 \<longrightarrow> new_keypair C d =
        (if snd (even_y C (g_mul C d (base_point C)))
         then (- d, - g_mul C d (base_point C)) else (d, g_mul C d (base_point C))))
     \<and> (\<forall>X m R s. X \<noteq> 0 \<and> R \<noteq> 0 \<and> \<not> snd (even_y C X) \<and> \<not> snd (even_y C R) \<longrightarrow>
          schnorr_verify C X m (R, s) \<longleftrightarrow>
            g_mul C s (base_point C) = R + g_mul C (schnorr_challenge C R X m) X)
     \<and> (\<forall>d m. d \<noteq> 0 \<longrightarrow> schnorr_verify C (snd (new_keypair C d)) m (schnorr_sign C (new_keypair C d) m))
     \<and> (\<forall>sig. length (signature_to_bytes C sig) = 64)"

definition secp_laws :: "('f::field, 'p::ab_group_add) secp \<Rightarrow> bool" where
  "secp_laws C \<longleftrightarrow> scalar_codec_ok C \<and> group_ok C \<and> point_codec_ok C \<and> even_y_ok C \<and> schnorr_ok C"

text \<open>
  The group order is far above \<open>2 ^ 16\<close>: distinct 16-bit identifiers are distinct
  scalars, and the small integers that occur as derivative factors are invertible.
\<close>

definition big_characteristic :: "'f::field itself \<Rightarrow> bool" where
  "big_characteristic _ \<longleftrightarrow> (\<forall>n. 0 < n \<and> n \<le> (65535::nat) \<longrightarrow> (of_nat n :: 'f) \<noteq> 0)"

section \<open>Consequences\<close>

lemma secp_lawsD:
  assumes "secp_laws C"
  shows "scalar_codec_ok C" "group_ok C" "point_codec_ok C" "even_y_ok C" "schnorr_ok C"
  using assms by (simp_all add: secp_laws_def)

lemma scalar_codecD: "scalar_codec_ok C \<Longrightarrow> scalar_from_bytes C (scalar_to_bytes C s) = Some s"
  by (simp add: scalar_codec_ok_def)

lemma group_okD:
  assumes "group_ok C"
  shows g_mul_add: "g_mul C (a + b) P = g_mul C a P + g_mul C b P"
    and g_mul_add_right: "g_mul C a (P + Q) = g_mul C a P + g_mul C a Q"
    and g_mul_mult: "g_mul C (a * b) P = g_mul C a (g_mul C b P)"
    and g_mul_G_eq_0_iff: "g_mul C a (base_point C) = 0 \<longleftrightarrow> a = 0"
    and g_mul_G_surj: "\<exists>a. P = g_mul C a (base_point C)"
  using assms unfolding group_ok_def by blast+

lemma g_mul_zero: "group_ok C \<Longrightarrow> g_mul C 0 P = 0"
  using g_mul_add [of C 0 0 P] by simp

lemma g_mul_zero_right: "group_ok C \<Longrightarrow> g_mul C a 0 = 0"
  using g_mul_add_right [of C a 0 0] by simp

lemma g_mul_minus: "group_ok C \<Longrightarrow> g_mul C (- a) P = - g_mul C a P"
  using g_mul_add [of C "- a" a P] by (simp add: g_mul_zero eq_neg_iff_add_eq_0)

lemma g_mul_minus_right: "group_ok C \<Longrightarrow> g_mul C a (- P) = - g_mul C a P"
  using g_mul_add_right [of C a "- P" P] by (simp add: g_mul_zero_right eq_neg_iff_add_eq_0)

lemma g_mul_diff: "group_ok C \<Longrightarrow> g_mul C (a - b) P = g_mul C a P - g_mul C b P"
  using g_mul_add [of C a "- b" P] by (simp add: g_mul_minus)

lemma g_mul_G_inj:
  assumes "group_ok C" "g_mul C a (base_point C) = g_mul C b (base_point C)"
  shows "a = b"
proof -
  have "g_mul C (a + - b) (base_point C) = 0"
    using assms by (simp only: g_mul_add g_mul_minus) simp
  then show ?thesis using assms(1) by (simp add: g_mul_G_eq_0_iff)
qed

lemma g_mul_sum_list: "group_ok C \<Longrightarrow> g_mul C (\<Sum>x\<leftarrow>xs. f x) P = (\<Sum>x\<leftarrow>xs. g_mul C (f x) P)"
  by (induction xs) (simp_all add: g_mul_zero g_mul_add)

lemma point_codecD:
  assumes "point_codec_ok C"
  shows point_to_bytes_inj: "point_to_bytes C P = point_to_bytes C Q \<longleftrightarrow> P = Q"
    and point_to_bytes_length: "length (point_to_bytes C P) = 33"
    and point_from_to_bytes: "P \<noteq> 0 \<Longrightarrow> point_from_bytes C (point_to_bytes C P) = Some P"
    and point_from_bytes_nonzero: "point_from_bytes C b = Some P \<Longrightarrow> P \<noteq> 0"
    and point_to_from_bytes: "point_from_bytes C b = Some P \<Longrightarrow> point_to_bytes C P = b"
  using assms unfolding point_codec_ok_def by (blast dest: injD)+

lemma even_yD:
  assumes "even_y_ok C" "P \<noteq> 0"
  shows even_y_cases: "even_y C P = (P, False) \<or> even_y C P = (- P, True)"
    and even_y_idem: "even_y C (fst (even_y C P)) = (fst (even_y C P), False)"
    and even_y_minus: "fst (even_y C (- P)) = fst (even_y C P)"
    and from_to_xonly: "\<not> snd (even_y C P) \<Longrightarrow> from_xonly_bytes C (to_xonly_bytes C P) = Some P"
  using assms unfolding even_y_ok_def by blast+

lemma from_xonlyD:
  assumes "even_y_ok C" "from_xonly_bytes C b = Some P"
  shows "P \<noteq> 0 \<and> \<not> snd (even_y C P)"
  using assms unfolding even_y_ok_def by blast

lemma even_y_fst:
  assumes "even_y_ok C" "P \<noteq> 0"
  shows "fst (even_y C P) = (if snd (even_y C P) then - P else P)"
  using even_y_cases [OF assms] by auto

lemma even_y_fst_nonzero: "even_y_ok C \<Longrightarrow> P \<noteq> 0 \<Longrightarrow> fst (even_y C P) \<noteq> 0"
  by (simp add: even_y_fst)

lemma new_keypairD:
  assumes "schnorr_ok C" "d \<noteq> 0"
  shows "new_keypair C d =
    (if snd (even_y C (g_mul C d (base_point C)))
     then (- d, - g_mul C d (base_point C)) else (d, g_mul C d (base_point C)))"
  using assms unfolding schnorr_ok_def by blast

lemma schnorr_verify_iff:
  assumes "schnorr_ok C" "X \<noteq> 0" "R \<noteq> 0" "\<not> snd (even_y C X)" "\<not> snd (even_y C R)"
  shows "schnorr_verify C X m (R, s) \<longleftrightarrow>
    g_mul C s (base_point C) = R + g_mul C (schnorr_challenge C R X m) X"
  using assms unfolding schnorr_ok_def by blast

lemma schnorr_sign_verifies:
  "schnorr_ok C \<Longrightarrow> d \<noteq> 0 \<Longrightarrow>
     schnorr_verify C (snd (new_keypair C d)) m (schnorr_sign C (new_keypair C d) m)"
  unfolding schnorr_ok_def by blast

lemma signature_bytes_nonempty: "schnorr_ok C \<Longrightarrow> signature_to_bytes C sig \<noteq> []"
  unfolding schnorr_ok_def by (metis list.size(3) zero_neq_numeral)

section \<open>Scalar helpers of the crate\<close>

text \<open>
  \<open>PublicScalar\<close> is the field; \<open>.public()\<close>, \<open>.mark_zero()\<close> and \<open>.normalize()\<close> change
  only the type of a value.
\<close>

definition scalar_zero :: "'f::field" where
  "scalar_zero = 0"

definition scalar_from_u32 :: "u32 \<Rightarrow> 'f::field" where
  "scalar_from_u32 value = of_nat (unat value)"

definition scalar_one :: "'f::field" where
  "scalar_one = scalar_from_u32 1"

definition scalar_mul :: "'f::field \<Rightarrow> 'f \<Rightarrow> 'f" where
  "scalar_mul left right = left * right"

definition scalar_sub :: "'f::field \<Rightarrow> 'f \<Rightarrow> 'f" where
  "scalar_sub left right = left - right"

definition scalar_add :: "'f::field \<Rightarrow> 'f \<Rightarrow> 'f" where
  "scalar_add left right = left + right"

text \<open>The loop \<open>for _ in 0..exponent { value = scalar_mul(value, base) }\<close>.\<close>

definition scalar_pow :: "'f::field \<Rightarrow> u16 \<Rightarrow> 'f" where
  "scalar_pow base exponent = fold (\<lambda>_ value. scalar_mul value base) [0..<unat exponent] scalar_one"

text \<open>\<open>Scalar::conditional_negate\<close>.\<close>

definition conditional_negate :: "bool \<Rightarrow> 'f::field \<Rightarrow> 'f" where
  "conditional_negate cond s = (if cond then - s else s)"

lemma scalar_one_eq [simp]: "scalar_one = (1 :: 'f::field)"
  by (simp add: scalar_one_def scalar_from_u32_def)

lemmas scalar_op_defs = scalar_zero_def scalar_mul_def scalar_sub_def scalar_add_def

lemma scalar_pow_eq: "scalar_pow base e = base ^ unat e"
proof -
  have "fold (\<lambda>_ value. scalar_mul value base) [0..<n] scalar_one = base ^ n" for n
    by (induction n) (simp_all add: scalar_mul_def mult.commute)
  then show ?thesis by (simp add: scalar_pow_def)
qed

text \<open>\<open>scalar_from_u32(v as u32)\<close> on a \<open>u16\<close>.\<close>

abbreviation scalar_of_u16 :: "u16 \<Rightarrow> 'f::field" where
  "scalar_of_u16 x \<equiv> scalar_from_u32 (ucast x)"

lemma scalar_of_u16_eq: "scalar_of_u16 x = of_nat (unat x)"
proof -
  have "unat (ucast x :: u32) = unat x"
    using unat_u16_le [of x] by (simp add: unsigned_ucast_eq take_bit_nat_eq_self_iff)
  then show ?thesis by (simp add: scalar_from_u32_def)
qed

lemma scalar_of_u16_inj:
  assumes "big_characteristic TYPE('f::field)" "(scalar_of_u16 x :: 'f) = scalar_of_u16 y"
  shows "x = y"
proof (rule ccontr)
  assume "x \<noteq> y"
  then have ne: "unat x \<noteq> unat y" by (simp add: word_unat_eq_iff)
  have eq: "(of_nat (unat x) :: 'f) = of_nat (unat y)" using assms(2) by (simp add: scalar_of_u16_eq)
  have "(of_nat (max (unat x) (unat y) - min (unat x) (unat y)) :: 'f) = 0"
    using eq by (cases "unat x \<le> unat y") (simp_all add: of_nat_diff max_def min_def)
  moreover have "0 < max (unat x) (unat y) - min (unat x) (unat y)" using ne by auto
  moreover have "max (unat x) (unat y) - min (unat x) (unat y) \<le> 65535"
    using unat_u16_le [of x] unat_u16_le [of y] by auto
  ultimately show False using assms(1) unfolding big_characteristic_def by blast
qed

lemma conditional_negate_simps [simp]:
  "conditional_negate True s = - s" "conditional_negate False s = s"
  by (simp_all add: conditional_negate_def)

end
