(* ===== verification/Linear_Solver.thy ===== *)
theory Linear_Solver
  imports Secp
begin

text \<open>
  \<open>solve_scalar_system\<close> of \<open>dkgkit-frost/src/lib.rs\<close>: Gauss-Jordan elimination over the
  scalar field, on a mutable matrix and right-hand side. The lemmas show that it returns
  exactly on the nonsingular systems and that the result is the only solution; the locale
  \<open>linear_solver\<close> is the contract its client, the Birkhoff interpolation, relies on.
\<close>

section \<open>The code\<close>

text \<open>\<open>slice::swap\<close>.\<close>

definition vec_swap :: "'a list \<Rightarrow> nat \<Rightarrow> nat \<Rightarrow> 'a list" where
  "vec_swap xs i j = xs[i := xs ! j, j := xs ! i]"

text \<open>\<open>for entry in row.iter_mut().skip(col) { *entry = scalar_mul(*entry, pivot_inverse) }\<close>.\<close>

definition scale_from :: "nat \<Rightarrow> 'f::field \<Rightarrow> 'f list \<Rightarrow> 'f list" where
  "scale_from col pivot_inverse row =
     map (\<lambda>(k, entry). if k < col then entry else scalar_mul entry pivot_inverse) (enumerate 0 row)"

text \<open>The loop over \<open>inner_col in col..n\<close>: subtract the multiple of the pivot row.\<close>

definition sub_row_multiple :: "nat \<Rightarrow> nat \<Rightarrow> nat \<Rightarrow> 'f::field \<Rightarrow> 'f list list \<Rightarrow> 'f list list" where
  "sub_row_multiple n col row factor matrix =
     fold (\<lambda>inner_col matrix. matrix[row := (matrix ! row)[inner_col :=
             scalar_sub (matrix ! row ! inner_col) (scalar_mul factor (matrix ! col ! inner_col))]])
       [col..<n] matrix"

text \<open>The body of \<open>for row in 0..n\<close>.\<close>

definition eliminate_row ::
    "nat \<Rightarrow> nat \<Rightarrow> nat \<Rightarrow> 'f::field list list \<times> 'f list \<Rightarrow> 'f list list \<times> 'f list" where
  "eliminate_row n col row s =
     (case s of (matrix, target) \<Rightarrow>
       if row = col then (matrix, target)
       else let factor = matrix ! row ! col in
            if factor = 0 then (matrix, target)
            else (sub_row_multiple n col row factor matrix,
                  target[row := scalar_sub (target ! row) (scalar_mul factor (target ! col))]))"

text \<open>The body of \<open>for col in 0..n\<close>: find a pivot, swap it up, normalise its row, eliminate the column.\<close>

definition solve_column ::
    "nat \<Rightarrow> nat \<Rightarrow> 'f::field list list \<times> 'f list \<Rightarrow> ('f list list \<times> 'f list) result" where
  "solve_column n col s =
     (case s of (matrix, target) \<Rightarrow>
       rbind (ok_or (find (\<lambda>row. matrix ! row ! col \<noteq> 0) [col..<n])
                (Protocol ''singular Birkhoff interpolation system'')) (\<lambda>pivot.
       let (matrix, target) =
             (if pivot \<noteq> col then (vec_swap matrix pivot col, vec_swap target pivot col)
              else (matrix, target)) in
       rbind (ensure (matrix ! col ! col \<noteq> 0)
                (Protocol ''singular Birkhoff interpolation pivot'')) (\<lambda>_.
       let pivot_inverse = inverse (matrix ! col ! col);
           matrix = matrix[col := scale_from col pivot_inverse (matrix ! col)];
           target = target[col := scalar_mul (target ! col) pivot_inverse]
       in Inr (fold (eliminate_row n col) [0..<n] (matrix, target)))))"

definition solve_scalar_system :: "'f::field list list \<Rightarrow> 'f list \<Rightarrow> 'f list result" where
  "solve_scalar_system matrix target =
     (let n = length matrix in
      if length target \<noteq> n \<or> (\<exists>row\<in>set matrix. length row \<noteq> n)
      then Inl (Protocol ''Birkhoff linear system must be square'')
      else rbind (try_for (solve_column n) [0..<n] (matrix, target)) (\<lambda>(matrix, target). Inr target))"

section \<open>Linear systems\<close>

definition square_system :: "nat \<Rightarrow> 'f list list \<Rightarrow> 'f list \<Rightarrow> bool" where
  "square_system n m t \<longleftrightarrow> length m = n \<and> length t = n \<and> (\<forall>i<n. length (m ! i) = n)"

text \<open>
  \<open>sat n x s (m, t)\<close>: the vector \<open>x\<close> solves the system with right-hand side \<open>s t\<close>. At
  \<open>s = 1\<close> these are the solutions, at \<open>s = 0\<close> the kernel; row operations keep both.
\<close>

definition sat :: "nat \<Rightarrow> (nat \<Rightarrow> 'f::field) \<Rightarrow> 'f \<Rightarrow> 'f list list \<Rightarrow> 'f list \<Rightarrow> bool" where
  "sat n x s m t \<longleftrightarrow> (\<forall>i<n. (\<Sum>j<n. m ! i ! j * x j) = s * t ! i)"

definition same_sat :: "nat \<Rightarrow> 'f::field list list \<times> 'f list \<Rightarrow> 'f list list \<times> 'f list \<Rightarrow> bool" where
  "same_sat n a b \<longleftrightarrow> (\<forall>x s. sat n x s (fst a) (snd a) \<longleftrightarrow> sat n x s (fst b) (snd b))"

text \<open>The first \<open>k\<close> columns are those of the identity matrix.\<close>

definition reduced :: "nat \<Rightarrow> nat \<Rightarrow> 'f::field list list \<Rightarrow> bool" where
  "reduced n k m \<longleftrightarrow> (\<forall>i<n. \<forall>j<k. m ! i ! j = (if i = j then 1 else 0))"

lemma same_sat_refl [simp]: "same_sat n a a"
  by (simp add: same_sat_def)

lemma same_sat_trans: "same_sat n a b \<Longrightarrow> same_sat n b c \<Longrightarrow> same_sat n a c"
  by (simp add: same_sat_def)

lemma square_system_update:
  "square_system n m t \<Longrightarrow> length r = n \<Longrightarrow> square_system n (m[i := r]) (t[i := v])"
  unfolding square_system_def
  by (intro conjI allI impI) (simp_all, metis nth_list_update_eq nth_list_update_neq)

section \<open>Row operations keep the solutions\<close>

lemma same_sat_swap:
  assumes "square_system n m t" "i < n" "j < n"
  shows "same_sat n (m, t) (vec_swap m i j, vec_swap t i j)"
proof -
  have row: "vec_swap m i j ! k = m ! (if k = i then j else if k = j then i else k)"
    and rhs: "vec_swap t i j ! k = t ! (if k = i then j else if k = j then i else k)" if "k < n" for k
    using assms that by (auto simp: vec_swap_def square_system_def nth_list_update)
  have perm: "(\<forall>k<n. Q (if k = i then j else if k = j then i else k)) \<longleftrightarrow> (\<forall>k<n. Q k)" for Q
  proof
    assume a: "\<forall>k<n. Q (if k = i then j else if k = j then i else k)"
    show "\<forall>k<n. Q k"
    proof (intro allI impI)
      fix k assume "k < n"
      then show "Q k" using a assms(2,3)
        by (metis (full_types))
    qed
  next
    assume "\<forall>k<n. Q k"
    then show "\<forall>k<n. Q (if k = i then j else if k = j then i else k)" using assms(2,3) by simp
  qed
  have "sat n x s (vec_swap m i j) (vec_swap t i j) \<longleftrightarrow> sat n x s m t" for x s
  proof -
    let ?Q = "\<lambda>k. (\<Sum>l<n. m ! k ! l * x l) = s * t ! k"
    have "sat n x s (vec_swap m i j) (vec_swap t i j) \<longleftrightarrow>
        (\<forall>k<n. ?Q (if k = i then j else if k = j then i else k))"
      unfolding sat_def using row rhs by auto
    also have "\<dots> \<longleftrightarrow> (\<forall>k<n. ?Q k)" by (rule perm)
    finally show ?thesis by (simp only: sat_def)
  qed
  then show ?thesis by (simp add: same_sat_def)
qed

lemma same_sat_scale:
  assumes sq: "square_system n m t" and i: "i < n" and c: "c \<noteq> 0"
    and r: "length r = n" "\<And>j. j < n \<Longrightarrow> r ! j = m ! i ! j * c"
  shows "same_sat n (m, t) (m[i := r], t[i := t ! i * c])"
proof -
  have "(\<Sum>j<n. r ! j * x j) = c * (\<Sum>j<n. m ! i ! j * x j)" for x
    using r(2) by (simp add: sum_distrib_left mult_ac)
  then have row_i: "(\<Sum>j<n. m[i := r] ! i ! j * x j) = s * t[i := t ! i * c] ! i \<longleftrightarrow>
      (\<Sum>j<n. m ! i ! j * x j) = s * t ! i" for x s
    using sq i c by (auto simp: square_system_def)
  have other: "m[i := r] ! k = m ! k" "t[i := t ! i * c] ! k = t ! k" if "k \<noteq> i" for k
    using that by simp_all
  have "((\<Sum>j<n. m[i := r] ! k ! j * x j) = s * t[i := t ! i * c] ! k) \<longleftrightarrow>
      ((\<Sum>j<n. m ! k ! j * x j) = s * t ! k)" for k x s
    by (cases "k = i") (simp_all only: row_i other not_False_eq_True)
  then show ?thesis unfolding same_sat_def sat_def by simp
qed

lemma same_sat_sub:
  assumes sq: "square_system n m t" and i: "i < n" "p < n" "i \<noteq> p"
    and r: "length r = n" "\<And>j. j < n \<Longrightarrow> r ! j = m ! i ! j - c * m ! p ! j"
  shows "same_sat n (m, t) (m[i := r], t[i := t ! i - c * t ! p])"
proof -
  have lin: "(\<Sum>j<n. r ! j * x j) = (\<Sum>j<n. m ! i ! j * x j) - c * (\<Sum>j<n. m ! p ! j * x j)" for x
    using r(2) by (simp add: sum_distrib_left sum_subtractf left_diff_distrib mult.assoc)
  have other: "m[i := r] ! k = m ! k" "t[i := t ! i - c * t ! p] ! k = t ! k" if "k \<noteq> i" for k
    using that by simp_all
  have at_i: "m[i := r] ! i = r" "t[i := t ! i - c * t ! p] ! i = t ! i - c * t ! p"
    using sq i by (simp_all add: square_system_def)
  have "sat n x s (m[i := r]) (t[i := t ! i - c * t ! p]) \<longleftrightarrow> sat n x s m t" for x s
  proof -
    have row_p: "(\<Sum>j<n. m ! p ! j * x j) = s * t ! p \<Longrightarrow>
        (\<Sum>j<n. r ! j * x j) = s * (t ! i - c * t ! p) \<longleftrightarrow> (\<Sum>j<n. m ! i ! j * x j) = s * t ! i"
      unfolding lin by (simp add: algebra_simps)
    show ?thesis
    proof
      assume L: "sat n x s (m[i := r]) (t[i := t ! i - c * t ! p])"
      then have p: "(\<Sum>j<n. m ! p ! j * x j) = s * t ! p"
        using i other [of p] unfolding sat_def by metis
      have "(\<Sum>j<n. m ! k ! j * x j) = s * t ! k" if "k < n" for k
        using L that i row_p [OF p] other [of k] at_i unfolding sat_def by (cases "k = i") metis+
      then show "sat n x s m t" by (simp add: sat_def)
    next
      assume R: "sat n x s m t"
      then have p: "(\<Sum>j<n. m ! p ! j * x j) = s * t ! p" using i by (simp add: sat_def)
      have "(\<Sum>j<n. m[i := r] ! k ! j * x j) = s * t[i := t ! i - c * t ! p] ! k" if "k < n" for k
        using R that i row_p [OF p] other [of k] at_i unfolding sat_def by (cases "k = i") metis+
      then show "sat n x s (m[i := r]) (t[i := t ! i - c * t ! p])" by (simp add: sat_def)
    qed
  qed
  then show ?thesis by (simp add: same_sat_def)
qed

section \<open>The loops of the code\<close>

lemma scale_from_nth: "j < length r \<Longrightarrow> scale_from col c r ! j = (if j < col then r ! j else r ! j * c)"
  by (simp add: scale_from_def nth_enumerate_eq scalar_mul_def)

lemma scale_from_length [simp]: "length (scale_from col c r) = length r"
  by (simp add: scale_from_def)

lemma sub_row_multiple_eq:
  assumes "square_system n m t" "row < n" "col < n" "row \<noteq> col"
  shows "sub_row_multiple n col row c m =
    m[row := map (\<lambda>j. if j < col then m ! row ! j else m ! row ! j - c * m ! col ! j) [0..<n]]"
proof -
  let ?new = "\<lambda>k. map (\<lambda>j. if col \<le> j \<and> j < k then m ! row ! j - c * m ! col ! j else m ! row ! j) [0..<n]"
  have len: "length m = n" "length (m ! row) = n" using assms by (simp_all add: square_system_def)
  have "fold (\<lambda>inner_col matrix. matrix[row := (matrix ! row)[inner_col :=
             scalar_sub (matrix ! row ! inner_col) (scalar_mul c (matrix ! col ! inner_col))]])
       [col..<k] m = m[row := ?new k]" if "col \<le> k" "k \<le> n" for k
    using that
  proof (induction k rule: dec_induct)
    case base
    have "?new col = m ! row" using len by (intro nth_equalityI) auto
    then show ?case by simp
  next
    case (step k)
    have "(?new k)[k := m ! row ! k - c * m ! col ! k] = ?new (Suc k)"
      using step by (intro nth_equalityI) (auto simp: nth_list_update)
    with step assms len show ?case by (simp add: scalar_sub_def scalar_mul_def)
  qed
  from this [of n] have "sub_row_multiple n col row c m = m[row := ?new n]"
    using assms by (simp add: sub_row_multiple_def)
  also have "?new n = map (\<lambda>j. if j < col then m ! row ! j else m ! row ! j - c * m ! col ! j) [0..<n]"
    by auto
  finally show ?thesis .
qed

text \<open>
  The invariant of the elimination loop over the rows: same solutions, the pivot row
  untouched, the pivot column cleared in the rows passed, the columns before it as they were.
\<close>

definition elim_inv :: "nat \<Rightarrow> nat \<Rightarrow> 'f::field list list \<times> 'f list \<Rightarrow> nat \<Rightarrow> 'f list list \<times> 'f list \<Rightarrow> bool" where
  "elim_inv n col s0 k s \<longleftrightarrow> square_system n (fst s) (snd s) \<and> same_sat n s0 s \<and> reduced n col (fst s)
     \<and> fst s ! col ! col = 1 \<and> (\<forall>i<k. i \<noteq> col \<longrightarrow> fst s ! i ! col = 0)"

lemma eliminate_row_inv:
  assumes inv: "elim_inv n col s0 k s" and k: "k < n" "col < n"
  shows "elim_inv n col s0 (Suc k) (eliminate_row n col k s)"
proof (cases "k = col \<or> fst s ! k ! col = 0")
  case True
  then have "eliminate_row n col k s = s" by (auto simp: eliminate_row_def split: prod.splits)
  with True inv show ?thesis by (auto simp: elim_inv_def less_Suc_eq)
next
  case False
  obtain m t where s: "s = (m, t)" by (cases s)
  let ?c = "m ! k ! col"
  let ?r = "map (\<lambda>j. if j < col then m ! k ! j else m ! k ! j - ?c * m ! col ! j) [0..<n]"
  from inv s have sq: "square_system n m t" and red: "reduced n col m" and one: "m ! col ! col = 1"
    and zero: "\<forall>i<k. i \<noteq> col \<longrightarrow> m ! i ! col = 0" and ss: "same_sat n s0 (m, t)"
    by (auto simp: elim_inv_def)
  have eq: "eliminate_row n col k s = (m[k := ?r], t[k := t ! k - ?c * t ! col])"
    using False s k sub_row_multiple_eq [OF sq k(1,2), of ?c]
    by (simp add: eliminate_row_def scalar_sub_def scalar_mul_def Let_def)
  have r: "?r ! j = m ! k ! j - ?c * m ! col ! j" if "j < n" for j
    using that red k by (auto simp: reduced_def)
  have "same_sat n (m, t) (m[k := ?r], t[k := t ! k - ?c * t ! col])"
    using False s k r by (intro same_sat_sub [OF sq]) auto
  moreover have "square_system n (m[k := ?r]) (t[k := t ! k - ?c * t ! col])"
    using sq by (rule square_system_update) simp
  moreover have "reduced n col (m[k := ?r])"
    using red k sq unfolding reduced_def square_system_def by (auto simp: nth_list_update)
  moreover have "m[k := ?r] ! col ! col = 1" using one False s by simp
  moreover have "\<forall>i<Suc k. i \<noteq> col \<longrightarrow> m[k := ?r] ! i ! col = 0"
    using zero one k sq by (auto simp: nth_list_update less_Suc_eq square_system_def)
  ultimately show ?thesis using ss unfolding elim_inv_def eq by (auto intro: same_sat_trans)
qed

lemma eliminate_column:
  assumes "square_system n m t" "reduced n col m" "m ! col ! col = 1" "col < n"
  shows "\<exists>m' t'. fold (eliminate_row n col) [0..<n] (m, t) = (m', t') \<and> square_system n m' t'
    \<and> same_sat n (m, t) (m', t') \<and> reduced n (Suc col) m'"
proof -
  have "elim_inv n col (m, t) n (fold (eliminate_row n col) [0..<n] (m, t))"
  proof (rule fold_upt_invariant [where P = "elim_inv n col (m, t)"])
    show "elim_inv n col (m, t) 0 (m, t)" using assms by (simp add: elim_inv_def)
    show "elim_inv n col (m, t) (Suc k) (eliminate_row n col k s)"
      if "k < n" "elim_inv n col (m, t) k s" for k s
      using eliminate_row_inv [OF that(2,1) assms(4)] .
  qed
  then show ?thesis
    unfolding elim_inv_def reduced_def
    by (cases "fold (eliminate_row n col) [0..<n] (m, t)") (auto simp: less_Suc_eq)
qed

text \<open>The invariant of the loop over the columns.\<close>

definition solve_inv :: "nat \<Rightarrow> 'f::field list list \<times> 'f list \<Rightarrow> nat \<Rightarrow> 'f list list \<times> 'f list \<Rightarrow> bool" where
  "solve_inv n s0 k s \<longleftrightarrow> square_system n (fst s) (snd s) \<and> same_sat n s0 s \<and> reduced n k (fst s)"

lemma pivot_swap:
  assumes "square_system n m t" "reduced n col m" "col \<le> pivot" "pivot < n"
  shows "square_system n (vec_swap m pivot col) (vec_swap t pivot col)"
    and "reduced n col (vec_swap m pivot col)"
    and "same_sat n (m, t) (vec_swap m pivot col, vec_swap t pivot col)"
    and "vec_swap m pivot col ! col = m ! pivot"
proof -
  have len: "length m = n" "length t = n" using assms(1) by (simp_all add: square_system_def)
  have nth: "vec_swap m pivot col ! k = m ! (if k = pivot then col else if k = col then pivot else k)"
    if "k < n" for k
    using assms that len by (auto simp: vec_swap_def nth_list_update)
  show "square_system n (vec_swap m pivot col) (vec_swap t pivot col)"
    unfolding square_system_def
    using assms len nth by (auto simp: square_system_def) (simp_all add: vec_swap_def)
  show "reduced n col (vec_swap m pivot col)"
    unfolding reduced_def using assms(2-4) nth by (auto simp: reduced_def)
  show "same_sat n (m, t) (vec_swap m pivot col, vec_swap t pivot col)"
    using assms by (intro same_sat_swap) auto
  show "vec_swap m pivot col ! col = m ! pivot" using nth [of col] assms by auto
qed

lemma solve_column_inv:
  assumes inv: "solve_inv n s0 col s" and col: "col < n" and ok: "solve_column n col s = Inr s'"
  shows "solve_inv n s0 (Suc col) s'"
proof -
  obtain m t where s: "s = (m, t)" by (cases s)
  from inv s have sq: "square_system n m t" and red: "reduced n col m" and ss: "same_sat n s0 (m, t)"
    by (auto simp: solve_inv_def)
  from ok s obtain pivot where find: "find (\<lambda>row. m ! row ! col \<noteq> 0) [col..<n] = Some pivot"
    by (auto simp: solve_column_def rbind_Inr_iff ok_or_Inr_iff)
  from find_Some_memD [OF find] have pv: "col \<le> pivot" "pivot < n" "m ! pivot ! col \<noteq> 0" by auto
  define m1 where "m1 = (if pivot \<noteq> col then vec_swap m pivot col else m)"
  define t1 where "t1 = (if pivot \<noteq> col then vec_swap t pivot col else t)"
  have 1: "square_system n m1 t1" "reduced n col m1" "same_sat n (m, t) (m1, t1)" "m1 ! col ! col \<noteq> 0"
    using pivot_swap [OF sq red pv(1,2)] sq red pv(3) by (auto simp: m1_def t1_def)
  define c where "c = inverse (m1 ! col ! col)"
  define m2 where "m2 = m1[col := scale_from col c (m1 ! col)]"
  define t2 where "t2 = t1[col := t1 ! col * c]"
  have c: "c \<noteq> 0" using 1(4) by (simp add: c_def)
  have rowlen: "length (m1 ! col) = n" "length m1 = n" using 1(1) col by (simp_all add: square_system_def)
  have scaled: "scale_from col c (m1 ! col) ! j = m1 ! col ! j * c" if "j < n" for j
    using that rowlen 1(2) col by (auto simp: scale_from_nth reduced_def)
  have 2: "square_system n m2 t2" "same_sat n (m1, t1) (m2, t2)"
    unfolding m2_def t2_def
    using 1(1) rowlen col c scaled by (auto intro!: square_system_update same_sat_scale)
  have at_col: "m2 ! col = scale_from col c (m1 ! col)" using rowlen col by (simp add: m2_def)
  have one: "m2 ! col ! col = 1"
    using rowlen 1(4) col by (simp add: at_col scale_from_nth c_def)
  have red2: "reduced n col m2"
    unfolding reduced_def
  proof (intro allI impI)
    fix i j assume "i < n" "j < col"
    with 1(2) col rowlen at_col show "m2 ! i ! j = (if i = j then 1 else 0)"
      by (cases "i = col") (auto simp: m2_def reduced_def scale_from_nth)
  qed
  have s': "s' = fold (eliminate_row n col) [0..<n] (m2, t2)"
    using ok s find 1(4) unfolding solve_column_def m2_def t2_def c_def m1_def t1_def
    by (auto simp: Let_def scalar_mul_def split: if_splits)
  from eliminate_column [OF 2(1) red2 one col] show ?thesis
    using ss 1(3) 2(2) by (auto simp: solve_inv_def s' same_sat_def)
qed

text \<open>When no pivot is found, the current system has a kernel vector, and so has the original one.\<close>

lemma solve_column_singular:
  assumes inv: "solve_inv n s0 col s" and col: "col < n" and err: "solve_column n col s = Inl e"
  shows "\<exists>x. x col = 1 \<and> sat n x 0 (fst s0) (snd s0)"
proof -
  obtain m t where s: "s = (m, t)" by (cases s)
  from inv s have sq: "square_system n m t" and red: "reduced n col m" and ss: "same_sat n s0 (m, t)"
    by (auto simp: solve_inv_def)
  have none: "find (\<lambda>row. m ! row ! col \<noteq> 0) [col..<n] = None"
  proof (rule ccontr)
    assume "find (\<lambda>row. m ! row ! col \<noteq> 0) [col..<n] \<noteq> None"
    then obtain pivot where find: "find (\<lambda>row. m ! row ! col \<noteq> 0) [col..<n] = Some pivot" by blast
    with find_Some_memD [OF find] pivot_swap(4) [OF sq red, of pivot] err s show False
      by (auto simp: solve_column_def Let_def split: if_splits)
  qed
  then have low: "m ! i ! col = 0" if "col \<le> i" "i < n" for i
    using that by (auto simp: find_None_iff)
  define x where "x = (\<lambda>j. if j < col then - (m ! j ! col) else if j = col then 1 else 0)"
  have "(\<Sum>j<n. m ! i ! j * x j) = 0" if i: "i < n" for i
  proof -
    have "(\<Sum>j<n. m ! i ! j * x j) = (\<Sum>j<Suc col. m ! i ! j * x j)"
      using col by (intro sum.mono_neutral_right) (auto simp: x_def)
    also have "\<dots> = (\<Sum>j<col. m ! i ! j * x j) + m ! i ! col" by (simp add: x_def)
    also have "(\<Sum>j<col. m ! i ! j * x j) = (\<Sum>j<col. if j = i then - (m ! i ! col) else 0)"
      using red i by (intro sum.cong) (auto simp: reduced_def x_def)
    also have "\<dots> = (if i < col then - (m ! i ! col) else 0)" by simp
    finally show ?thesis using low [of i] i by auto
  qed
  then have "sat n x 0 m t" by (simp add: sat_def)
  with ss have "sat n x 0 (fst s0) (snd s0)" by (simp add: same_sat_def)
  moreover have "x col = 1" by (simp add: x_def)
  ultimately show ?thesis by blast
qed

section \<open>Correctness of the solver\<close>

lemma solve_loop:
  assumes "square_system n m t"
  shows "case try_for (solve_column n) [0..<n] (m, t) of
      Inr s' \<Rightarrow> solve_inv n (m, t) n s'
    | Inl e \<Rightarrow> \<exists>k s'. k < n \<and> solve_inv n (m, t) k s' \<and> solve_column n k s' = Inl e"
proof (rule try_for_upt_invariant [where P = "solve_inv n (m, t)"])
  show "solve_inv n (m, t) 0 (m, t)" using assms by (simp add: solve_inv_def reduced_def)
  show "solve_inv n (m, t) (Suc k) s'"
    if "k < n" "solve_inv n (m, t) k s" "solve_column n k s = Inr s'" for k s s'
    using solve_column_inv [OF that(2,1,3)] .
qed

lemma square_system_length: "square_system n m t \<Longrightarrow> length m = n \<and> length t = n \<and> (\<forall>r\<in>set m. length r = n)"
  by (auto simp: square_system_def in_set_conv_nth)

lemma reduced_full_sat:
  assumes "reduced n n m"
  shows "sat n x s m t \<longleftrightarrow> (\<forall>i<n. x i = s * t ! i)"
proof -
  have "(\<Sum>j<n. m ! i ! j * x j) = x i" if "i < n" for i
  proof -
    have "(\<Sum>j<n. m ! i ! j * x j) = (\<Sum>j<n. if j = i then x i else 0)"
      using assms that by (intro sum.cong) (auto simp: reduced_def)
    with that show ?thesis by simp
  qed
  then show ?thesis by (simp add: sat_def)
qed

lemma solve_scalar_system_sound:
  assumes sq: "square_system n m t" and ok: "solve_scalar_system m t = Inr y"
  shows "length y = n \<and> (\<forall>x. sat n x 1 m t \<longleftrightarrow> (\<forall>i<n. x i = y ! i))"
proof -
  from ok square_system_length [OF sq] obtain m' where
    run: "try_for (solve_column n) [0..<n] (m, t) = Inr (m', y)"
    by (auto simp: solve_scalar_system_def rbind_Inr_iff split: if_splits)
  with solve_loop [OF sq] have "solve_inv n (m, t) n (m', y)" by simp
  then have "square_system n m' y" "same_sat n (m, t) (m', y)" "reduced n n m'"
    by (simp_all add: solve_inv_def)
  then show ?thesis by (simp add: same_sat_def reduced_full_sat square_system_def)
qed

lemma solve_scalar_system_complete:
  assumes sq: "square_system n m t" and err: "solve_scalar_system m t = Inl e"
  shows "\<exists>x. (\<exists>i<n. x i \<noteq> 0) \<and> sat n x 0 m t"
proof -
  from err square_system_length [OF sq] have run: "try_for (solve_column n) [0..<n] (m, t) = Inl e"
    by (auto simp: solve_scalar_system_def rbind_Inl_iff split: if_splits)
  with solve_loop [OF sq] obtain k s' where "k < n" "solve_inv n (m, t) k s'" "solve_column n k s' = Inl e"
    by auto
  with solve_column_singular [of n "(m, t)" k s' e] obtain x where "x k = 1" "sat n x 0 m t" by auto
  with \<open>k < n\<close> have "\<exists>i<n. x i \<noteq> 0" by (intro exI [of _ k]) simp
  with \<open>sat n x 0 m t\<close> show ?thesis by blast
qed

section \<open>The contract of a linear solver\<close>

text \<open>
  What the interpolation needs of a solver: a returned vector is the only solution, and an
  error on a square system means that the columns are linearly dependent.
\<close>

locale linear_solver =
  fixes solve :: "'f::field list list \<Rightarrow> 'f list \<Rightarrow> 'f list result"
  assumes sound: "square_system n m t \<Longrightarrow> solve m t = Inr y \<Longrightarrow>
      length y = n \<and> (\<forall>x. sat n x 1 m t \<longleftrightarrow> (\<forall>i<n. x i = y ! i))"
    and complete: "square_system n m t \<Longrightarrow> solve m t = Inl e \<Longrightarrow>
      \<exists>x. (\<exists>i<n. x i \<noteq> 0) \<and> sat n x 0 m t"
begin

lemma solves: "square_system n m t \<Longrightarrow> solve m t = Inr y \<Longrightarrow> i < n \<Longrightarrow> (\<Sum>j<n. m ! i ! j * y ! j) = t ! i"
  using sound [of n m t y] by (auto simp: sat_def)

lemma nonsingular_returns:
  assumes "square_system n m t" "\<And>x. sat n x 0 m t \<Longrightarrow> \<forall>i<n. x i = 0"
  shows "\<exists>y. solve m t = Inr y"
proof (cases "solve m t")
  case (Inl e)
  from complete [OF assms(1) Inl] obtain x where "\<exists>i<n. x i \<noteq> 0" "sat n x 0 m t" by blast
  with assms(2) [of x] show ?thesis by blast
qed simp

lemma returns_nonsingular:
  assumes sq: "square_system n m t" and ok: "solve m t = Inr y" and ker: "sat n x 0 m t"
  shows "\<forall>i<n. x i = 0"
proof -
  have only: "sat n z 1 m t \<longleftrightarrow> (\<forall>i<n. z i = y ! i)" for z using sound [OF sq ok] by simp
  have "sat n (\<lambda>j. y ! j) 1 m t" unfolding only by simp
  with ker have "sat n (\<lambda>j. y ! j + x j) 1 m t"
    by (simp add: sat_def distrib_left sum.distrib)
  then have "\<forall>i<n. y ! i + x i = y ! i" unfolding only .
  then show ?thesis by simp
qed

text \<open>
  Solving the transposed system for the first unit vector gives weights whose combination
  of the rows is the first coordinate functional.
\<close>

lemma transposed_weights:
  assumes sq: "square_system n mt (1 # replicate (n - 1) 0)"
    and tr: "\<And>i j. i < n \<Longrightarrow> j < n \<Longrightarrow> mt ! j ! i = b i j"
    and ok: "solve mt (1 # replicate (n - 1) 0) = Inr w" and len: "length a \<le> n" "0 < n"
  shows "(\<Sum>i<n. w ! i * (\<Sum>j<length a. a ! j * b i j)) = (if a = [] then 0 else a ! 0)"
proof -
  have e: "(\<Sum>i<n. b i j * w ! i) = (if j = 0 then 1 else 0)" if "j < n" for j
    using solves [OF sq ok that] tr that by (auto simp: nth_Cons split: nat.splits)
  have "(\<Sum>i<n. w ! i * (\<Sum>j<length a. a ! j * b i j)) = (\<Sum>i<n. \<Sum>j<length a. a ! j * (b i j * w ! i))"
    by (simp add: sum_distrib_left mult_ac)
  also have "\<dots> = (\<Sum>j<length a. a ! j * (\<Sum>i<n. b i j * w ! i))"
    by (subst sum.swap) (simp add: sum_distrib_left)
  also have "\<dots> = (\<Sum>j<length a. if j = 0 then a ! 0 else 0)"
    using len e by (intro sum.cong) auto
  finally show ?thesis by auto
qed

end

interpretation gj: linear_solver solve_scalar_system
  by unfold_locales (fact solve_scalar_system_sound solve_scalar_system_complete)+

end
