(* ===== verification/Scalar_Poly.thy ===== *)
theory Scalar_Poly
  imports Secp
begin

text \<open>
  Evaluation of derivatives of polynomials given by coefficient lists:
  \<open>derivative_basis_scalar\<close> and \<open>polynomial_derivative_value\<close> of
  \<open>dkgkit-frost/src/lib.rs\<close>, and their equivalence with formal differentiation.
\<close>

section \<open>The code\<close>

text \<open>
  The \<open>u16\<close> arithmetic \<open>degree - derivative_order + 1\<close> wraps as in a release build; the
  loop runs over the inclusive range up to \<open>degree\<close>.
\<close>

definition derivative_basis_scalar :: "u16 \<Rightarrow> u16 \<Rightarrow> u16 \<Rightarrow> 'f::field result" where
  "derivative_basis_scalar degree derivative_order x =
     (if derivative_order > degree then Inr scalar_zero
      else let coefficient =
             fold (\<lambda>factor coefficient. scalar_mul coefficient (scalar_of_u16 (as_u16 factor)))
               [unat (degree - derivative_order + 1)..<Suc (unat degree)] scalar_one
           in Inr (scalar_mul coefficient (scalar_pow (scalar_of_u16 x) (degree - derivative_order))))"

text \<open>
  \<open>.expect("valid derivative basis")\<close> is \<open>projr\<close>: the basis function has no error
  branch, see \<open>derivative_basis_ok\<close>.
\<close>

definition polynomial_derivative_value :: "'f::field list \<Rightarrow> u16 \<Rightarrow> u16 \<Rightarrow> 'f" where
  "polynomial_derivative_value coefficients x derivative_order =
     foldl scalar_add scalar_zero
       (map (\<lambda>(degree, coefficient). scalar_mul coefficient
               (projr (derivative_basis_scalar (as_u16 degree) derivative_order x)))
         (enumerate 0 coefficients))"

lemma derivative_basis_ok: "\<exists>b. derivative_basis_scalar d r x = Inr b"
  by (auto simp: derivative_basis_scalar_def Let_def)

section \<open>The basis of derivative conditions\<close>

text \<open>The \<open>r\<close>-th derivative of \<open>X ^ d\<close> at \<open>x\<close>.\<close>

definition dbasis :: "nat \<Rightarrow> nat \<Rightarrow> 'f::field \<Rightarrow> 'f" where
  "dbasis d r x = (if d < r then 0 else of_nat (\<Prod>{d - r + 1..d}) * x ^ (d - r))"

lemma dbasis_0: "dbasis d 0 x = x ^ d"
  by (simp add: dbasis_def)

lemma fold_scalar_prod:
  assumes "b \<le> 65536"
  shows "fold (\<lambda>factor c. scalar_mul c (scalar_of_u16 (as_u16 factor))) [a..<b] (c :: 'f::field)
    = c * of_nat (\<Prod>{a..<b})"
  using assms
proof (induction b arbitrary: c)
  case (Suc b)
  show ?case
  proof (cases "a \<le> b")
    case True
    have "(scalar_of_u16 (as_u16 b) :: 'f) = of_nat b"
      using Suc.prems by (simp only: scalar_of_u16_eq as_u16_id)
    with Suc True show ?thesis by (simp add: scalar_mul_def atLeastLessThanSuc mult_ac)
  qed simp
qed simp

lemma derivative_basis_scalar_eq:
  assumes d: "d < 65535"
  shows "derivative_basis_scalar (as_u16 d) r x = Inr (dbasis d (unat r) (of_nat (unat x)) :: 'a::field)"
proof (cases "d < unat r")
  case True
  then have "as_u16 d < r" using d by (simp add: word_less_nat_alt as_u16_id)
  with True show ?thesis by (simp add: derivative_basis_scalar_def dbasis_def scalar_zero_def)
next
  case False
  then have le: "r \<le> as_u16 d" using d by (simp add: word_le_nat_alt as_u16_id)
  then have diff: "unat (as_u16 d - r) = d - unat r"
    using d by (simp add: unat_sub as_u16_id)
  then have lo: "unat (as_u16 d - r + 1) = d - unat r + 1"
    using d by (simp add: unat_word_ariths)
  have range: "{d - unat r + 1..<Suc d} = {d - unat r + 1..d}" by auto
  have "fold (\<lambda>factor c. scalar_mul c (scalar_of_u16 (as_u16 factor)))
      [unat (as_u16 d - r + 1)..<Suc (unat (as_u16 d))] scalar_one = (of_nat (\<Prod>{d - unat r + 1..d}) :: 'a)"
    using d by (subst fold_scalar_prod) (simp_all only: lo as_u16_id range scalar_one_eq mult_1_left)
  moreover have "\<not> as_u16 d < r" using le by simp
  ultimately show ?thesis
    using False unfolding derivative_basis_scalar_def dbasis_def Let_def
    by (simp only: if_False scalar_mul_def scalar_pow_eq diff scalar_of_u16_eq)
qed

lemma foldl_scalar_add: "foldl scalar_add a xs = a + sum_list xs"
  by (induction xs arbitrary: a) (simp_all add: scalar_add_def add.assoc)

lemma polynomial_derivative_value_eq:
  assumes "length cs \<le> 65535"
  shows "polynomial_derivative_value cs x r =
    (\<Sum>j<length cs. cs ! j * dbasis j (unat r) (of_nat (unat x)))"
proof -
  have "map (\<lambda>(degree, coefficient). scalar_mul coefficient
            (projr (derivative_basis_scalar (as_u16 degree) r x))) (enumerate 0 cs)
      = map (\<lambda>j. cs ! j * dbasis j (unat r) (of_nat (unat x))) [0..<length cs]"
    using assms by (intro nth_equalityI)
      (auto simp: nth_enumerate_eq derivative_basis_scalar_eq scalar_mul_def)
  then show ?thesis
    by (simp add: polynomial_derivative_value_def foldl_scalar_add scalar_zero_def
        interv_sum_list_conv_sum_set_nat atLeast0LessThan)
qed

section \<open>Formal derivatives\<close>

definition poly_eval :: "'f::field list \<Rightarrow> 'f \<Rightarrow> 'f" where
  "poly_eval cs x = (\<Sum>i<length cs. cs ! i * x ^ i)"

text \<open>The coefficient list of the derivative.\<close>

definition poly_deriv :: "'f::field list \<Rightarrow> 'f list" where
  "poly_deriv cs = map (\<lambda>i. of_nat (Suc i) * cs ! Suc i) [0..<length cs - 1]"

lemma poly_deriv_length [simp]: "length (poly_deriv cs) = length cs - 1"
  by (simp add: poly_deriv_def)

lemma poly_deriv_nth: "i < length cs - 1 \<Longrightarrow> poly_deriv cs ! i = of_nat (Suc i) * cs ! Suc i"
  by (simp add: poly_deriv_def)

lemma poly_deriv_pow_length: "length ((poly_deriv ^^ r) cs) = length cs - r"
  by (induction r) simp_all

lemma poly_deriv_pow_nth:
  "i + r < length cs \<Longrightarrow> (poly_deriv ^^ r) cs ! i = of_nat (\<Prod>{i + 1..i + r}) * cs ! (i + r)"
proof (induction r arbitrary: i)
  case (Suc r)
  have prod: "\<Prod>{i + 1..i + Suc r} = Suc i * \<Prod>{Suc i + 1..Suc i + r}"
    by (subst prod.atLeast_Suc_atMost) simp_all
  have "(poly_deriv ^^ Suc r) cs ! i = of_nat (Suc i) * (poly_deriv ^^ r) cs ! Suc i"
    using Suc.prems poly_deriv_nth [of i "(poly_deriv ^^ r) cs"]
    by (simp only: funpow.simps o_apply poly_deriv_pow_length)
  also have "(poly_deriv ^^ r) cs ! Suc i = of_nat (\<Prod>{Suc i + 1..Suc i + r}) * cs ! (Suc i + r)"
    using Suc.prems by (intro Suc.IH) simp
  finally have "(poly_deriv ^^ Suc r) cs ! i = of_nat (Suc i) * (of_nat (\<Prod>{Suc i + 1..Suc i + r}) * cs ! (Suc i + r))" .
  moreover have "Suc i + r = i + Suc r" by simp
  ultimately show ?case by (simp only: prod of_nat_mult mult.assoc)
qed simp

lemma poly_eval_deriv_pow:
  "poly_eval ((poly_deriv ^^ r) cs) x = (\<Sum>j<length cs. cs ! j * dbasis j r x)"
proof -
  have "poly_eval ((poly_deriv ^^ r) cs) x
      = (\<Sum>i<length cs - r. of_nat (\<Prod>{i + 1..i + r}) * cs ! (i + r) * x ^ i)"
    by (simp add: poly_eval_def poly_deriv_pow_length poly_deriv_pow_nth)
  also have "\<dots> = (\<Sum>i<length cs - r. cs ! (i + r) * dbasis (i + r) r x)"
    by (intro sum.cong) (simp_all add: dbasis_def mult_ac)
  also have "\<dots> = (\<Sum>j\<in>{r..<length cs}. cs ! j * dbasis j r x)"
    by (rule sum.reindex_bij_witness [of _ "\<lambda>j. j - r" "\<lambda>i. i + r"]) auto
  also have "\<dots> = (\<Sum>j<length cs. cs ! j * dbasis j r x)"
    by (intro sum.mono_neutral_left) (auto simp: dbasis_def)
  finally show ?thesis .
qed

end
