(* ===== verification/Signer_Sets.thy ===== *)
theory Signer_Sets
  imports Core_Types
begin

text \<open>
  Signer-set validation of \<open>dkgkit-frost\<close> (plain, hierarchical and grouped thresholds) and
  the specification of each policy: what an accepted set of signers satisfies, counted
  per rank.
\<close>

section \<open>The code\<close>

definition check_signer :: "ThresholdConfig \<Rightarrow> ParticipantId \<Rightarrow> u16 set \<Rightarrow> u16 set result" where
  "check_signer threshold signer seen =
     (if pid_val signer > tc_participants threshold
      then Inl (ParticipantOutOfRange (pid_val signer) (tc_participants threshold))
      else if pid_val signer \<in> seen then Inl (DuplicateParticipantId (pid_val signer))
      else Inr (insert (pid_val signer) seen))"

definition validate_signer_set :: "ParticipantId list \<Rightarrow> ThresholdConfig \<Rightarrow> unit result" where
  "validate_signer_set signers threshold =
     rbind (ensure (\<not> length signers < unat (tc_threshold threshold))
              (Protocol (fmt [''not enough signers: have '', show_nat (length signers),
                 '', need '', show_u16 (tc_threshold threshold)]))) (\<lambda>_.
     rbind (try_for (check_signer threshold) signers {}) (\<lambda>_. Inr ()))"

definition hc_rank_of_signer :: "HierarchicalThresholdConfig \<Rightarrow> ParticipantId \<Rightarrow> Rank result" where
  "hc_rank_of_signer config signer =
     ok_or (hc_rank_of config signer) (MissingRankedParticipant (pid_val signer))"

definition check_rank_position :: "nat \<times> u16 \<Rightarrow> unit result" where
  "check_rank_position ir =
     (case ir of (index, rank) \<Rightarrow>
       ensure (\<not> unat rank > index)
         (Protocol (fmt [''hierarchical signer set violates Birkhoff rank rule at position '',
            show_nat index, '': rank '', show_u16 rank, '' > '', show_nat index])))"

definition validate_hierarchical_signer_set ::
    "ParticipantId list \<Rightarrow> HierarchicalThresholdConfig \<Rightarrow> unit result" where
  "validate_hierarchical_signer_set signers config =
     rbind (hc_threshold_config config) (\<lambda>threshold.
     rbind (validate_signer_set signers threshold) (\<lambda>_.
     rbind (collect (\<lambda>signer. rbind (hc_rank_of_signer config signer) (\<lambda>rank. Inr (rank_val rank))) signers)
       (\<lambda>ranks.
        try_for (\<lambda>ir _. check_rank_position ir)
          (enumerate 0 (take (unat (hc_threshold config)) (sort ranks))) ())))"

text \<open>\<open>*selected_by_rank.entry(rank).or_default() += 1\<close> on a \<open>BTreeMap<u16, u16>\<close>.\<close>

definition bump_rank :: "u16 \<Rightarrow> (u16 \<rightharpoonup> u16) \<Rightarrow> (u16 \<rightharpoonup> u16)" where
  "bump_rank rank m = m(rank \<mapsto> (case m rank of None \<Rightarrow> 0 | Some c \<Rightarrow> c) + 1)"

definition count_signer ::
    "GroupedThresholdConfig \<Rightarrow> ParticipantId \<Rightarrow> (u16 \<rightharpoonup> u16) \<Rightarrow> (u16 \<rightharpoonup> u16) result" where
  "count_signer config signer selected_by_rank =
     rbind (ok_or (gc_rank_of config signer) (MissingRankedParticipant (pid_val signer)))
       (\<lambda>rank. Inr (bump_rank (rank_val rank) selected_by_rank))"

definition check_group_quorum :: "(u16 \<rightharpoonup> u16) \<Rightarrow> GroupThresholdRequirement \<Rightarrow> unit result" where
  "check_group_quorum selected_by_rank requirement =
     (let selected = (case selected_by_rank (rank_val (gr_rank requirement)) of None \<Rightarrow> 0 | Some c \<Rightarrow> c) in
      ensure (\<not> selected < gr_required requirement)
        (Protocol (fmt [''grouped threshold rank '', show_u16 (rank_val (gr_rank requirement)),
           '' needs '', show_u16 (gr_required requirement), '' signer(s), got '', show_u16 selected])))"

definition validate_grouped_threshold_signer_set ::
    "ParticipantId list \<Rightarrow> GroupedThresholdConfig \<Rightarrow> unit result" where
  "validate_grouped_threshold_signer_set signers config =
     rbind (gc_threshold_config config) (\<lambda>threshold.
     rbind (validate_signer_set signers threshold) (\<lambda>_.
     rbind (try_for (count_signer config) signers Map.empty) (\<lambda>selected_by_rank.
     try_for (\<lambda>requirement _. check_group_quorum selected_by_rank requirement) (gc_requirements config) ())))"

definition validate_signer_set_with_policy :: "ParticipantId list \<Rightarrow> SigningPolicy \<Rightarrow> unit result" where
  "validate_signer_set_with_policy signers policy =
     (case policy of
        Threshold threshold \<Rightarrow> validate_signer_set signers threshold
      | Hierarchical config \<Rightarrow> validate_hierarchical_signer_set signers config
      | Grouped config \<Rightarrow> validate_grouped_threshold_signer_set signers config)"

section \<open>Plain thresholds\<close>

lemma check_signer_loop [result_simps]:
  "try_for (check_signer tc) signers {} = Inr s \<longleftrightarrow>
     (\<forall>x\<in>set signers. pid_val x \<le> tc_participants tc) \<and> distinct signers \<and> s = pid_val ` set signers"
proof -
  have "try_for (check_signer tc) signers {} = Inr s \<longleftrightarrow>
      (\<forall>x\<in>set signers. pid_val x \<le> tc_participants tc) \<and> distinct (map pid_val signers)
      \<and> pid_val ` set signers \<inter> {} = {} \<and> s = pid_val ` set signers \<union> {}"
    by (rule try_for_distinct_iff) (auto simp: check_signer_def)
  moreover have "distinct (map pid_val signers) \<longleftrightarrow> distinct signers"
    using distinct_pid_vals [of "\<lambda>x. x" signers] by simp
  ultimately show ?thesis by simp
qed

lemma validate_signer_set_iff [result_simps]:
  "validate_signer_set signers tc = Inr u \<longleftrightarrow>
     unat (tc_threshold tc) \<le> length signers \<and> distinct signers
     \<and> (\<forall>x\<in>set signers. pid_val x \<le> tc_participants tc)"
  by (auto simp: validate_signer_set_def result_simps)

section \<open>Hierarchical thresholds\<close>

text \<open>The rank of a signer, as a number.\<close>

definition hc_rank :: "HierarchicalThresholdConfig \<Rightarrow> ParticipantId \<Rightarrow> nat" where
  "hc_rank config i = (case hc_rank_of config i of None \<Rightarrow> 0 | Some r \<Rightarrow> unat (rank_val r))"

text \<open>
  The policy: enough distinct signers, all of them participants with an identifier not
  above the participant count, and for every \<open>i\<close> below the threshold more than \<open>i\<close> of
  them have rank at most \<open>i\<close>.
\<close>

definition hierarchical_quorum :: "HierarchicalThresholdConfig \<Rightarrow> ParticipantId list \<Rightarrow> bool" where
  "hierarchical_quorum config signers \<longleftrightarrow>
     unat (hc_threshold config) \<le> length signers \<and> distinct signers
     \<and> (\<forall>x\<in>set signers. unat (pid_val x) \<le> length (hc_participants config))
     \<and> set signers \<subseteq> rp_id ` set (hc_participants config)
     \<and> (\<forall>i < unat (hc_threshold config). i < length (filter (\<lambda>x. hc_rank config x \<le> i) signers))"

lemma sorted_nth_le_iff_filter:
  fixes xs :: "'a::linorder list"
  assumes "sorted xs" "i < length xs"
  shows "xs ! i \<le> k \<longleftrightarrow> i < length (filter (\<lambda>x. x \<le> k) xs)"
  using assms
proof (induction xs arbitrary: i)
  case (Cons x xs)
  show ?case
  proof (cases i)
    case 0
    have "filter (\<lambda>y. y \<le> k) xs = []" if "\<not> x \<le> k"
      using that Cons.prems by (auto simp: filter_empty_conv)
    with 0 show ?thesis by auto
  next
    case (Suc j)
    show ?thesis
    proof (cases "x \<le> k")
      case True
      with Cons Suc show ?thesis by auto
    next
      case False
      then have "filter (\<lambda>y. y \<le> k) xs = []" using Cons.prems by (auto simp: filter_empty_conv)
      moreover have "x \<le> xs ! j" using Cons.prems Suc by auto
      then have "\<not> xs ! j \<le> k" using False order_trans by blast
      ultimately show ?thesis using False Suc by simp
    qed
  qed
qed simp

lemma length_filter_sort_map:
  "length (filter P (sort (map f xs))) = length (filter (\<lambda>x. P (f x)) xs)"
proof -
  have "length (filter P (sort (map f xs))) = size (mset (filter P (sort (map f xs))))"
    by (rule size_mset [symmetric])
  also have "\<dots> = size (filter_mset P (mset (map f xs)))" by simp
  also have "\<dots> = length (filter P (map f xs))" by (simp only: mset_filter [symmetric] size_mset)
  finally show ?thesis by (simp add: filter_map o_def)
qed

lemma rank_positions_iff:
  assumes "t \<le> length xs" "t \<le> 65535"
  shows "(\<forall>ir\<in>set (enumerate 0 (take t (sort (map (f :: 'a \<Rightarrow> u16) xs)))). check_rank_position ir = Inr ()) \<longleftrightarrow>
    (\<forall>i<t. i < length (filter (\<lambda>x. unat (f x) \<le> i) xs))"
proof -
  let ?s = "sort (map f xs)"
  have "(\<forall>ir\<in>set (enumerate 0 (take t ?s)). check_rank_position ir = Inr ()) \<longleftrightarrow>
      (\<forall>i<t. unat (?s ! i) \<le> i)"
    using assms by (simp add: ball_enumerate check_rank_position_def ensure_Inr_iff not_less)
  also have "\<dots> \<longleftrightarrow> (\<forall>i<t. i < length (filter (\<lambda>x. unat (f x) \<le> i) xs))"
  proof (intro all_cong1 imp_cong refl)
    fix i assume i: "i < t"
    then have u: "unat (as_u16 i) = i" using assms by (simp add: as_u16_id)
    have "unat (?s ! i) \<le> i \<longleftrightarrow> ?s ! i \<le> as_u16 i" using u by (simp add: word_le_nat_alt)
    also have "\<dots> \<longleftrightarrow> i < length (filter (\<lambda>w. w \<le> as_u16 i) ?s)"
      using i assms by (intro sorted_nth_le_iff_filter) auto
    also have "\<dots> \<longleftrightarrow> i < length (filter (\<lambda>x. unat (f x) \<le> i) xs)"
      using u by (simp add: length_filter_sort_map word_le_nat_alt)
    finally show "unat (?s ! i) \<le> i \<longleftrightarrow> i < length (filter (\<lambda>x. unat (f x) \<le> i) xs)" .
  qed
  finally show ?thesis .
qed

lemma collect_ranks_iff:
  "collect (\<lambda>x. rbind (hc_rank_of_signer c x) (\<lambda>r. Inr (rank_val r))) xs = Inr ranks \<longleftrightarrow>
     set xs \<subseteq> rp_id ` set (hc_participants c)
     \<and> ranks = map (\<lambda>x. rank_val (the (hc_rank_of c x))) xs"
proof (induction xs arbitrary: ranks)
  case (Cons x xs)
  show ?case
  proof (cases "hc_rank_of c x")
    case None
    then show ?thesis using hcr.rank_of_None_iff [of c x] by (simp add: hc_rank_of_signer_def)
  next
    case (Some r)
    then have "x \<in> rp_id ` set (hc_participants c)" using hcr.rank_of_None_iff [of c x] by simp
    with Some Cons.IH show ?thesis by (auto simp: hc_rank_of_signer_def rbind_Inr_iff)
  qed
qed auto

lemma hc_threshold_config_wf:
  assumes "hc_wf c"
  shows "hc_threshold_config c =
    Inr \<lparr>tc_threshold = hc_threshold c, tc_participants = as_u16 (length (hc_participants c))\<rparr>"
  using assms by (simp add: hc_threshold_config_def hc_participant_count_def ThresholdConfig_new_Inr_iff
      hc_wf_def as_u16_id)

lemma hc_rank_member: "x \<in> rp_id ` set (hc_participants c) \<Longrightarrow> hc_rank c x = unat (rank_val (the (hc_rank_of c x)))"
  using hcr.rank_of_None_iff [of c x] by (auto simp: hc_rank_def split: option.splits)

lemma validate_hierarchical_signer_set_iff [result_simps]:
  assumes wf: "hc_wf c"
  shows "validate_hierarchical_signer_set signers c = Inr u \<longleftrightarrow> hierarchical_quorum c signers"
proof -
  let ?f = "\<lambda>x. rank_val (the (hc_rank_of c x))"
  have t: "unat (hc_threshold c) \<le> 65535" by (rule unat_u16_le)
  have len: "length (hc_participants c) \<le> 65535" using wf by (simp add: hc_wf_def)
  have "validate_hierarchical_signer_set signers c = Inr u \<longleftrightarrow>
      unat (hc_threshold c) \<le> length signers \<and> distinct signers
      \<and> (\<forall>x\<in>set signers. pid_val x \<le> as_u16 (length (hc_participants c)))
      \<and> set signers \<subseteq> rp_id ` set (hc_participants c)
      \<and> (\<forall>ir\<in>set (enumerate 0 (take (unat (hc_threshold c)) (sort (map ?f signers)))).
            check_rank_position ir = Inr ())"
    by (simp add: validate_hierarchical_signer_set_def hc_threshold_config_wf [OF wf] rbind_Inr_iff
        validate_signer_set_iff collect_ranks_iff try_for_check_iff)
  also have "\<dots> \<longleftrightarrow> hierarchical_quorum c signers"
  proof -
    have "filter (\<lambda>x. unat (?f x) \<le> i) signers = filter (\<lambda>x. hc_rank c x \<le> i) signers"
      if "set signers \<subseteq> rp_id ` set (hc_participants c)" for i
      using that by (intro filter_cong) (auto simp: hc_rank_member)
    then show ?thesis
      using rank_positions_iff [of "unat (hc_threshold c)" signers ?f] t len
      unfolding hierarchical_quorum_def by (auto simp: word_le_nat_alt as_u16_id)
  qed
  finally show ?thesis .
qed

section \<open>Grouped thresholds\<close>

text \<open>
  The policy: the sum of the group quorums is met by distinct signers, all of them
  participants in range, and every group contributes at least its quorum.
\<close>

definition grouped_quorum :: "GroupedThresholdConfig \<Rightarrow> ParticipantId list \<Rightarrow> bool" where
  "grouped_quorum config signers \<longleftrightarrow>
     (\<Sum>r\<leftarrow>gc_requirements config. unat (gr_required r)) \<le> length signers \<and> distinct signers
     \<and> (\<forall>x\<in>set signers. unat (pid_val x) \<le> length (gc_participants config))
     \<and> set signers \<subseteq> rp_id ` set (gc_participants config)
     \<and> (\<forall>r\<in>set (gc_requirements config).
          unat (gr_required r) \<le> length (filter (\<lambda>x. gc_rank_of config x = Some (gr_rank r)) signers))"

lemma count_signer_loop:
  "try_for (count_signer c) xs m = Inr m' \<longleftrightarrow>
     set xs \<subseteq> rp_id ` set (gc_participants c)
     \<and> m' = fold bump_rank (map (\<lambda>x. rank_val (the (gc_rank_of c x))) xs) m"
proof (induction xs arbitrary: m)
  case (Cons x xs)
  show ?case
  proof (cases "gc_rank_of c x")
    case None
    then show ?thesis using gcr.rank_of_None_iff [of c x] by (simp add: count_signer_def)
  next
    case (Some r)
    then have "x \<in> rp_id ` set (gc_participants c)" using gcr.rank_of_None_iff [of c x] by simp
    with Some Cons.IH show ?thesis by (simp add: count_signer_def)
  qed
qed auto

lemma bump_rank_count:
  "(case fold bump_rank rs m r of None \<Rightarrow> 0 | Some c \<Rightarrow> c)
     = (case m r of None \<Rightarrow> 0 | Some c \<Rightarrow> c) + of_nat (length (filter (\<lambda>k. k = r) rs))"
proof (induction rs arbitrary: m)
  case (Cons k rs)
  show ?case
    unfolding fold_simps o_apply Cons.IH
    by (auto simp: bump_rank_def split: option.splits)
qed simp

lemma selected_count:
  assumes "set xs \<subseteq> rp_id ` set (gc_participants c)"
  shows "filter (\<lambda>x. rank_val (the (gc_rank_of c x)) = rank_val r) xs = filter (\<lambda>x. gc_rank_of c x = Some r) xs"
proof (rule filter_cong [OF refl])
  fix x assume "x \<in> set xs"
  with assms have "gc_rank_of c x \<noteq> None" by (auto simp: gcr.rank_of_None_iff)
  then show "rank_val (the (gc_rank_of c x)) = rank_val r \<longleftrightarrow> gc_rank_of c x = Some r"
    by (auto simp: rank_val_eq_iff)
qed

lemma check_group_quorum_iff:
  assumes sub: "set xs \<subseteq> rp_id ` set (gc_participants c)" and len: "length xs \<le> 65535"
  shows "check_group_quorum (fold bump_rank (map (\<lambda>x. rank_val (the (gc_rank_of c x))) xs) Map.empty) r = Inr () \<longleftrightarrow>
    unat (gr_required r) \<le> length (filter (\<lambda>x. gc_rank_of c x = Some (gr_rank r)) xs)"
proof -
  let ?n = "length (filter (\<lambda>x. gc_rank_of c x = Some (gr_rank r)) xs)"
  have "?n \<le> 65535" using len length_filter_le [of _ xs] le_trans by blast
  then have n: "unat (word_of_nat ?n :: u16) = ?n" using as_u16_id [of ?n] by (simp add: as_u16_def)
  have "length (filter (\<lambda>k. k = rank_val (gr_rank r)) (map (\<lambda>x. rank_val (the (gc_rank_of c x))) xs)) = ?n"
    using selected_count [OF sub] by (simp add: filter_map o_def)
  then show ?thesis
    by (simp add: check_group_quorum_def Let_def bump_rank_count ensure_Inr_iff not_less word_le_nat_alt n)
qed

lemma distinct_subset_ids_length:
  "distinct xs \<Longrightarrow> set xs \<subseteq> rp_id ` set ps \<Longrightarrow> length xs \<le> length ps"
  by (metis List.finite_set card_image_le card_length card_mono distinct_card finite_imageI le_trans)

lemma validate_grouped_threshold_signer_set_iff [result_simps]:
  assumes v: "gc_validated c"
  shows "validate_grouped_threshold_signer_set signers c = Inr u \<longleftrightarrow> grouped_quorum c signers"
proof -
  note counts = gc_validated_counts [OF v]
  have quorums: "(\<forall>r\<in>set (gc_requirements c). check_group_quorum
      (fold bump_rank (map (\<lambda>x. rank_val (the (gc_rank_of c x))) signers) Map.empty) r = Inr ()) \<longleftrightarrow>
      (\<forall>r\<in>set (gc_requirements c).
        unat (gr_required r) \<le> length (filter (\<lambda>x. gc_rank_of c x = Some (gr_rank r)) signers))"
    if "distinct signers" "set signers \<subseteq> rp_id ` set (gc_participants c)"
    using check_group_quorum_iff [OF that(2)] distinct_subset_ids_length [OF that] counts(1) by auto
  have "validate_grouped_threshold_signer_set signers c = Inr u \<longleftrightarrow>
      unat (gc_required_signer_count c) \<le> length signers \<and> distinct signers
      \<and> (\<forall>x\<in>set signers. pid_val x \<le> gc_participant_count c)
      \<and> set signers \<subseteq> rp_id ` set (gc_participants c)
      \<and> (\<forall>r\<in>set (gc_requirements c). check_group_quorum
            (fold bump_rank (map (\<lambda>x. rank_val (the (gc_rank_of c x))) signers) Map.empty) r = Inr ())"
    by (simp add: validate_grouped_threshold_signer_set_def gc_threshold_config_validated [OF v]
        rbind_Inr_iff validate_signer_set_iff count_signer_loop try_for_check_iff)
  with quorums show ?thesis
    by (auto simp: grouped_quorum_def word_le_nat_alt counts)
qed

end
