(* ===== verification/Birkhoff.thy ===== *)
theory Birkhoff
  imports Linear_Solver Scalar_Poly Signer_Sets
begin

text \<open>
  Birkhoff interpolation in \<open>dkgkit-frost/src/lib.rs\<close>: the interpolation points of a
  signer set, the matrix of derivative conditions and the weights that reconstruct
  \<open>f(0)\<close>. The solver enters through the facts of its locale.
\<close>

section \<open>The code\<close>

record BirkhoffPoint =
  bp_participant_id :: ParticipantId
  bp_x :: u16
  bp_derivative_order :: u16

definition BirkhoffPoint_new :: "ParticipantId \<Rightarrow> u16 \<Rightarrow> u16 \<Rightarrow> BirkhoffPoint result" where
  "BirkhoffPoint_new participant_id x derivative_order =
     (if x = 0 then Inl (Protocol ''Birkhoff x-coordinate cannot be zero'')
      else Inr \<lparr>bp_participant_id = participant_id, bp_x = x, bp_derivative_order = derivative_order\<rparr>)"

record BirkhoffCoefficient =
  bc_participant_id :: ParticipantId
  bc_derivative_order :: u16
  bc_coefficient_bytes :: bytes

definition birkhoff_points_from_hierarchical_signer_set ::
    "ParticipantId list \<Rightarrow> HierarchicalThresholdConfig \<Rightarrow> BirkhoffPoint list result" where
  "birkhoff_points_from_hierarchical_signer_set signers config =
     rbind (validate_hierarchical_signer_set signers config) (\<lambda>_.
     collect (\<lambda>signer. rbind (hc_rank_of_signer config signer) (\<lambda>rank.
        BirkhoffPoint_new signer (pid_val signer) (rank_val rank))) signers)"

definition birkhoff_matrix :: "BirkhoffPoint list \<Rightarrow> 'f::field list list result" where
  "birkhoff_matrix points =
     collect (\<lambda>point. collect (\<lambda>degree.
        derivative_basis_scalar (as_u16 degree) (bp_derivative_order point) (bp_x point)) [0..<length points])
       points"

text \<open>The two nested loops \<open>transpose[col][row] = matrix[row][col]\<close>.\<close>

definition transpose_matrix :: "nat \<Rightarrow> 'f::field list list \<Rightarrow> 'f list list" where
  "transpose_matrix n matrix =
     fold (\<lambda>row tr. fold (\<lambda>col tr. tr[col := (tr ! col)[row := matrix ! row ! col]]) [0..<n] tr) [0..<n]
       (replicate n (replicate n scalar_zero))"

text \<open>The closure that turns a point and its weight into a \<open>BirkhoffCoefficient\<close>.\<close>

definition coefficient_of :: "('f::field, 'p) secp \<Rightarrow> BirkhoffPoint \<times> 'f \<Rightarrow> BirkhoffCoefficient" where
  "coefficient_of C pc =
     (case pc of (point, coefficient) \<Rightarrow>
       \<lparr>bc_participant_id = bp_participant_id point,
        bc_derivative_order = bp_derivative_order point,
        bc_coefficient_bytes = scalar_to_bytes C coefficient\<rparr>)"

definition birkhoff_interpolation_coefficients ::
    "('f::field, 'p) secp \<Rightarrow> BirkhoffPoint list \<Rightarrow> BirkhoffCoefficient list result" where
  "birkhoff_interpolation_coefficients C points =
     (if points = [] then Inl (Protocol ''Birkhoff point set cannot be empty'')
      else let n = length points in
        rbind (birkhoff_matrix points) (\<lambda>matrix.
        rbind (solve_scalar_system (transpose_matrix n matrix) ((replicate n scalar_zero)[0 := scalar_one]))
          (\<lambda>coefficients.
        Inr (map (coefficient_of C) (zip points coefficients)))))"

section \<open>The matrix\<close>

text \<open>Row \<open>i\<close>, column \<open>j\<close> of the Birkhoff matrix: the condition of point \<open>i\<close> on \<open>X ^ j\<close>.\<close>

definition point_basis :: "BirkhoffPoint \<Rightarrow> nat \<Rightarrow> 'f::field" where
  "point_basis p j = dbasis j (unat (bp_derivative_order p)) (of_nat (unat (bp_x p)))"

lemma birkhoff_matrix_eq:
  assumes "length points \<le> 65535"
  shows "birkhoff_matrix points = Inr (map (\<lambda>p. map (point_basis p) [0..<length points]) points)"
  unfolding birkhoff_matrix_def
proof (rule collect_map_Inr)
  fix p assume "p \<in> set points"
  show "collect (\<lambda>degree. derivative_basis_scalar (as_u16 degree) (bp_derivative_order p) (bp_x p))
      [0..<length points] = Inr (map (point_basis p) [0..<length points])"
    using assms by (intro collect_map_Inr) (simp add: derivative_basis_scalar_eq point_basis_def)
qed

lemma transpose_inner:
  assumes "length tr = n" "\<And>c. c < n \<Longrightarrow> length (tr ! c) = n" "r < n" "k \<le> n"
  shows "length (fold (\<lambda>col tr. tr[col := (tr ! col)[r := v col]]) [0..<k] tr) = n
    \<and> (\<forall>c<n. fold (\<lambda>col tr. tr[col := (tr ! col)[r := v col]]) [0..<k] tr ! c
              = (if c < k then (tr ! c)[r := v c] else tr ! c))"
  using assms by (induction k) (auto simp: nth_list_update less_Suc_eq)

lemma transpose_matrix_nth:
  "length (transpose_matrix n m) = n \<and> (\<forall>c<n. length (transpose_matrix n m ! c) = n
     \<and> (\<forall>r<n. transpose_matrix n m ! c ! r = m ! r ! c))"
proof -
  let ?P = "\<lambda>k tr. length tr = n \<and> (\<forall>c<n. length (tr ! c) = n \<and> (\<forall>r<k. tr ! c ! r = m ! r ! c))"
  have "?P n (transpose_matrix n m)"
    unfolding transpose_matrix_def
  proof (rule fold_upt_invariant [where P = ?P])
    show "?P 0 (replicate n (replicate n scalar_zero))" by simp
  next
    fix k and tr :: "'a list list" assume k: "k < n" and P: "?P k tr"
    let ?tr' = "fold (\<lambda>col tr. tr[col := (tr ! col)[k := m ! k ! col]]) [0..<n] tr"
    have "length ?tr' = n \<and> (\<forall>c<n. ?tr' ! c = (tr ! c)[k := m ! k ! c])"
      using transpose_inner [of tr n k n "\<lambda>c. m ! k ! c"] P k by simp
    with P k show "?P (Suc k) ?tr'" by (auto simp: nth_list_update less_Suc_eq)
  qed
  then show ?thesis .
qed

lemma birkhoff_target: "0 < n \<Longrightarrow> (replicate n scalar_zero)[0 := 1] = 1 # replicate (n - 1) (0 :: 'f::field)"
  by (cases n) (simp_all add: scalar_zero_def)

lemma birkhoff_system:
  fixes m :: "'f::field list list"
  assumes "points \<noteq> []" "length points \<le> 65535" "birkhoff_matrix points = Inr m"
  shows "square_system (length points) (transpose_matrix (length points) m) (1 # replicate (length points - 1) 0)"
    and "i < length points \<Longrightarrow> j < length points \<Longrightarrow>
      transpose_matrix (length points) m ! j ! i = point_basis (points ! i) j"
proof -
  have m: "m = map (\<lambda>p. map (point_basis p) [0..<length points]) points"
    using assms(3) birkhoff_matrix_eq [OF assms(2), where 'a = 'f] by simp
  show "square_system (length points) (transpose_matrix (length points) m) (1 # replicate (length points - 1) 0)"
    using transpose_matrix_nth [of "length points" m] assms(1) by (simp add: square_system_def)
  show "transpose_matrix (length points) m ! j ! i = point_basis (points ! i) j"
    if "i < length points" "j < length points"
    using transpose_matrix_nth [of "length points" m] that m by simp
qed

section \<open>The interpolation weights\<close>

text \<open>What a successful call returns: one weight per point, reconstructing the constant coefficient.\<close>

definition interpolates :: "BirkhoffPoint list \<Rightarrow> 'f::field list \<Rightarrow> bool" where
  "interpolates points w \<longleftrightarrow> length w = length points \<and>
     (\<forall>a. length a \<le> length points \<longrightarrow>
        (\<Sum>i<length points. w ! i * polynomial_derivative_value a (bp_x (points ! i)) (bp_derivative_order (points ! i)))
          = (if a = [] then 0 else a ! 0))"

lemma birkhoff_coefficients_Inr:
  assumes ok: "birkhoff_interpolation_coefficients C points = Inr cs" and len: "length points \<le> 65535"
  shows "\<exists>w. interpolates points w \<and> cs = map (coefficient_of C) (zip points w)"
proof -
  let ?n = "length points"
  from ok have ne: "points \<noteq> []" by (auto simp: birkhoff_interpolation_coefficients_def)
  with ok obtain m w where m: "birkhoff_matrix points = Inr m"
    and w: "solve_scalar_system (transpose_matrix ?n m) (1 # replicate (?n - 1) 0) = Inr w"
    and cs: "cs = map (coefficient_of C) (zip points w)"
    by (auto simp: birkhoff_interpolation_coefficients_def Let_def rbind_Inr_iff birkhoff_target)
  note sys = birkhoff_system [OF ne len m]
  have "(\<Sum>i<?n. w ! i * polynomial_derivative_value a (bp_x (points ! i)) (bp_derivative_order (points ! i)))
      = (if a = [] then 0 else a ! 0)" if a: "length a \<le> ?n" for a
  proof -
    have "(\<Sum>i<?n. w ! i * (\<Sum>j<length a. a ! j * point_basis (points ! i) j)) = (if a = [] then 0 else a ! 0)"
      using ne a by (intro gj.transposed_weights [OF sys(1) sys(2) w]) auto
    then show ?thesis using a len by (simp add: polynomial_derivative_value_eq point_basis_def)
  qed
  moreover have "length w = ?n" using gj.sound [OF sys(1) w] by simp
  ultimately show ?thesis using cs by (auto simp: interpolates_def)
qed

text \<open>The call fails only when a nontrivial combination of the conditions vanishes on every power below \<open>n\<close>.\<close>

definition dependent_conditions :: "BirkhoffPoint list \<Rightarrow> (nat \<Rightarrow> 'f::field) \<Rightarrow> bool" where
  "dependent_conditions points x \<longleftrightarrow> (\<exists>i<length points. x i \<noteq> 0)
     \<and> (\<forall>j<length points. (\<Sum>i<length points. x i * point_basis (points ! i) j) = 0)"

lemma kernel_iff:
  assumes "points \<noteq> []" "length points \<le> 65535" "birkhoff_matrix points = Inr m"
  shows "sat (length points) x 0 (transpose_matrix (length points) m) t \<longleftrightarrow>
    (\<forall>j<length points. (\<Sum>i<length points. x i * (point_basis (points ! i) j :: 'f::field)) = 0)"
  using birkhoff_system(2) [OF assms] by (simp add: sat_def mult.commute)

lemma birkhoff_coefficients_Inl_iff:
  fixes C :: "('f::field, 'p) secp"
  assumes ne: "points \<noteq> []" and len: "length points \<le> 65535"
  shows "(\<exists>e. birkhoff_interpolation_coefficients C points = Inl e) \<longleftrightarrow>
    (\<exists>x :: nat \<Rightarrow> 'f. dependent_conditions points x)"
proof -
  let ?n = "length points"
  obtain m :: "'f list list" where m: "birkhoff_matrix points = Inr m" using birkhoff_matrix_eq [OF len] by blast
  note sys = birkhoff_system(1) [OF ne len m] and ker = kernel_iff [OF ne len m]
  have run: "birkhoff_interpolation_coefficients C points =
      rbind (solve_scalar_system (transpose_matrix ?n m) (1 # replicate (?n - 1) 0)) (\<lambda>w.
        Inr (map (coefficient_of C) (zip points w)))"
    using ne m by (simp add: birkhoff_interpolation_coefficients_def Let_def birkhoff_target)
  show ?thesis
  proof
    assume "\<exists>e. birkhoff_interpolation_coefficients C points = Inl e"
    then obtain e where "solve_scalar_system (transpose_matrix ?n m) (1 # replicate (?n - 1) 0) = Inl e"
      unfolding run by (auto simp: rbind_Inl_iff)
    from gj.complete [OF sys this] show "\<exists>x :: nat \<Rightarrow> 'f. dependent_conditions points x"
      unfolding ker dependent_conditions_def by auto
  next
    assume "\<exists>x :: nat \<Rightarrow> 'f. dependent_conditions points x"
    then obtain x :: "nat \<Rightarrow> 'f" where x: "dependent_conditions points x" by blast
    show "\<exists>e. birkhoff_interpolation_coefficients C points = Inl e"
    proof (cases "solve_scalar_system (transpose_matrix ?n m) (1 # replicate (?n - 1) 0)")
      case (Inr w)
      have "\<forall>i<?n. x i = 0"
        using x by (intro gj.returns_nonsingular [OF sys Inr]) (simp add: ker dependent_conditions_def)
      with x show ?thesis by (auto simp: dependent_conditions_def)
    qed (simp add: run)
  qed
qed

section \<open>The points of a signer set\<close>

definition signer_point :: "HierarchicalThresholdConfig \<Rightarrow> ParticipantId \<Rightarrow> BirkhoffPoint" where
  "signer_point c x = \<lparr>bp_participant_id = x, bp_x = pid_val x,
     bp_derivative_order = rank_val (the (hc_rank_of c x))\<rparr>"

lemma signer_point_simps [simp]:
  "bp_participant_id (signer_point c x) = x" "bp_x (signer_point c x) = pid_val x"
  "bp_derivative_order (signer_point c x) = rank_val (the (hc_rank_of c x))"
  by (simp_all add: signer_point_def)

lemma birkhoff_points_iff [result_simps]:
  assumes wf: "hc_wf c"
  shows "birkhoff_points_from_hierarchical_signer_set signers c = Inr points \<longleftrightarrow>
    hierarchical_quorum c signers \<and> (\<forall>x\<in>set signers. pid_val x \<noteq> 0)
    \<and> points = map (signer_point c) signers"
proof -
  have "collect (\<lambda>x. rbind (hc_rank_of_signer c x) (\<lambda>r. BirkhoffPoint_new x (pid_val x) (rank_val r))) xs
      = Inr points \<longleftrightarrow> (\<forall>x\<in>set xs. pid_val x \<noteq> 0) \<and> points = map (signer_point c) xs"
    if "set xs \<subseteq> rp_id ` set (hc_participants c)" for xs points
    using that
  proof (induction xs arbitrary: points)
    case (Cons x xs)
    then obtain r where "hc_rank_of c x = Some r"
      using hcr.rank_of_None_iff [of c x] by (cases "hc_rank_of c x") auto
    with Cons show ?case
      by (auto simp: hc_rank_of_signer_def BirkhoffPoint_new_def signer_point_def rbind_Inr_iff)
  qed auto
  then show ?thesis
    by (auto simp: birkhoff_points_from_hierarchical_signer_set_def rbind_Inr_iff
        validate_hierarchical_signer_set_iff [OF wf] hierarchical_quorum_def)
qed

lemma quorum_length: "hc_wf c \<Longrightarrow> hierarchical_quorum c signers \<Longrightarrow> length signers \<le> 65535"
  using distinct_subset_ids_length [of signers "hc_participants c"]
  by (auto simp: hc_wf_def hierarchical_quorum_def)

lemma quorum_nonempty: "hc_wf c \<Longrightarrow> hierarchical_quorum c signers \<Longrightarrow> signers \<noteq> []"
  by (auto simp: hc_wf_def hierarchical_quorum_def)

section \<open>Ranks that always work: plain evaluations\<close>

lemma vanishing_polynomial:
  fixes f :: "'b \<Rightarrow> 'f::field"
  assumes "finite S"
  shows "\<exists>c. \<forall>x. (\<Sum>j<Suc (card S). c j * x ^ j) = (\<Prod>k\<in>S. x - f k)"
  using assms
proof (induction S rule: finite_induct)
  case empty
  show ?case by (intro exI [of _ "\<lambda>_. 1"]) simp
next
  case (insert a S)
  then obtain c where c: "\<And>x. (\<Sum>j<Suc (card S). c j * x ^ j) = (\<Prod>k\<in>S. x - f k)" by blast
  let ?m = "Suc (card S)"
  define d where "d j = (if j = 0 then 0 else c (j - 1)) - (if j < ?m then f a * c j else 0)" for j
  have "(\<Sum>j<Suc ?m. d j * x ^ j) = (x - f a) * (\<Sum>j<?m. c j * x ^ j)" for x
  proof -
    have "(\<Sum>j<Suc ?m. d j * x ^ j)
        = (\<Sum>j<Suc ?m. (if j = 0 then 0 else c (j - 1)) * x ^ j) - (\<Sum>j<Suc ?m. (if j < ?m then f a * c j else 0) * x ^ j)"
      by (simp only: d_def left_diff_distrib sum_subtractf)
    also have "(\<Sum>j<Suc ?m. (if j = 0 then 0 else c (j - 1)) * x ^ j) = (\<Sum>j<?m. c j * x ^ Suc j)"
      by (subst sum.lessThan_Suc_shift) simp
    also have "(\<Sum>j<Suc ?m. (if j < ?m then f a * c j else 0) * x ^ j) = (\<Sum>j<?m. f a * c j * x ^ j)"
      by simp
    also have "(\<Sum>j<?m. c j * x ^ Suc j) - (\<Sum>j<?m. f a * c j * x ^ j) = (\<Sum>j<?m. (x - f a) * (c j * x ^ j))"
      by (subst sum_subtractf [symmetric]) (simp add: algebra_simps)
    finally show ?thesis by (simp only: sum_distrib_left)
  qed
  with c insert show ?case by (intro exI [of _ d]) simp
qed

lemma evaluations_independent:
  fixes X :: "nat \<Rightarrow> 'f::field"
  assumes inj: "inj_on X {..<n}" and dep: "\<And>j. j < n \<Longrightarrow> (\<Sum>i<n. x i * X i ^ j) = 0" and k: "k < n"
  shows "x k = 0"
proof -
  let ?S = "{..<n} - {k}"
  have card: "Suc (card ?S) = n" using k by simp
  obtain c where c: "\<And>y. (\<Sum>j<Suc (card ?S). c j * y ^ j) = (\<Prod>l\<in>?S. y - X l)"
    using vanishing_polynomial [of ?S X] by blast
  have "(\<Sum>i<n. x i * (\<Prod>l\<in>?S. X i - X l)) = (\<Sum>i<n. \<Sum>j<n. c j * (x i * X i ^ j))"
    unfolding c [symmetric] card by (simp add: sum_distrib_left mult_ac)
  also have "\<dots> = (\<Sum>j<n. c j * (\<Sum>i<n. x i * X i ^ j))"
    by (subst sum.swap) (simp add: sum_distrib_left)
  also have "\<dots> = 0" using dep by simp
  also have "(\<Sum>i<n. x i * (\<Prod>l\<in>?S. X i - X l)) = (\<Sum>i\<in>{k}. x i * (\<Prod>l\<in>?S. X i - X l))"
    using k by (intro sum.mono_neutral_right) (auto intro!: prod_zero)
  finally have "x k = 0 \<or> (\<Prod>l\<in>?S. X k - X l) = 0" by simp
  moreover have "(\<Prod>l\<in>?S. X k - X l) \<noteq> 0"
    using inj k by (auto simp: inj_on_def)
  ultimately show ?thesis by blast
qed

lemma distinct_coordinates:
  assumes big: "big_characteristic TYPE('f::field)" and dist: "distinct (map bp_x points)"
  shows "inj_on (\<lambda>i. of_nat (unat (bp_x (points ! i))) :: 'f) {..<length points}"
proof (rule inj_onI)
  fix i j assume ij: "i \<in> {..<length points}" "j \<in> {..<length points}"
    and eq: "(of_nat (unat (bp_x (points ! i))) :: 'f) = of_nat (unat (bp_x (points ! j)))"
  then have "bp_x (points ! i) = bp_x (points ! j)"
    using scalar_of_u16_inj [OF big] by (simp only: scalar_of_u16_eq)
  with ij dist show "i = j" by (auto simp: distinct_conv_nth)
qed

lemma rank_zero_returns:
  fixes C :: "('f::field, 'p) secp"
  assumes big: "big_characteristic TYPE('f)" and len: "length points \<le> 65535" "points \<noteq> []"
    and zero: "\<forall>p\<in>set points. bp_derivative_order p = 0" and dist: "distinct (map bp_x points)"
  shows "\<exists>cs. birkhoff_interpolation_coefficients C points = Inr cs"
proof (cases "birkhoff_interpolation_coefficients C points")
  case (Inl e)
  then obtain x :: "nat \<Rightarrow> 'f" where x: "dependent_conditions points x"
    using birkhoff_coefficients_Inl_iff [OF len(2,1), of C] by blast
  let ?X = "\<lambda>i. (of_nat (unat (bp_x (points ! i))) :: 'f)"
  have "inj_on ?X {..<length points}" by (rule distinct_coordinates [OF big dist])
  moreover have "(\<Sum>i<length points. x i * ?X i ^ j) = 0" if "j < length points" for j
    using x that zero by (simp add: dependent_conditions_def point_basis_def dbasis_0)
  ultimately have "\<forall>k<length points. x k = 0" using evaluations_independent by blast
  with x show ?thesis by (auto simp: dependent_conditions_def)
qed simp

section \<open>Lagrange weights\<close>

text \<open>
  For plain evaluations the weights have the closed form of Lagrange interpolation at 0. The
  weighted sums \<open>L S f\<close> satisfy \<open>L S ((x - a) h) = - a L (S - {a}) h\<close>; everything follows from that.
\<close>

definition lagrange_weight :: "'f::field set \<Rightarrow> 'f \<Rightarrow> 'f" where
  "lagrange_weight S x = (\<Prod>k\<in>S - {x}. k / (k - x))"

definition lagrange_sum :: "'f::field set \<Rightarrow> ('f \<Rightarrow> 'f) \<Rightarrow> 'f" where
  "lagrange_sum S f = (\<Sum>x\<in>S. f x * lagrange_weight S x)"

lemma lagrange_sum_linear:
  "lagrange_sum S (\<lambda>x. f x + g x) = lagrange_sum S f + lagrange_sum S g"
  "lagrange_sum S (\<lambda>x. c * f x) = c * lagrange_sum S f"
  "lagrange_sum S (\<lambda>x. \<Sum>i<n. h i x) = (\<Sum>i<n. lagrange_sum S (h i))"
proof -
  show "lagrange_sum S (\<lambda>x. f x + g x) = lagrange_sum S f + lagrange_sum S g"
    by (simp add: lagrange_sum_def distrib_right sum.distrib)
  show "lagrange_sum S (\<lambda>x. c * f x) = c * lagrange_sum S f" by (simp add: lagrange_sum_def sum_distrib_left mult.assoc)
  show "lagrange_sum S (\<lambda>x. \<Sum>i<n. h i x) = (\<Sum>i<n. lagrange_sum S (h i))"
    unfolding lagrange_sum_def by (subst sum.swap) (simp add: sum_distrib_right)
qed

lemma lagrange_sum_root:
  assumes "finite S" "a \<in> S"
  shows "lagrange_sum S (\<lambda>x. (x - a) * h x) = - a * lagrange_sum (S - {a}) h"
proof -
  have w: "(x - a) * lagrange_weight S x = - a * lagrange_weight (S - {a}) x" if "x \<in> S - {a}" for x
  proof -
    have "S - {x} = insert a (S - {a} - {x})" using assms(2) that by auto
    then have "lagrange_weight S x = a / (a - x) * lagrange_weight (S - {a}) x"
      using assms(1) by (simp add: lagrange_weight_def)
    moreover have "(x - a) * (a / (a - x)) = - a" using that by (simp add: divide_eq_eq) (auto simp: algebra_simps)
    ultimately show ?thesis by (metis mult.assoc)
  qed
  have "lagrange_sum S (\<lambda>x. (x - a) * h x) = (\<Sum>x\<in>S - {a}. h x * ((x - a) * lagrange_weight S x))"
    using assms by (simp add: lagrange_sum_def sum.remove [of S a] mult_ac)
  also have "\<dots> = (\<Sum>x\<in>S - {a}. - a * (h x * lagrange_weight (S - {a}) x))"
    by (rule sum.cong) (simp_all only: w refl mult.left_commute)
  also have "\<dots> = - a * lagrange_sum (S - {a}) h" unfolding lagrange_sum_def by (rule sum_distrib_left [symmetric])
  finally show ?thesis .
qed

lemma lagrange_sum_one: "finite S \<Longrightarrow> S \<noteq> {} \<Longrightarrow> lagrange_sum S (\<lambda>_. 1) = (1 :: 'f::field)"
proof (induction S rule: measure_induct_rule [of card])
  case (less S)
  then obtain a where a: "a \<in> S" by auto
  show ?case
  proof (cases "S = {a}")
    case True
    then show ?thesis by (simp add: lagrange_sum_def lagrange_weight_def)
  next
    case False
    then obtain b where b: "b \<in> S" "b \<noteq> a" using a by auto
    have ih: "lagrange_sum (S - {x}) (\<lambda>_. 1) = (1 :: 'f)" if "x \<in> S" for x
      using less.prems that a b card_Diff1_less [of S x] by (intro less.IH) auto
    have "(b - a) * lagrange_sum S (\<lambda>_. 1) = lagrange_sum S (\<lambda>x. (x - a) * 1 + (- 1) * ((x - b) * 1))"
      by (simp add: lagrange_sum_linear(2) [symmetric])
    also have "\<dots> = b - a" unfolding lagrange_sum_linear using less.prems(1) a b(1) ih by (simp only: lagrange_sum_root) simp
    finally show ?thesis using b(2) by simp
  qed
qed

lemma lagrange_sum_power:
  "finite S \<Longrightarrow> d < card S \<Longrightarrow> lagrange_sum S (\<lambda>x. x ^ d) = (if d = 0 then 1 else 0 :: 'f::field)"
proof (induction d arbitrary: S)
  case 0
  then have "lagrange_sum S (\<lambda>_. 1) = (1 :: 'f)" by (intro lagrange_sum_one) auto
  then show ?case by simp
next
  case (Suc d)
  then obtain a where a: "a \<in> S" by (metis card.empty equals0I not_less_zero)
  have "lagrange_sum S (\<lambda>x. x ^ Suc d) = lagrange_sum S (\<lambda>x. (x - a) * x ^ d + a * x ^ d)" by (simp add: algebra_simps)
  also have "\<dots> = - a * lagrange_sum (S - {a}) (\<lambda>x. x ^ d) + a * lagrange_sum S (\<lambda>x. x ^ d)"
    unfolding lagrange_sum_linear lagrange_sum_root [OF Suc.prems(1) a] ..
  also have "\<dots> = 0" using Suc.prems a by (simp add: Suc.IH)
  finally show ?case by simp
qed

text \<open>Interpolation weights for plain evaluations sum the powers below \<open>n\<close> to 0, the constant to 1.\<close>

lemma interpolates_powers:
  fixes w :: "'f::field list"
  assumes w: "interpolates points w" and len: "length points \<le> 65535"
    and zero: "\<forall>p\<in>set points. bp_derivative_order p = 0" and j: "j < length points"
  shows "(\<Sum>i<length points. w ! i * of_nat (unat (bp_x (points ! i))) ^ j) = (if j = 0 then 1 else 0)"
proof -
  let ?a = "replicate j 0 @ [1 :: 'f]"
  have pdv: "polynomial_derivative_value ?a x 0 = of_nat (unat x) ^ j" for x
    using j len by (simp add: polynomial_derivative_value_eq dbasis_0 nth_append)
  have "(\<Sum>i<length points. w ! i * polynomial_derivative_value ?a (bp_x (points ! i)) (bp_derivative_order (points ! i))) = ?a ! 0"
    using w j by (simp add: interpolates_def)
  then show ?thesis using zero by (simp add: pdv nth_append)
qed

text \<open>The code's weights for plain evaluations are the Lagrange weights: interpolation weights are unique.\<close>

lemma flat_coefficients_lagrange:
  fixes C :: "('f::field, 'p) secp"
  assumes big: "big_characteristic TYPE('f)" and len: "length points \<le> 65535" "points \<noteq> []"
    and zero: "\<forall>p\<in>set points. bp_derivative_order p = 0" and dist: "distinct (map bp_x points)"
  defines "X \<equiv> \<lambda>p. of_nat (unat (bp_x p)) :: 'f"
  shows "birkhoff_interpolation_coefficients C points
    = Inr (map (coefficient_of C) (zip points (map (\<lambda>p. lagrange_weight (X ` set points) (X p)) points)))"
proof -
  let ?n = "length points" and ?S = "X ` set points"
  obtain cs where cs: "birkhoff_interpolation_coefficients C points = Inr cs"
    using rank_zero_returns [OF big len zero dist] by blast
  then obtain w where w: "interpolates points w" "cs = map (coefficient_of C) (zip points w)"
    using birkhoff_coefficients_Inr [OF cs len(1)] by blast
  have inj: "inj_on (\<lambda>i. X (points ! i)) {..<?n}" unfolding X_def by (rule distinct_coordinates [OF big dist])
  have img: "(\<lambda>i. X (points ! i)) ` {..<?n} = ?S" by (auto simp: set_conv_nth)
  have "(\<Sum>i<?n. (w ! i - lagrange_weight ?S (X (points ! i))) * X (points ! i) ^ j) = 0" if j: "j < ?n" for j
  proof -
    have "(\<Sum>i<?n. lagrange_weight ?S (X (points ! i)) * X (points ! i) ^ j) = lagrange_sum ?S (\<lambda>x. x ^ j)"
      unfolding lagrange_sum_def by (subst (3) img [symmetric], subst sum.reindex [OF inj]) (simp add: mult.commute)
    also have "\<dots> = (if j = 0 then 1 else 0)"
      by (rule lagrange_sum_power) (use j inj img card_image [OF inj] in simp_all)
    finally show ?thesis using interpolates_powers [OF w(1) len(1) zero j] by (simp add: X_def left_diff_distrib sum_subtractf)
  qed
  from evaluations_independent [OF inj this] have "w ! k - lagrange_weight ?S (X (points ! k)) = 0" if "k < ?n" for k
    using that by blast
  then have "w = map (\<lambda>p. lagrange_weight ?S (X p)) points"
    using w(1) by (intro nth_equalityI) (simp_all add: interpolates_def)
  with cs w(2) show ?thesis by simp
qed

section \<open>Ranks that never work\<close>

text \<open>A condition on a derivative of order at least \<open>n\<close> says nothing about polynomials below degree \<open>n\<close>.\<close>

lemma rank_too_high_fails:
  fixes C :: "('f::field, 'p) secp"
  assumes len: "length points \<le> 65535" and p: "p \<in> set points" "length points \<le> unat (bp_derivative_order p)"
  shows "\<exists>e. birkhoff_interpolation_coefficients C points = Inl e"
proof -
  obtain i where i: "i < length points" "points ! i = p" using p(1) by (auto simp: in_set_conv_nth)
  let ?x = "\<lambda>k. if k = i then 1 else 0 :: 'f"
  have "dependent_conditions points ?x"
    unfolding dependent_conditions_def
  proof (intro conjI allI impI)
    show "\<exists>k<length points. ?x k \<noteq> 0" using i by (intro exI [of _ i]) simp
    fix j assume j: "j < length points"
    have "(\<Sum>k<length points. ?x k * point_basis (points ! k) j) = (\<Sum>k<length points. if k = i then point_basis p j else 0)"
      using i by (intro sum.cong) auto
    also have "\<dots> = (point_basis p j :: 'f)" using i by simp
    also have "\<dots> = 0" using j p(2) by (simp add: point_basis_def dbasis_def)
    finally show "(\<Sum>k<length points. ?x k * point_basis (points ! k) j) = 0" .
  qed
  moreover have "points \<noteq> []" using i by auto
  ultimately show ?thesis using birkhoff_coefficients_Inl_iff [of points C] len by blast
qed

end
