(* ===== verification/Htss_Keys.thy ===== *)
theory Htss_Keys
  imports Birkhoff
begin

text \<open>
  HTSS key material of \<open>dkgkit-frost/src/lib.rs\<close>: derivative shares from one dealer,
  reconstruction of the secret from a signer set, resharing to a new policy, and signing
  with the reconstructed secret. A call's draws from \<open>thread_rng\<close> are an argument
  \<open>rnd :: nat \<Rightarrow> 'f\<close>: the \<open>i\<close>-th scalar that \<open>Scalar::random\<close> returns in that call.
\<close>

section \<open>Data\<close>

record GroupKey =
  gk_xonly_public_key :: bytes
  gk_verification_key_bytes :: bytes

record HtssLocalKeyShare =
  hs_participant_id :: ParticipantId
  hs_rank :: u16
  hs_share_value_bytes :: bytes

record HtssLocalKeySet =
  ks_group_key :: GroupKey
  ks_shares :: "HtssLocalKeyShare list"

record AggregateSignature =
  as_signature_bytes :: bytes

definition AggregateSignature_new :: "bytes \<Rightarrow> AggregateSignature result" where
  "AggregateSignature_new signature_bytes =
     (if signature_bytes = [] then Inl (Protocol ''aggregate signature cannot be empty'')
      else Inr \<lparr>as_signature_bytes = signature_bytes\<rparr>)"

definition frost_message :: "bytes \<Rightarrow> bytes" where
  "frost_message message_digest = message_digest"

section \<open>Dealing\<close>

text \<open>The closure that makes one participant's share of a polynomial.\<close>

definition deal_share ::
    "('f::field, 'p) secp \<Rightarrow> 'f list \<Rightarrow> RankedParticipant \<Rightarrow> HtssLocalKeyShare" where
  "deal_share C polynomial participant =
     \<lparr>hs_participant_id = rp_id participant, hs_rank = rank_val (rp_rank participant),
      hs_share_value_bytes = scalar_to_bytes C (polynomial_derivative_value polynomial
        (pid_val (rp_id participant)) (rank_val (rp_rank participant)))\<rparr>"

definition run_local_htss_keygen ::
    "('f::field, 'p) secp \<Rightarrow> (nat \<Rightarrow> 'f) \<Rightarrow> HierarchicalThresholdConfig \<Rightarrow> HtssLocalKeySet result" where
  "run_local_htss_keygen C rnd config =
     (let initial_secret = rnd 0;
          keypair = new_keypair C initial_secret;
          secret = fst keypair;
          polynomial = secret # map rnd [1..<unat (hc_threshold config)];
          shares = map (deal_share C polynomial) (hc_participants config)
      in Inr \<lparr>ks_group_key = \<lparr>gk_xonly_public_key = to_xonly_bytes C (snd keypair),
                             gk_verification_key_bytes = []\<rparr>,
              ks_shares = shares\<rparr>)"

section \<open>Reconstruction\<close>

text \<open>The body of the loop over the coefficients, up to the addition: the weighted share of one signer.\<close>

definition weighted_share ::
    "('f::field, 'p) secp \<Rightarrow> (ParticipantId \<rightharpoonup> HtssLocalKeyShare) \<Rightarrow> BirkhoffCoefficient \<Rightarrow> 'f result" where
  "weighted_share C share_map coefficient =
     rbind (ok_or (share_map (bc_participant_id coefficient))
              (MissingRankedParticipant (pid_val (bc_participant_id coefficient)))) (\<lambda>share.
     rbind (ensure (hs_rank share = bc_derivative_order coefficient)
              (Protocol (fmt [''HTSS share rank mismatch for participant '',
                 show_u16 (pid_val (hs_participant_id share)), '': share rank '', show_u16 (hs_rank share),
                 '', coefficient rank '', show_u16 (bc_derivative_order coefficient)]))) (\<lambda>_.
     rbind (ok_or (scalar_from_bytes C (hs_share_value_bytes share))
              (Protocol (fmt [''invalid HTSS share scalar for participant '',
                 show_u16 (pid_val (hs_participant_id share))]))) (\<lambda>share_value.
     rbind (ok_or (scalar_from_bytes C (bc_coefficient_bytes coefficient))
              (Protocol (fmt [''invalid Birkhoff coefficient scalar for participant '',
                 show_u16 (pid_val (bc_participant_id coefficient))]))) (\<lambda>coefficient_value.
     Inr (scalar_mul coefficient_value share_value)))))"

text \<open>\<open>iter().map(|share| (share.participant_id, share)).collect::<BTreeMap<_, _>>()\<close>: the last entry of a key wins.\<close>

definition share_map_of :: "HtssLocalKeyShare list \<Rightarrow> (ParticipantId \<rightharpoonup> HtssLocalKeyShare)" where
  "share_map_of shares = map_of (rev (map (\<lambda>share. (hs_participant_id share, share)) shares))"

definition reconstruct_htss_secret_scalar ::
    "('f::field, 'p) secp \<Rightarrow> HtssLocalKeyShare list \<Rightarrow> ParticipantId list \<Rightarrow> HierarchicalThresholdConfig
      \<Rightarrow> bytes result" where
  "reconstruct_htss_secret_scalar C shares signer_set config =
     rbind (birkhoff_points_from_hierarchical_signer_set signer_set config) (\<lambda>points.
     rbind (birkhoff_interpolation_coefficients C points) (\<lambda>coefficients.
     rbind (try_for (\<lambda>coefficient secret. rbind (weighted_share C (share_map_of shares) coefficient)
                       (\<lambda>term. Inr (scalar_add secret term))) coefficients scalar_zero) (\<lambda>secret.
     Inr (scalar_to_bytes C secret))))"

text \<open>\<open>Scalar::<Secret, Zero>::from_bytes(b).and_then(|scalar| scalar.non_zero())\<close>.\<close>

definition nonzero_scalar_from_bytes :: "('f::field, 'p) secp \<Rightarrow> bytes \<Rightarrow> 'f option" where
  "nonzero_scalar_from_bytes C b =
     (case scalar_from_bytes C b of None \<Rightarrow> None | Some s \<Rightarrow> if s = 0 then None else Some s)"

section \<open>Resharing and signing with the reconstructed secret\<close>

definition reshare_htss ::
    "('f::field, 'p) secp \<Rightarrow> (nat \<Rightarrow> 'f) \<Rightarrow> HtssLocalKeySet \<Rightarrow> HierarchicalThresholdConfig
      \<Rightarrow> ParticipantId list \<Rightarrow> HierarchicalThresholdConfig \<Rightarrow> HtssLocalKeySet result" where
  "reshare_htss C rnd old old_config reconstruct_set new_config =
     rbind (reconstruct_htss_secret_scalar C (ks_shares old) reconstruct_set old_config) (\<lambda>secret_bytes.
     rbind (ok_or (nonzero_scalar_from_bytes C secret_bytes)
              (Protocol ''reconstructed HTSS secret is zero'')) (\<lambda>secret.
     let keypair = new_keypair C secret in
     rbind (ensure (to_xonly_bytes C (snd keypair) = gk_xonly_public_key (ks_group_key old))
              (Protocol ''reshare would change the group key'')) (\<lambda>_.
     let secret_term = fst keypair;
         polynomial = secret_term # map rnd [0..<unat (hc_threshold new_config) - 1];
         shares = map (deal_share C polynomial) (hc_participants new_config)
     in Inr \<lparr>ks_group_key = ks_group_key old, ks_shares = shares\<rparr>)))"

definition sign_digest_with_local_htss_shares ::
    "('f::field, 'p) secp \<Rightarrow> GroupKey \<Rightarrow> bytes \<Rightarrow> HtssLocalKeyShare list \<Rightarrow> ParticipantId list
      \<Rightarrow> HierarchicalThresholdConfig \<Rightarrow> AggregateSignature result" where
  "sign_digest_with_local_htss_shares C group_key digest shares signer_set config =
     rbind (reconstruct_htss_secret_scalar C shares signer_set config) (\<lambda>secret_bytes.
     rbind (ok_or (nonzero_scalar_from_bytes C secret_bytes)
              (Protocol ''reconstructed HTSS secret is zero'')) (\<lambda>secret.
     let keypair = new_keypair C secret in
     rbind (ensure (to_xonly_bytes C (snd keypair) = gk_xonly_public_key group_key)
              (Protocol ''reconstructed HTSS secret does not match group key'')) (\<lambda>_.
     let signature = schnorr_sign C keypair (frost_message digest)
     in AggregateSignature_new (signature_to_bytes C signature))))"

definition hierarchical_config_from_grouped_threshold ::
    "GroupedThresholdConfig \<Rightarrow> HierarchicalThresholdConfig result" where
  "hierarchical_config_from_grouped_threshold config =
     HierarchicalThresholdConfig_new (gc_required_signer_count config) (gc_participants config)"

definition run_local_grouped_htss_keygen ::
    "('f::field, 'p) secp \<Rightarrow> (nat \<Rightarrow> 'f) \<Rightarrow> GroupedThresholdConfig \<Rightarrow> HtssLocalKeySet result" where
  "run_local_grouped_htss_keygen C rnd config =
     rbind (hierarchical_config_from_grouped_threshold config) (run_local_htss_keygen C rnd)"

section \<open>Dealt key sets\<close>

text \<open>
  The invariant of HTSS key material: every participant holds the derivative share of one
  polynomial whose length is the threshold, and the group key is the x-only key of its
  non-zero constant coefficient, normalised to even y-coordinate.
\<close>

definition htss_dealt ::
    "('f::field, 'p::ab_group_add) secp \<Rightarrow> HierarchicalThresholdConfig \<Rightarrow> 'f list \<Rightarrow> HtssLocalKeySet \<Rightarrow> bool" where
  "htss_dealt C c p ks \<longleftrightarrow> length p = unat (hc_threshold c) \<and> p \<noteq> [] \<and> p ! 0 \<noteq> 0
     \<and> \<not> snd (even_y C (g_mul C (p ! 0) (base_point C)))
     \<and> gk_xonly_public_key (ks_group_key ks) = to_xonly_bytes C (g_mul C (p ! 0) (base_point C))
     \<and> ks_shares ks = map (deal_share C p) (hc_participants c)"

lemma keypair_normal:
  assumes L: "secp_laws C" and d: "d \<noteq> 0"
  shows "fst (new_keypair C d) \<noteq> 0"
    and "snd (new_keypair C d) = g_mul C (fst (new_keypair C d)) (base_point C)"
    and "\<not> snd (even_y C (snd (new_keypair C d)))"
    and "\<not> snd (even_y C (g_mul C d (base_point C))) \<Longrightarrow> new_keypair C d = (d, g_mul C d (base_point C))"
proof -
  note laws = secp_lawsD [OF L]
  let ?P = "g_mul C d (base_point C)"
  have P: "?P \<noteq> 0" using d laws(2) by (simp add: g_mul_G_eq_0_iff)
  have kp: "new_keypair C d = (if snd (even_y C ?P) then (- d, - ?P) else (d, ?P))"
    using new_keypairD [OF laws(5) d] .
  show "fst (new_keypair C d) \<noteq> 0" using d by (simp add: kp)
  show "snd (new_keypair C d) = g_mul C (fst (new_keypair C d)) (base_point C)"
    using laws(2) by (simp add: kp g_mul_minus)
  show "\<not> snd (even_y C (snd (new_keypair C d)))"
    using even_y_idem [OF laws(4) P] even_y_fst [OF laws(4) P]
    by (cases "snd (even_y C ?P)") (auto simp: kp)
  show "\<not> snd (even_y C ?P) \<Longrightarrow> new_keypair C d = (d, ?P)" by (simp add: kp)
qed

lemma run_local_htss_keygen_dealt:
  assumes L: "secp_laws C" and wf: "hc_wf c" and rnd: "rnd 0 \<noteq> 0"
  shows "\<exists>ks p. run_local_htss_keygen C rnd c = Inr ks \<and> htss_dealt C c p ks"
proof -
  note kp = keypair_normal [OF L rnd]
  let ?p = "fst (new_keypair C (rnd 0)) # map rnd [1..<unat (hc_threshold c)]"
  have "length ?p = unat (hc_threshold c)" using wf by (simp add: hc_wf_def)
  with kp show ?thesis
    unfolding run_local_htss_keygen_def Let_def
    by (intro exI conjI refl) (auto simp: htss_dealt_def)
qed

section \<open>Reconstruction returns the constant coefficient\<close>

lemma deal_share_simps [simp]:
  "hs_participant_id (deal_share C p q) = rp_id q" "hs_rank (deal_share C p q) = rank_val (rp_rank q)"
  by (simp_all add: deal_share_def)

lemma share_map_of_distinct:
  assumes "distinct (map hs_participant_id shares)" "s \<in> set shares"
  shows "share_map_of shares (hs_participant_id s) = Some s"
proof -
  have "distinct (map fst (map (\<lambda>share. (hs_participant_id share, share)) shares))"
    using assms(1) by (simp add: o_def)
  with assms(2) show ?thesis
    unfolding share_map_of_def by (auto simp: map_of_rev_distinct intro: map_of_is_SomeI)
qed

text \<open>The share that each signer of a quorum contributes, whoever computed it.\<close>

definition holds_shares_of ::
    "('f::field, 'p) secp \<Rightarrow> HierarchicalThresholdConfig \<Rightarrow> 'f list \<Rightarrow> (ParticipantId \<rightharpoonup> HtssLocalKeyShare)
      \<Rightarrow> ParticipantId list \<Rightarrow> bool" where
  "holds_shares_of C c p shares signers \<longleftrightarrow> (\<forall>x\<in>set signers. \<exists>s. shares x = Some s
     \<and> hs_participant_id s = x \<and> hs_rank s = rank_val (the (hc_rank_of c x))
     \<and> scalar_from_bytes C (hs_share_value_bytes s)
         = Some (polynomial_derivative_value p (pid_val x) (rank_val (the (hc_rank_of c x)))))"

lemma dealt_holds_shares:
  assumes codec: "scalar_codec_ok C" and wf: "hc_wf c" and members: "set signers \<subseteq> rp_id ` set (hc_participants c)"
  shows "holds_shares_of C c p (share_map_of (map (deal_share C p) (hc_participants c))) signers"
  unfolding holds_shares_of_def
proof
  fix x assume "x \<in> set signers"
  with members obtain q where q: "q \<in> set (hc_participants c)" "x = rp_id q" by auto
  have dist: "distinct (map rp_id (hc_participants c))" using wf by (simp add: hc_wf_def)
  have "share_map_of (map (deal_share C p) (hc_participants c)) x = Some (deal_share C p q)"
    using share_map_of_distinct [of "map (deal_share C p) (hc_participants c)" "deal_share C p q"] q dist
    by (simp add: o_def)
  moreover have "hc_rank_of c x = Some (rp_rank q)" using hcr.rank_of_member [OF dist q(1)] q(2) by simp
  ultimately show "\<exists>s. share_map_of (map (deal_share C p) (hc_participants c)) x = Some s
     \<and> hs_participant_id s = x \<and> hs_rank s = rank_val (the (hc_rank_of c x))
     \<and> scalar_from_bytes C (hs_share_value_bytes s)
         = Some (polynomial_derivative_value p (pid_val x) (rank_val (the (hc_rank_of c x))))"
    using q codec by (simp add: deal_share_def scalar_codecD)
qed

lemma weighted_share_held:
  assumes codec: "scalar_codec_ok C" and held: "holds_shares_of C c p shares signers" and x: "x \<in> set signers"
  shows "weighted_share C shares (coefficient_of C (signer_point c x, w))
    = Inr (w * polynomial_derivative_value p (pid_val x) (rank_val (the (hc_rank_of c x))))"
proof -
  obtain s where "shares x = Some s" "hs_rank s = rank_val (the (hc_rank_of c x))"
    "scalar_from_bytes C (hs_share_value_bytes s)
       = Some (polynomial_derivative_value p (pid_val x) (rank_val (the (hc_rank_of c x))))"
    using held x unfolding holds_shares_of_def by blast
  with codec show ?thesis
    by (simp add: weighted_share_def coefficient_of_def scalar_codecD scalar_mul_def)
qed

lemma interpolates_signers:
  assumes "interpolates (map (signer_point c) signers) w" "length p \<le> length signers" "p \<noteq> []"
  shows "(\<Sum>(x, v)\<leftarrow>zip signers w.
      v * polynomial_derivative_value p (pid_val x) (rank_val (the (hc_rank_of c x)))) = p ! 0"
proof -
  have len: "length w = length signers" using assms(1) by (simp add: interpolates_def)
  have "(\<Sum>i<length signers. w ! i * polynomial_derivative_value p (pid_val (signers ! i))
      (rank_val (the (hc_rank_of c (signers ! i))))) = p ! 0"
    using assms by (simp add: interpolates_def)
  then show ?thesis using len by (simp add: sum_list_sum_nth atLeast0LessThan)
qed

lemma quorum_weights:
  assumes wf: "hc_wf c" and pts: "birkhoff_points_from_hierarchical_signer_set signers c = Inr points"
    and cs: "birkhoff_interpolation_coefficients C points = Inr cs"
  shows "\<exists>w. interpolates (map (signer_point c) signers) w
    \<and> cs = map (coefficient_of C) (zip (map (signer_point c) signers) w)"
proof -
  from pts wf have q: "hierarchical_quorum c signers" and p: "points = map (signer_point c) signers"
    by (simp_all add: birkhoff_points_iff)
  have "length points \<le> 65535" using quorum_length [OF wf q] by (simp add: p)
  from birkhoff_coefficients_Inr [OF cs this] show ?thesis by (simp add: p)
qed

lemma reconstruct_held:
  assumes codec: "scalar_codec_ok C" and wf: "hc_wf c"
    and pts: "birkhoff_points_from_hierarchical_signer_set signers c = Inr points"
    and cs: "birkhoff_interpolation_coefficients C points = Inr cs"
    and held: "holds_shares_of C c p (share_map_of shares) signers"
    and p: "length p = unat (hc_threshold c)" "p \<noteq> []"
  shows "reconstruct_htss_secret_scalar C shares signers c = Inr (scalar_to_bytes C (p ! 0))"
proof -
  from quorum_weights [OF wf pts cs] obtain w where w: "interpolates (map (signer_point c) signers) w"
    and cs': "cs = map (coefficient_of C) (zip (map (signer_point c) signers) w)" by blast
  let ?val = "\<lambda>x. polynomial_derivative_value p (pid_val x) (rank_val (the (hc_rank_of c x)))"
  have q: "hierarchical_quorum c signers" using pts wf by (simp add: birkhoff_points_iff)
  have zip: "cs = map (\<lambda>(x, v). coefficient_of C (signer_point c x, v)) (zip signers w)"
    unfolding cs' by (simp add: zip_map1 case_prod_unfold)
  have step: "weighted_share C (share_map_of shares) coefficient
      = Inr (projr (weighted_share C (share_map_of shares) coefficient))"
    if "coefficient \<in> set cs" for coefficient
    using that weighted_share_held [OF codec held] unfolding zip by (auto dest: set_zip_leftD)
  have "(\<Sum>coefficient\<leftarrow>cs. projr (weighted_share C (share_map_of shares) coefficient))
      = (\<Sum>(x, v)\<leftarrow>zip signers w. v * ?val x)"
    unfolding zip map_map using weighted_share_held [OF codec held]
    by (intro arg_cong [where f = sum_list] map_cong) (auto dest: set_zip_leftD)
  also have "\<dots> = p ! 0"
    using w p q by (intro interpolates_signers) (auto simp: hierarchical_quorum_def)
  finally have "try_for (\<lambda>coefficient secret. rbind (weighted_share C (share_map_of shares) coefficient)
      (\<lambda>term. Inr (scalar_add secret term))) cs scalar_zero = Inr (p ! 0)"
    using try_for_sum [of cs "weighted_share C (share_map_of shares)", OF step]
    by (simp add: scalar_add_def scalar_zero_def)
  with pts cs show ?thesis by (simp add: reconstruct_htss_secret_scalar_def)
qed

lemma reconstruct_dealt:
  assumes L: "secp_laws C" and wf: "hc_wf c" and d: "htss_dealt C c p ks"
    and pts: "birkhoff_points_from_hierarchical_signer_set signers c = Inr points"
    and cs: "birkhoff_interpolation_coefficients C points = Inr cs"
  shows "reconstruct_htss_secret_scalar C (ks_shares ks) signers c = Inr (scalar_to_bytes C (p ! 0))"
proof -
  have "set signers \<subseteq> rp_id ` set (hc_participants c)"
    using pts wf by (simp add: birkhoff_points_iff hierarchical_quorum_def)
  from dealt_holds_shares [OF secp_lawsD(1) [OF L] wf this] d
  show ?thesis by (intro reconstruct_held [OF secp_lawsD(1) [OF L] wf pts cs]) (auto simp: htss_dealt_def)
qed

section \<open>Resharing and signing\<close>

lemma dealt_keypair:
  assumes L: "secp_laws C" and d: "htss_dealt C c p ks"
  shows "new_keypair C (p ! 0) = (p ! 0, g_mul C (p ! 0) (base_point C))"
    and "nonzero_scalar_from_bytes C (scalar_to_bytes C (p ! 0)) = Some (p ! 0)"
  using keypair_normal(4) [OF L] d secp_lawsD(1) [OF L]
  by (auto simp: htss_dealt_def nonzero_scalar_from_bytes_def scalar_codecD)

lemma nonzero_scalar_from_bytes_Some: "nonzero_scalar_from_bytes C b = Some s \<Longrightarrow> s \<noteq> 0"
  by (auto simp: nonzero_scalar_from_bytes_def split: option.splits if_splits)

lemma reshare_htss_Inr:
  assumes L: "secp_laws C" and wf: "hc_wf new_config"
    and r: "reshare_htss C rnd old old_config reconstruct_set new_config = Inr new"
  shows "ks_group_key new = ks_group_key old \<and> (\<exists>p. htss_dealt C new_config p new)"
proof -
  from r obtain b secret where "nonzero_scalar_from_bytes C b = Some secret"
    and key: "to_xonly_bytes C (snd (new_keypair C secret)) = gk_xonly_public_key (ks_group_key old)"
    and new: "new = \<lparr>ks_group_key = ks_group_key old, ks_shares = map (deal_share C (fst (new_keypair C secret)
        # map rnd [0..<unat (hc_threshold new_config) - 1])) (hc_participants new_config)\<rparr>"
    unfolding reshare_htss_def Let_def rbind_Inr_iff ensure_Inr_iff ok_or_Inr_iff by blast
  then have "secret \<noteq> 0" by (simp add: nonzero_scalar_from_bytes_Some)
  note kp = keypair_normal [OF L this]
  let ?p = "fst (new_keypair C secret) # map rnd [0..<unat (hc_threshold new_config) - 1]"
  have "length ?p = unat (hc_threshold new_config)" using wf by (simp add: hc_wf_def)
  with kp key have "htss_dealt C new_config ?p new" by (simp add: htss_dealt_def new)
  then show ?thesis using new by auto
qed

lemma reshare_htss_dealt:
  assumes L: "secp_laws C" and wf: "hc_wf old_config" "hc_wf new_config" and d: "htss_dealt C old_config p old"
    and pts: "birkhoff_points_from_hierarchical_signer_set reconstruct_set old_config = Inr points"
    and cs: "birkhoff_interpolation_coefficients C points = Inr cs"
  shows "\<exists>new q. reshare_htss C rnd old old_config reconstruct_set new_config = Inr new
    \<and> htss_dealt C new_config (p ! 0 # q) new \<and> ks_group_key new = ks_group_key old"
proof -
  let ?q = "map rnd [0..<unat (hc_threshold new_config) - 1]"
  have key: "gk_xonly_public_key (ks_group_key old) = to_xonly_bytes C (g_mul C (p ! 0) (base_point C))"
    using d by (simp add: htss_dealt_def)
  define new where "new = \<lparr>ks_group_key = ks_group_key old,
    ks_shares = map (deal_share C (p ! 0 # ?q)) (hc_participants new_config)\<rparr>"
  have "reshare_htss C rnd old old_config reconstruct_set new_config = Inr new"
    using reconstruct_dealt [OF L wf(1) d pts cs] dealt_keypair [OF L d] key
    by (simp add: reshare_htss_def Let_def new_def)
  moreover have "length (p ! 0 # ?q) = unat (hc_threshold new_config)" using wf(2) by (simp add: hc_wf_def)
  then have "htss_dealt C new_config (p ! 0 # ?q) new" using d key by (simp add: htss_dealt_def new_def)
  ultimately show ?thesis by (auto simp: new_def)
qed

text \<open>A signature over a digest that verifies under the x-only group key.\<close>

definition valid_signature ::
    "('f, 'p) secp \<Rightarrow> bytes \<Rightarrow> bytes \<Rightarrow> AggregateSignature \<Rightarrow> bool" where
  "valid_signature C xonly_key digest sig \<longleftrightarrow> (\<exists>X s. from_xonly_bytes C xonly_key = Some X
     \<and> schnorr_verify C X (frost_message digest) s \<and> as_signature_bytes sig = signature_to_bytes C s)"

lemma aggregate_signature_new: "schnorr_ok C \<Longrightarrow> AggregateSignature_new (signature_to_bytes C s)
    = Inr \<lparr>as_signature_bytes = signature_to_bytes C s\<rparr>"
  by (simp add: AggregateSignature_new_def signature_bytes_nonempty)

lemma dealt_from_xonly:
  assumes L: "secp_laws C" and d: "htss_dealt C c p ks"
  shows "from_xonly_bytes C (gk_xonly_public_key (ks_group_key ks)) = Some (g_mul C (p ! 0) (base_point C))"
  using d from_to_xonly [OF secp_lawsD(4) [OF L]] secp_lawsD(2) [OF L]
  by (auto simp: htss_dealt_def g_mul_G_eq_0_iff)

lemma sign_digest_dealt:
  assumes L: "secp_laws C" and wf: "hc_wf c" and d: "htss_dealt C c p ks"
    and pts: "birkhoff_points_from_hierarchical_signer_set signers c = Inr points"
    and cs: "birkhoff_interpolation_coefficients C points = Inr cs"
  shows "\<exists>sig. sign_digest_with_local_htss_shares C (ks_group_key ks) digest (ks_shares ks) signers c = Inr sig
    \<and> valid_signature C (gk_xonly_public_key (ks_group_key ks)) digest sig"
proof -
  note kp = dealt_keypair [OF L d]
  let ?s = "schnorr_sign C (new_keypair C (p ! 0)) (frost_message digest)"
  have key: "gk_xonly_public_key (ks_group_key ks) = to_xonly_bytes C (g_mul C (p ! 0) (base_point C))"
    and nz: "p ! 0 \<noteq> 0" using d by (simp_all add: htss_dealt_def)
  have "sign_digest_with_local_htss_shares C (ks_group_key ks) digest (ks_shares ks) signers c
      = Inr \<lparr>as_signature_bytes = signature_to_bytes C ?s\<rparr>"
    using reconstruct_dealt [OF L wf d pts cs] kp key secp_lawsD(5) [OF L]
    by (simp add: sign_digest_with_local_htss_shares_def Let_def aggregate_signature_new)
  moreover have "schnorr_verify C (g_mul C (p ! 0) (base_point C)) (frost_message digest) ?s"
    using schnorr_sign_verifies [OF secp_lawsD(5) [OF L] nz, of "frost_message digest"] kp(1) by simp
  ultimately show ?thesis using dealt_from_xonly [OF L d] unfolding valid_signature_def
    by (metis AggregateSignature.select_convs(1))
qed

end
