(* ===== verification/Htss_Dkg.thy ===== *)
theory Htss_Dkg
  imports Htss_Keys
begin

text \<open>
  Distributed HTSS key generation of \<open>dkgkit-frost/src/lib.rs\<close>: every participant commits
  to a polynomial (round 1), sends every participant a derivative share of it (round 2),
  checks the shares it receives against the commitments and adds them up. The main lemma,
  \<open>finalize_opened_iff\<close>, says exactly when a participant finishes and with what, for any
  packages whose commitments open to polynomials; agreement and the behaviour of the
  honest run follow from it.
\<close>

section \<open>Data\<close>

record HtssDkgRound1Package =
  hd1_participant_id :: ParticipantId
  hd1_rank :: u16
  hd1_commitment_bytes :: "bytes list"

record HtssDkgRound1State =
  hds_package :: HtssDkgRound1Package
  hds_secret_coefficient_bytes :: "bytes list"

record HtssDkgRound2Package =
  hd2_sender :: ParticipantId
  hd2_recipient :: ParticipantId
  hd2_recipient_rank :: u16
  hd2_share_value_bytes :: bytes

section \<open>Checks on received packages\<close>

definition htss_dkg_commitment_point :: "('f, 'p) secp \<Rightarrow> bytes \<Rightarrow> 'p result" where
  "htss_dkg_commitment_point C bytes =
     rbind (ensure (length bytes = 33)
              (Protocol (fmt [''HTSS DKG commitment must be 33 bytes, got '', show_nat (length bytes)]))) (\<lambda>_.
     ok_or (point_from_bytes C bytes) (Protocol ''invalid HTSS DKG commitment point''))"

text \<open>The body of the loop of \<open>validate_htss_dkg_round1_set\<close>.\<close>

definition check_htss_round1 ::
    "('f, 'p) secp \<Rightarrow> HierarchicalThresholdConfig \<Rightarrow> HtssDkgRound1Package \<Rightarrow> ParticipantId set \<Rightarrow> ParticipantId set result" where
  "check_htss_round1 C config package seen =
     (let i = hd1_participant_id package in
      rbind (ensure (i \<notin> seen) (DuplicateParticipantId (pid_val i))) (\<lambda>_.
      rbind (ok_or (hc_rank_of config i) (MissingRankedParticipant (pid_val i))) (\<lambda>expected_rank.
      rbind (ensure (hd1_rank package = rank_val expected_rank)
               (Protocol (fmt [''HTSS DKG round1 rank mismatch for participant '', show_u16 (pid_val i),
                  '': got '', show_u16 (hd1_rank package), '', expected '', show_u16 (rank_val expected_rank)]))) (\<lambda>_.
      rbind (ensure (length (hd1_commitment_bytes package) = unat (hc_threshold config))
               (Protocol (fmt [''HTSS DKG round1 participant '', show_u16 (pid_val i), '' has '',
                  show_nat (length (hd1_commitment_bytes package)), '' commitments, expected '',
                  show_u16 (hc_threshold config)]))) (\<lambda>_.
      rbind (try_for (\<lambda>commitment _. rbind (htss_dkg_commitment_point C commitment) (\<lambda>_. Inr ()))
               (hd1_commitment_bytes package) ()) (\<lambda>_.
      Inr (insert i seen)))))))"

definition validate_htss_dkg_round1_set ::
    "('f, 'p) secp \<Rightarrow> HtssDkgRound1Package list \<Rightarrow> HierarchicalThresholdConfig \<Rightarrow> unit result" where
  "validate_htss_dkg_round1_set C round1_packages config =
     rbind (try_for (check_htss_round1 C config) round1_packages {}) (\<lambda>seen.
     ensure (card seen = length (hc_participants config))
       (Protocol (fmt [''HTSS DKG round1 set mismatch: have '', show_nat (card seen),
          '', need '', show_nat (length (hc_participants config))])))"

text \<open>The body of the loop of \<open>validate_htss_dkg_round2_set\<close>.\<close>

definition check_htss_round2 ::
    "HierarchicalThresholdConfig \<Rightarrow> ParticipantId \<Rightarrow> Rank \<Rightarrow> HtssDkgRound2Package \<Rightarrow> ParticipantId set
      \<Rightarrow> ParticipantId set result" where
  "check_htss_round2 config participant_id expected_rank package seen =
     rbind (ensure (hd2_recipient package = participant_id)
              (Protocol (fmt [''HTSS DKG round2 package for participant '', show_u16 (pid_val (hd2_recipient package)),
                 '' cannot finalize participant '', show_u16 (pid_val participant_id)]))) (\<lambda>_.
     rbind (ensure (hd2_recipient_rank package = rank_val expected_rank)
              (Protocol (fmt [''HTSS DKG round2 recipient rank mismatch for participant '', show_u16 (pid_val participant_id),
                 '': got '', show_u16 (hd2_recipient_rank package), '', expected '', show_u16 (rank_val expected_rank)]))) (\<lambda>_.
     rbind (ok_or (hc_rank_of config (hd2_sender package))
              (MissingRankedParticipant (pid_val (hd2_sender package)))) (\<lambda>_.
     rbind (ensure (hd2_sender package \<notin> seen) (DuplicateParticipantId (pid_val (hd2_sender package)))) (\<lambda>_.
     Inr (insert (hd2_sender package) seen)))))"

definition validate_htss_dkg_round2_set ::
    "ParticipantId \<Rightarrow> HtssDkgRound2Package list \<Rightarrow> HierarchicalThresholdConfig \<Rightarrow> unit result" where
  "validate_htss_dkg_round2_set participant_id round2_packages config =
     rbind (ok_or (hc_rank_of config participant_id) (MissingRankedParticipant (pid_val participant_id))) (\<lambda>expected_rank.
     rbind (try_for (check_htss_round2 config participant_id expected_rank) round2_packages {}) (\<lambda>seen.
     ensure (card seen = length (hc_participants config))
       (Protocol (fmt [''HTSS DKG round2 set for participant '', show_u16 (pid_val participant_id),
          '' mismatch: have '', show_nat (card seen), '', need '', show_nat (length (hc_participants config))]))))"

text \<open>The loop over the commitments: the point the share should open to.\<close>

definition expected_share_point ::
    "('f::field, 'p::ab_group_add) secp \<Rightarrow> u16 \<Rightarrow> u16 \<Rightarrow> bytes list \<Rightarrow> 'p result" where
  "expected_share_point C recipient_rank recipient commitments =
     try_for (\<lambda>(degree, commitment_bytes) expected.
        rbind (derivative_basis_scalar (as_u16 degree) recipient_rank recipient) (\<lambda>basis.
        if basis = 0 then Inr expected
        else rbind (htss_dkg_commitment_point C commitment_bytes) (\<lambda>commitment.
               Inr (expected + g_mul C basis commitment))))
       (enumerate 0 commitments) 0"

definition verify_htss_dkg_derivative_share ::
    "('f::field, 'p::ab_group_add) secp \<Rightarrow> HtssDkgRound2Package \<Rightarrow> HtssDkgRound1Package \<Rightarrow> unit result" where
  "verify_htss_dkg_derivative_share C package round1 =
     rbind (ensure (hd2_sender package = hd1_participant_id round1)
              (Protocol ''HTSS DKG derivative share sender mismatch'')) (\<lambda>_.
     rbind (ok_or (scalar_from_bytes C (hd2_share_value_bytes package))
              (Protocol (fmt [''invalid HTSS DKG derivative share from participant '',
                 show_u16 (pid_val (hd2_sender package))]))) (\<lambda>share_value.
     rbind (expected_share_point C (hd2_recipient_rank package) (pid_val (hd2_recipient package))
              (hd1_commitment_bytes round1)) (\<lambda>expected.
     let actual = g_mul C share_value (base_point C) in
     ensure (point_to_bytes C actual = point_to_bytes C expected)
       (Protocol (fmt [''HTSS DKG derivative share from participant '', show_u16 (pid_val (hd2_sender package)),
          '' failed commitment verification''])))))"

definition first_commitment_point ::
    "('f, 'p) secp \<Rightarrow> HtssDkgRound1Package \<Rightarrow> 'p result" where
  "first_commitment_point C package =
     rbind (ok_or (case hd1_commitment_bytes package of [] \<Rightarrow> None | c # _ \<Rightarrow> Some c)
              (Protocol (fmt [''HTSS DKG participant '', show_u16 (pid_val (hd1_participant_id package)),
                 '' missing constant commitment'']))) (htss_dkg_commitment_point C)"

definition htss_dkg_group_xonly_public_key ::
    "('f, 'p::ab_group_add) secp \<Rightarrow> HtssDkgRound1Package list \<Rightarrow> (bytes \<times> bool) result" where
  "htss_dkg_group_xonly_public_key C round1_packages =
     rbind (try_for (\<lambda>package aggregate. rbind (first_commitment_point C package)
               (\<lambda>point. Inr (aggregate + point))) round1_packages 0) (\<lambda>aggregate.
     rbind (ensure (aggregate \<noteq> 0) (Protocol ''HTSS DKG group key cannot be zero'')) (\<lambda>_.
     let (even_public_key, negated) = even_y C aggregate
     in Inr (to_xonly_bytes C even_public_key, negated)))"

section \<open>The rounds\<close>

definition htss_dkg_round1 ::
    "('f::field, 'p) secp \<Rightarrow> (nat \<Rightarrow> 'f) \<Rightarrow> ParticipantId \<Rightarrow> HierarchicalThresholdConfig \<Rightarrow> HtssDkgRound1State result" where
  "htss_dkg_round1 C rnd participant_id config =
     rbind (ok_or (hc_rank_of config participant_id) (MissingRankedParticipant (pid_val participant_id))) (\<lambda>rank.
     let (secret_coefficient_bytes, commitment_bytes) =
           fold (\<lambda>i (secrets, commitments). let coefficient = rnd i; commitment = g_mul C coefficient (base_point C)
                  in (secrets @ [scalar_to_bytes C coefficient], commitments @ [point_to_bytes C commitment]))
             [0..<unat (hc_threshold config)] ([], [])
     in Inr \<lparr>hds_package = \<lparr>hd1_participant_id = participant_id, hd1_rank = rank_val rank,
                            hd1_commitment_bytes = commitment_bytes\<rparr>,
             hds_secret_coefficient_bytes = secret_coefficient_bytes\<rparr>)"

definition htss_dkg_round2 ::
    "('f::field, 'p) secp \<Rightarrow> HtssDkgRound1State \<Rightarrow> HtssDkgRound1Package list \<Rightarrow> HierarchicalThresholdConfig
      \<Rightarrow> HtssDkgRound2Package list result" where
  "htss_dkg_round2 C state round1_packages config =
     (let i = hd1_participant_id (hds_package state) in
      rbind (validate_htss_dkg_round1_set C round1_packages config) (\<lambda>_.
      rbind (ensure (list_ex (\<lambda>package. hd1_participant_id package = i) round1_packages)
               (Protocol (fmt [''missing own HTSS DKG round1 package for participant '', show_u16 (pid_val i)]))) (\<lambda>_.
      rbind (ensure (length (hds_secret_coefficient_bytes state) = unat (hc_threshold config))
               (Protocol (fmt [''HTSS DKG contributor '', show_u16 (pid_val i), '' has '',
                  show_nat (length (hds_secret_coefficient_bytes state)), '' coefficients, expected '',
                  show_u16 (hc_threshold config)]))) (\<lambda>_.
      rbind (collect (\<lambda>bytes. ok_or (scalar_from_bytes C bytes)
                (Protocol (fmt [''invalid HTSS DKG coefficient for participant '', show_u16 (pid_val i)])))
               (hds_secret_coefficient_bytes state)) (\<lambda>coefficients.
      Inr (map (\<lambda>recipient.
             let share_value = polynomial_derivative_value coefficients (pid_val (rp_id recipient))
                                 (rank_val (rp_rank recipient))
             in \<lparr>hd2_sender = i, hd2_recipient = rp_id recipient, hd2_recipient_rank = rank_val (rp_rank recipient),
                 hd2_share_value_bytes = scalar_to_bytes C share_value\<rparr>) (hc_participants config)))))))"

text \<open>The body of the loop over the round 2 packages, up to the addition: one verified contribution.\<close>

definition verified_contribution ::
    "('f::field, 'p::ab_group_add) secp \<Rightarrow> (ParticipantId \<rightharpoonup> HtssDkgRound1Package) \<Rightarrow> HtssDkgRound2Package \<Rightarrow> 'f result" where
  "verified_contribution C round1_by_sender package =
     rbind (ok_or (round1_by_sender (hd2_sender package))
              (MissingRankedParticipant (pid_val (hd2_sender package)))) (\<lambda>round1.
     rbind (verify_htss_dkg_derivative_share C package round1) (\<lambda>_.
     ok_or (scalar_from_bytes C (hd2_share_value_bytes package))
       (Protocol (fmt [''invalid HTSS DKG round2 share from participant '', show_u16 (pid_val (hd2_sender package))]))))"

definition round1_by_sender_of ::
    "HtssDkgRound1Package list \<Rightarrow> (ParticipantId \<rightharpoonup> HtssDkgRound1Package)" where
  "round1_by_sender_of packages = map_of (rev (map (\<lambda>package. (hd1_participant_id package, package)) packages))"

definition finalize_htss_dkg ::
    "('f::field, 'p::ab_group_add) secp \<Rightarrow> ParticipantId \<Rightarrow> HtssDkgRound1Package list \<Rightarrow> HtssDkgRound2Package list
      \<Rightarrow> HierarchicalThresholdConfig \<Rightarrow> (GroupKey \<times> HtssLocalKeyShare) result" where
  "finalize_htss_dkg C participant_id round1_packages round2_packages config =
     rbind (ok_or (hc_rank_of config participant_id) (MissingRankedParticipant (pid_val participant_id))) (\<lambda>rank.
     rbind (validate_htss_dkg_round1_set C round1_packages config) (\<lambda>_.
     rbind (validate_htss_dkg_round2_set participant_id round2_packages config) (\<lambda>_.
     rbind (try_for (\<lambda>package share_value.
               rbind (verified_contribution C (round1_by_sender_of round1_packages) package)
                 (\<lambda>contribution. Inr (scalar_add share_value contribution))) round2_packages scalar_zero) (\<lambda>share_value.
     rbind (htss_dkg_group_xonly_public_key C round1_packages) (\<lambda>(xonly_public_key, negated).
     let share_value = (if negated then scalar_sub scalar_zero share_value else share_value)
     in Inr (\<lparr>gk_xonly_public_key = xonly_public_key, gk_verification_key_bytes = []\<rparr>,
             \<lparr>hs_participant_id = participant_id, hs_rank = rank_val rank,
              hs_share_value_bytes = scalar_to_bytes C share_value\<rparr>))))))"

text \<open>The body of the last loop of \<open>run_distributed_htss_keygen\<close>.\<close>

definition finalize_participant ::
    "('f::field, 'p::ab_group_add) secp \<Rightarrow> HierarchicalThresholdConfig \<Rightarrow> HtssDkgRound1Package list
      \<Rightarrow> HtssDkgRound2Package list \<Rightarrow> RankedParticipant \<Rightarrow> GroupKey option \<times> HtssLocalKeyShare list
      \<Rightarrow> (GroupKey option \<times> HtssLocalKeyShare list) result" where
  "finalize_participant C config round1_packages round2_packages participant st =
     (let (group_key, shares) = st;
          packages_for_participant = filter (\<lambda>package. hd2_recipient package = rp_id participant) round2_packages in
      rbind (finalize_htss_dkg C (rp_id participant) round1_packages packages_for_participant config)
        (\<lambda>(participant_group_key, share).
      rbind (case group_key of
               Some existing \<Rightarrow>
                 if gk_xonly_public_key existing \<noteq> gk_xonly_public_key participant_group_key
                 then Inl (Protocol ''HTSS DKG participants derived different group keys'')
                 else Inr (Some existing)
             | None \<Rightarrow> Inr (Some participant_group_key)) (\<lambda>group_key.
      Inr (group_key, shares @ [share]))))"

text \<open>\<open>rnd i\<close> are the draws of the \<open>i\<close>-th participant's call of \<open>htss_dkg_round1\<close>.\<close>

definition run_distributed_htss_keygen ::
    "('f::field, 'p::ab_group_add) secp \<Rightarrow> (nat \<Rightarrow> nat \<Rightarrow> 'f) \<Rightarrow> HierarchicalThresholdConfig \<Rightarrow> HtssLocalKeySet result" where
  "run_distributed_htss_keygen C rnd config =
     rbind (collect (\<lambda>(i, participant). htss_dkg_round1 C (rnd i) (rp_id participant) config)
              (enumerate 0 (hc_participants config))) (\<lambda>states.
     let round1_packages = map hds_package states in
     rbind (collect (\<lambda>state. htss_dkg_round2 C state round1_packages config) states) (\<lambda>round2.
     let round2_packages = concat round2 in
     rbind (try_for (finalize_participant C config round1_packages round2_packages)
              (hc_participants config) (None, [])) (\<lambda>(group_key, shares).
     rbind (ok_or group_key (Protocol ''missing HTSS DKG group key'')) (\<lambda>group_key.
     Inr \<lparr>ks_group_key = group_key, ks_shares = shares\<rparr>))))"

section \<open>What the checks accept\<close>

lemma htss_dkg_commitment_point_iff [result_simps]:
  assumes "point_codec_ok C"
  shows "htss_dkg_commitment_point C b = Inr P \<longleftrightarrow> P \<noteq> 0 \<and> b = point_to_bytes C P"
  unfolding htss_dkg_commitment_point_def rbind_Inr_iff ensure_Inr_iff ok_or_Inr_iff
  using point_codecD [OF assms] by metis

definition round1_ok ::
    "('f, 'p::ab_group_add) secp \<Rightarrow> HierarchicalThresholdConfig \<Rightarrow> HtssDkgRound1Package \<Rightarrow> bool" where
  "round1_ok C c pkg \<longleftrightarrow> hc_rank_of c (hd1_participant_id pkg) = Some (Rank (hd1_rank pkg))
     \<and> length (hd1_commitment_bytes pkg) = unat (hc_threshold c)
     \<and> (\<forall>b\<in>set (hd1_commitment_bytes pkg). \<exists>P. P \<noteq> 0 \<and> b = point_to_bytes C P)"

lemma rank_val_eq: "r = Rank w \<longleftrightarrow> w = rank_val r"
  by (cases r) auto

lemma check_htss_round1_iff:
  assumes "point_codec_ok C"
  shows "check_htss_round1 C c pkg s = Inr s' \<longleftrightarrow>
    round1_ok C c pkg \<and> hd1_participant_id pkg \<notin> s \<and> s' = insert (hd1_participant_id pkg) s"
proof -
  have "try_for (\<lambda>commitment _. rbind (htss_dkg_commitment_point C commitment) (\<lambda>_. Inr ()))
      (hd1_commitment_bytes pkg) () = Inr u \<longleftrightarrow>
    (\<forall>b\<in>set (hd1_commitment_bytes pkg). \<exists>P. P \<noteq> 0 \<and> b = point_to_bytes C P)" for u
    by (simp add: try_for_check_iff rbind_Inr_iff htss_dkg_commitment_point_iff [OF assms])
  then show ?thesis
    by (auto simp: check_htss_round1_def Let_def round1_ok_def rbind_Inr_iff ensure_Inr_iff ok_or_Inr_iff rank_val_eq)
qed

lemma validate_round1_iff [result_simps]:
  assumes "point_codec_ok C"
  shows "validate_htss_dkg_round1_set C pkgs c = Inr u \<longleftrightarrow>
    (\<forall>pkg\<in>set pkgs. round1_ok C c pkg) \<and> distinct (map hd1_participant_id pkgs)
    \<and> length pkgs = length (hc_participants c)"
proof -
  have "card (hd1_participant_id ` set pkgs) = length pkgs" if "distinct (map hd1_participant_id pkgs)"
    using distinct_card [OF that] by simp
  then show ?thesis
    by (auto simp: validate_htss_dkg_round1_set_def rbind_Inr_iff ensure_Inr_iff
        try_for_distinct_iff [where f = "check_htss_round1 C c", OF check_htss_round1_iff [OF assms]])
qed

definition round2_ok :: "HierarchicalThresholdConfig \<Rightarrow> ParticipantId \<Rightarrow> HtssDkgRound2Package \<Rightarrow> bool" where
  "round2_ok c i pkg \<longleftrightarrow> hd2_recipient pkg = i \<and> hc_rank_of c i = Some (Rank (hd2_recipient_rank pkg))
     \<and> hd2_sender pkg \<in> rp_id ` set (hc_participants c)"

lemma check_htss_round2_iff:
  "hc_rank_of c i = Some r \<Longrightarrow> check_htss_round2 c i r pkg s = Inr s' \<longleftrightarrow>
    round2_ok c i pkg \<and> hd2_sender pkg \<notin> s \<and> s' = insert (hd2_sender pkg) s"
  using hcr.rank_of_None_iff [of c "hd2_sender pkg"]
  by (auto simp: check_htss_round2_def round2_ok_def rbind_Inr_iff ensure_Inr_iff ok_or_Inr_iff rank_val_eq)

lemma validate_round2_iff [result_simps]:
  "validate_htss_dkg_round2_set i pkgs c = Inr u \<longleftrightarrow>
    i \<in> rp_id ` set (hc_participants c) \<and> (\<forall>pkg\<in>set pkgs. round2_ok c i pkg)
    \<and> distinct (map hd2_sender pkgs) \<and> length pkgs = length (hc_participants c)"
proof (cases "hc_rank_of c i")
  case None
  then show ?thesis using hcr.rank_of_None_iff [of c i] by (simp add: validate_htss_dkg_round2_set_def)
next
  case (Some r)
  have i: "i \<in> rp_id ` set (hc_participants c)" using hcr.rank_of_None_iff [of c i] Some by auto
  have "card (hd2_sender ` set pkgs) = length pkgs" if "distinct (map hd2_sender pkgs)"
    using distinct_card [OF that] by simp
  with i Some show ?thesis
    by (auto simp: validate_htss_dkg_round2_set_def rbind_Inr_iff ensure_Inr_iff
        try_for_distinct_iff [where f = "check_htss_round2 c i r", OF check_htss_round2_iff [OF Some]])
qed

section \<open>Commitments bind\<close>

text \<open>The commitments of a list of coefficients.\<close>

abbreviation commitments_of :: "('f, 'p) secp \<Rightarrow> 'f list \<Rightarrow> bytes list" where
  "commitments_of C a \<equiv> map (\<lambda>x. point_to_bytes C (g_mul C x (base_point C))) a"

lemma expected_share_point_opened:
  fixes C :: "('f::field, 'p::ab_group_add) secp"
  assumes g: "group_ok C" and pc: "point_codec_ok C" and nz: "\<forall>x\<in>set a. x \<noteq> 0" and len: "length a \<le> 65535"
  shows "expected_share_point C r x (commitments_of C a)
    = Inr (g_mul C (polynomial_derivative_value a x r) (base_point C))"
proof -
  let ?G = "base_point C"
  let ?b = "\<lambda>j. dbasis j (unat r) (of_nat (unat x)) :: 'f"
  define v where "v = (\<lambda>(degree, cb). rbind (derivative_basis_scalar (as_u16 degree) r x) (\<lambda>basis.
    if basis = 0 then Inr 0 else rbind (htss_dkg_commitment_point C cb) (\<lambda>P. Inr (g_mul C basis P))))"
  have loop: "expected_share_point C r x cbs
      = try_for (\<lambda>z acc. rbind (v z) (\<lambda>y. Inr (acc + y))) (enumerate 0 cbs) 0" for cbs
    unfolding expected_share_point_def
  proof (intro arg_cong [where f = "\<lambda>f. try_for f (enumerate 0 cbs) 0"] ext)
    fix z :: "nat \<times> bytes" and acc
    obtain d cb where z: "z = (d, cb)" by (cases z)
    obtain b where b: "derivative_basis_scalar (as_u16 d) r x = Inr (b :: 'f)" using derivative_basis_ok by blast
    show "(case z of (degree, commitment_bytes) \<Rightarrow> \<lambda>expected.
          rbind (derivative_basis_scalar (as_u16 degree) r x) (\<lambda>basis. if basis = 0 then Inr expected
            else rbind (htss_dkg_commitment_point C commitment_bytes)
              (\<lambda>commitment. Inr (expected + g_mul C basis commitment)))) acc
        = rbind (v z) (\<lambda>y. Inr (acc + y))"
      by (cases "htss_dkg_commitment_point C cb") (simp_all add: z v_def b)
  qed
  have val: "v z = Inr (g_mul C (a ! fst z * ?b (fst z)) ?G)" if "z \<in> set (enumerate 0 (commitments_of C a))" for z
  proof -
    from that obtain j where j: "j < length a" "z = (j, point_to_bytes C (g_mul C (a ! j) ?G))"
      by (auto simp: in_set_enumerate_eq)
    have "htss_dkg_commitment_point C (snd z) = Inr (g_mul C (a ! j) ?G)"
      using j nz g by (simp add: htss_dkg_commitment_point_iff [OF pc] g_mul_G_eq_0_iff)
    then show ?thesis
      using j len g derivative_basis_scalar_eq [of j r x, where 'a = 'f]
      by (simp add: v_def g_mul_zero mult.commute [of "a ! j"] g_mul_mult)
  qed
  have "(\<Sum>z\<leftarrow>enumerate 0 (commitments_of C a). g_mul C (a ! fst z * ?b (fst z)) ?G)
      = (\<Sum>j\<leftarrow>[0..<length a]. g_mul C (a ! j * ?b j) ?G)"
    by (intro arg_cong [where f = sum_list] nth_equalityI) (simp_all add: nth_enumerate_eq)
  also have "\<dots> = g_mul C (\<Sum>j\<leftarrow>[0..<length a]. a ! j * ?b j) ?G"
    using g by (rule g_mul_sum_list [symmetric])
  also have "(\<Sum>j\<leftarrow>[0..<length a]. a ! j * ?b j) = polynomial_derivative_value a x r"
    using len by (simp add: polynomial_derivative_value_eq sum_list_sum_nth atLeast0LessThan)
  finally show ?thesis
    unfolding loop using try_for_sum [of "enumerate 0 (commitments_of C a)" v, OF val] by simp
qed

lemma verify_derivative_share_iff:
  assumes L: "secp_laws C" and cb: "hd1_commitment_bytes r1 = commitments_of C a"
    and nz: "\<forall>x\<in>set a. x \<noteq> 0" and len: "length a \<le> 65535"
  shows "verify_htss_dkg_derivative_share C pkg r1 = Inr u \<longleftrightarrow> hd2_sender pkg = hd1_participant_id r1
    \<and> scalar_from_bytes C (hd2_share_value_bytes pkg)
        = Some (polynomial_derivative_value a (pid_val (hd2_recipient pkg)) (hd2_recipient_rank pkg))"
proof -
  note laws = secp_lawsD [OF L]
  show ?thesis
    unfolding verify_htss_dkg_derivative_share_def cb
    by (auto simp: expected_share_point_opened [OF laws(2,3) nz len] rbind_Inr_iff ensure_Inr_iff ok_or_Inr_iff Let_def
        point_to_bytes_inj [OF laws(3)] dest: g_mul_G_inj [OF laws(2)])
qed

section \<open>Sums of polynomials\<close>

text \<open>The sum of the participants' polynomials, and a polynomial made to have an even public key.\<close>

definition dkg_sum :: "HierarchicalThresholdConfig \<Rightarrow> (ParticipantId \<Rightarrow> 'f::field list) \<Rightarrow> 'f list" where
  "dkg_sum c A = map (\<lambda>j. \<Sum>q\<leftarrow>hc_participants c. A (rp_id q) ! j) [0..<unat (hc_threshold c)]"

definition normal_poly :: "('f::field, 'p) secp \<Rightarrow> 'f list \<Rightarrow> 'f list" where
  "normal_poly C p = (if snd (even_y C (g_mul C (p ! 0) (base_point C))) then map uminus p else p)"

lemma dkg_sum_length [simp]: "length (dkg_sum c A) = unat (hc_threshold c)"
  by (simp add: dkg_sum_def)

lemma normal_poly_length [simp]: "length (normal_poly C p) = length p"
  by (simp add: normal_poly_def)

lemma polynomial_derivative_value_minus:
  "length p \<le> 65535 \<Longrightarrow> polynomial_derivative_value (map uminus p) x r = - polynomial_derivative_value p x r"
  by (simp add: polynomial_derivative_value_eq sum_negf)

lemma polynomial_derivative_value_dkg_sum:
  assumes "\<And>q. q \<in> set (hc_participants c) \<Longrightarrow> length (A (rp_id q)) = unat (hc_threshold c)"
  shows "polynomial_derivative_value (dkg_sum c A) x r
    = (\<Sum>q\<leftarrow>hc_participants c. polynomial_derivative_value (A (rp_id q)) x r)"
proof -
  let ?t = "unat (hc_threshold c)"
  let ?b = "\<lambda>j. dbasis j (unat r) (of_nat (unat x))"
  have t: "?t \<le> 65535" by (rule unat_u16_le)
  have "polynomial_derivative_value (dkg_sum c A) x r = (\<Sum>j<?t. (\<Sum>q\<leftarrow>hc_participants c. A (rp_id q) ! j) * ?b j)"
    using t by (simp add: polynomial_derivative_value_eq dkg_sum_def)
  also have "\<dots> = (\<Sum>j<?t. \<Sum>q\<leftarrow>hc_participants c. A (rp_id q) ! j * ?b j)"
    by (simp add: sum_list_mult_const)
  also have "\<dots> = (\<Sum>q\<leftarrow>hc_participants c. \<Sum>j<?t. A (rp_id q) ! j * ?b j)"
    by (induction "hc_participants c") (simp_all add: sum_list_sum_nth sum.swap [of _ _ "{..<?t}"])
  also have "\<dots> = (\<Sum>q\<leftarrow>hc_participants c. polynomial_derivative_value (A (rp_id q)) x r)"
    using assms t by (intro arg_cong [where f = sum_list] map_cong) (simp_all add: polynomial_derivative_value_eq)
  finally show ?thesis .
qed

lemma normal_poly_nth: "j < length p \<Longrightarrow> normal_poly C p ! j
    = (if snd (even_y C (g_mul C (p ! 0) (base_point C))) then - (p ! j) else p ! j)"
  by (simp add: normal_poly_def)

lemma normal_poly_value:
  "length p \<le> 65535 \<Longrightarrow> polynomial_derivative_value (normal_poly C p) x r
    = (if snd (even_y C (g_mul C (p ! 0) (base_point C))) then - polynomial_derivative_value p x r
       else polynomial_derivative_value p x r)"
  by (simp add: normal_poly_def polynomial_derivative_value_minus)

lemma normal_poly_even:
  assumes L: "secp_laws C" and p: "p \<noteq> []" "p ! 0 \<noteq> 0"
  shows "normal_poly C p ! 0 \<noteq> 0"
    and "\<not> snd (even_y C (g_mul C (normal_poly C p ! 0) (base_point C)))"
    and "fst (even_y C (g_mul C (p ! 0) (base_point C))) = g_mul C (normal_poly C p ! 0) (base_point C)"
proof -
  note laws = secp_lawsD [OF L]
  have P: "g_mul C (p ! 0) (base_point C) \<noteq> 0" using p laws(2) by (simp add: g_mul_G_eq_0_iff)
  show "normal_poly C p ! 0 \<noteq> 0" using p by (simp add: normal_poly_nth)
  show eq: "fst (even_y C (g_mul C (p ! 0) (base_point C))) = g_mul C (normal_poly C p ! 0) (base_point C)"
    using p laws(2) even_y_fst [OF laws(4) P] by (simp add: normal_poly_nth g_mul_minus)
  show "\<not> snd (even_y C (g_mul C (normal_poly C p ! 0) (base_point C)))"
    using even_y_idem [OF laws(4) P] unfolding eq by simp
qed

section \<open>When a participant finishes, and with what\<close>

text \<open>\<open>A\<close> opens the commitments of a round 1 set: it gives every sender's polynomial.\<close>

definition opened ::
    "('f, 'p) secp \<Rightarrow> (ParticipantId \<Rightarrow> 'f list) \<Rightarrow> HtssDkgRound1Package list \<Rightarrow> bool" where
  "opened C A pkgs \<longleftrightarrow>
     (\<forall>pkg\<in>set pkgs. hd1_commitment_bytes pkg = commitments_of C (A (hd1_participant_id pkg)))"

lemma round1_by_sender_member:
  assumes "distinct (map hd1_participant_id pkgs)" "pkg \<in> set pkgs"
  shows "round1_by_sender_of pkgs (hd1_participant_id pkg) = Some pkg"
  using assms unfolding round1_by_sender_of_def
  by (subst map_of_rev_distinct) (auto simp: o_def intro: map_of_is_SomeI)

lemma opened_exists:
  assumes g: "group_ok C" and ok: "\<forall>pkg\<in>set pkgs. round1_ok C c pkg"
    and dist: "distinct (map hd1_participant_id pkgs)"
  shows "\<exists>A. opened C A pkgs"
proof -
  define f where "f b = (SOME x. b = point_to_bytes C (g_mul C x (base_point C)))" for b
  have f: "point_to_bytes C (g_mul C (f b) (base_point C)) = b"
    if p: "pkg \<in> set pkgs" "b \<in> set (hd1_commitment_bytes pkg)" for pkg b
  proof -
    from ok p obtain P where "b = point_to_bytes C P" unfolding round1_ok_def by blast
    moreover obtain x where "P = g_mul C x (base_point C)" using g_mul_G_surj [OF g] by blast
    ultimately have "\<exists>x. b = point_to_bytes C (g_mul C x (base_point C))" by blast
    from someI_ex [OF this] show ?thesis by (simp add: f_def)
  qed
  let ?A = "\<lambda>i. map f (hd1_commitment_bytes (the (round1_by_sender_of pkgs i)))"
  have "opened C ?A pkgs"
    unfolding opened_def
  proof
    fix pkg assume p: "pkg \<in> set pkgs"
    have "map ((\<lambda>x. point_to_bytes C (g_mul C x (base_point C))) \<circ> f) (hd1_commitment_bytes pkg)
        = hd1_commitment_bytes pkg"
      using f [OF p] by (intro map_idI) simp
    then show "hd1_commitment_bytes pkg = commitments_of C (?A (hd1_participant_id pkg))"
      by (simp add: round1_by_sender_member [OF dist p])
  qed
  then show ?thesis by blast
qed

lemma opened_package:
  assumes L: "secp_laws C" and ok: "round1_ok C c pkg"
    and cb: "hd1_commitment_bytes pkg = commitments_of C a"
  shows "length a = unat (hc_threshold c)" and "\<forall>x\<in>set a. x \<noteq> 0"
proof -
  note laws = secp_lawsD [OF L]
  show "length a = unat (hc_threshold c)" using ok cb unfolding round1_ok_def by (metis length_map)
  show "\<forall>x\<in>set a. x \<noteq> 0"
  proof
    fix x assume "x \<in> set a"
    then have "point_to_bytes C (g_mul C x (base_point C)) \<in> set (hd1_commitment_bytes pkg)" by (simp add: cb)
    then show "x \<noteq> 0"
      using ok laws(2) point_to_bytes_inj [OF laws(3)] unfolding round1_ok_def by (metis g_mul_zero)
  qed
qed

lemma round1_senders:
  assumes codec: "point_codec_ok C" and v: "validate_htss_dkg_round1_set C r1 c = Inr u"
  shows "mset (map hd1_participant_id r1) = mset (map rp_id (hc_participants c))"
proof (rule distinct_perm_mset)
  show "distinct (map hd1_participant_id r1)" "length (map hd1_participant_id r1) = length (map rp_id (hc_participants c))"
    using v by (simp_all add: validate_round1_iff [OF codec])
  show "set (map hd1_participant_id r1) \<subseteq> set (map rp_id (hc_participants c))"
  proof
    fix i assume "i \<in> set (map hd1_participant_id r1)"
    then have "hc_rank_of c i \<noteq> None" using v by (auto simp: validate_round1_iff [OF codec] round1_ok_def)
    then show "i \<in> set (map rp_id (hc_participants c))" by (auto simp: hcr.rank_of_None_iff)
  qed
qed

lemma round2_senders:
  assumes v: "validate_htss_dkg_round2_set i r2 c = Inr u"
  shows "mset (map hd2_sender r2) = mset (map rp_id (hc_participants c))"
  using v by (intro distinct_perm_mset) (auto simp: validate_round2_iff round2_ok_def)

lemma opened_participant:
  assumes L: "secp_laws C" and v: "validate_htss_dkg_round1_set C r1 c = Inr u" and o: "opened C A r1"
    and i: "i \<in> rp_id ` set (hc_participants c)"
  shows "\<exists>pkg. round1_by_sender_of r1 i = Some pkg \<and> hd1_participant_id pkg = i
    \<and> hd1_commitment_bytes pkg = commitments_of C (A i)"
    and "length (A i) = unat (hc_threshold c)" and "\<forall>x\<in>set (A i). x \<noteq> 0"
proof -
  note v' = v [unfolded validate_round1_iff [OF secp_lawsD(3) [OF L]]]
  have "i \<in># mset (map hd1_participant_id r1)" using i round1_senders [OF secp_lawsD(3) [OF L] v] by simp
  then obtain pkg where pkg: "pkg \<in> set r1" "hd1_participant_id pkg = i" by auto
  have cb: "hd1_commitment_bytes pkg = commitments_of C (A i)" using o pkg unfolding opened_def by blast
  show "\<exists>pkg. round1_by_sender_of r1 i = Some pkg \<and> hd1_participant_id pkg = i
    \<and> hd1_commitment_bytes pkg = commitments_of C (A i)"
    using round1_by_sender_member [of r1 pkg] v' pkg cb by auto
  show "length (A i) = unat (hc_threshold c)" "\<forall>x\<in>set (A i). x \<noteq> 0"
    using opened_package [OF L _ cb] v' pkg by blast+
qed

lemma verified_contribution_iff:
  assumes L: "secp_laws C" and v: "validate_htss_dkg_round1_set C r1 c = Inr u" and o: "opened C A r1"
    and ok: "round2_ok c i pkg" and r: "hc_rank_of c i = Some rank"
  shows "verified_contribution C (round1_by_sender_of r1) pkg = Inr y \<longleftrightarrow>
    scalar_from_bytes C (hd2_share_value_bytes pkg)
      = Some (polynomial_derivative_value (A (hd2_sender pkg)) (pid_val i) (rank_val rank))
    \<and> y = polynomial_derivative_value (A (hd2_sender pkg)) (pid_val i) (rank_val rank)"
proof -
  from ok r have pkg: "hd2_recipient pkg = i" "hd2_recipient_rank pkg = rank_val rank"
    "hd2_sender pkg \<in> rp_id ` set (hc_participants c)"
    by (auto simp: round2_ok_def)
  note op = opened_participant [OF L v o pkg(3)]
  from op(1) obtain p where p: "round1_by_sender_of r1 (hd2_sender pkg) = Some p"
    "hd1_participant_id p = hd2_sender pkg" "hd1_commitment_bytes p = commitments_of C (A (hd2_sender pkg))"
    by blast
  have "length (A (hd2_sender pkg)) \<le> 65535" using op(2) unat_u16_le by simp
  from verify_derivative_share_iff [OF L p(3) op(3) this] show ?thesis
    by (auto simp: verified_contribution_def p pkg rbind_Inr_iff ok_or_Inr_iff)
qed

lemma share_loop_iff:
  assumes L: "secp_laws C" and v: "validate_htss_dkg_round1_set C r1 c = Inr u" and o: "opened C A r1"
    and v2: "validate_htss_dkg_round2_set i r2 c = Inr u'" and r: "hc_rank_of c i = Some rank"
  shows "try_for (\<lambda>package share_value. rbind (verified_contribution C (round1_by_sender_of r1) package)
      (\<lambda>contribution. Inr (scalar_add share_value contribution))) r2 scalar_zero = Inr s \<longleftrightarrow>
    (\<forall>pkg\<in>set r2. scalar_from_bytes C (hd2_share_value_bytes pkg)
      = Some (polynomial_derivative_value (A (hd2_sender pkg)) (pid_val i) (rank_val rank)))
    \<and> s = polynomial_derivative_value (dkg_sum c A) (pid_val i) (rank_val rank)"
proof -
  let ?val = "\<lambda>j. polynomial_derivative_value (A j) (pid_val i) (rank_val rank)"
  have "(\<Sum>pkg\<leftarrow>r2. ?val (hd2_sender pkg)) = (\<Sum>j\<leftarrow>map hd2_sender r2. ?val j)" by (simp add: o_def)
  also have "\<dots> = (\<Sum>j\<leftarrow>map rp_id (hc_participants c). ?val j)"
    using round2_senders [OF v2] by (rule sum_list_mset_cong)
  also have "\<dots> = polynomial_derivative_value (dkg_sum c A) (pid_val i) (rank_val rank)"
    using polynomial_derivative_value_dkg_sum [of c A] opened_participant(2) [OF L v o] by (simp add: o_def)
  finally have sum: "(\<Sum>pkg\<leftarrow>r2. ?val (hd2_sender pkg))
    = polynomial_derivative_value (dkg_sum c A) (pid_val i) (rank_val rank)" .
  have "\<And>pkg y. pkg \<in> set r2 \<Longrightarrow> verified_contribution C (round1_by_sender_of r1) pkg = Inr y \<longleftrightarrow>
      scalar_from_bytes C (hd2_share_value_bytes pkg) = Some (?val (hd2_sender pkg)) \<and> y = ?val (hd2_sender pkg)"
    using verified_contribution_iff [OF L v o _ r] v2 by (simp add: validate_round2_iff)
  from try_for_sum_iff [where v = "verified_contribution C (round1_by_sender_of r1)", OF this]
  show ?thesis using sum by (simp add: scalar_add_def scalar_zero_def)
qed

lemma group_key_iff:
  fixes C :: "('f::field, 'p::ab_group_add) secp"
  assumes L: "secp_laws C" and wf: "hc_wf c" and v: "validate_htss_dkg_round1_set C r1 c = Inr u" and o: "opened C A r1"
  shows "htss_dkg_group_xonly_public_key C r1 =
    (if dkg_sum c A ! 0 = 0 then Inl (Protocol ''HTSS DKG group key cannot be zero'')
     else Inr (to_xonly_bytes C (g_mul C (normal_poly C (dkg_sum c A) ! 0) (base_point C)),
               snd (even_y C (g_mul C (dkg_sum c A ! 0) (base_point C)))))"
proof -
  note laws = secp_lawsD [OF L]
  let ?G = "base_point C"
  have t: "0 < unat (hc_threshold c)" using wf by (simp add: hc_wf_def)
  have point: "first_commitment_point C pkg = Inr (g_mul C (A (hd1_participant_id pkg) ! 0) ?G)" if p: "pkg \<in> set r1" for pkg
  proof -
    have cb: "hd1_commitment_bytes pkg = commitments_of C (A (hd1_participant_id pkg))" and ok: "round1_ok C c pkg"
      using o v p by (simp_all add: opened_def validate_round1_iff [OF laws(3)])
    note a = opened_package [OF L ok cb]
    from a(1) t obtain x xs where "A (hd1_participant_id pkg) = x # xs" by (cases "A (hd1_participant_id pkg)") auto
    with a(2) cb laws(2) show ?thesis
      by (simp add: first_commitment_point_def htss_dkg_commitment_point_iff [OF laws(3)] g_mul_G_eq_0_iff)
  qed
  have "(\<Sum>pkg\<leftarrow>r1. g_mul C (A (hd1_participant_id pkg) ! 0) ?G)
      = (\<Sum>j\<leftarrow>map hd1_participant_id r1. g_mul C (A j ! 0) ?G)" by (simp add: o_def)
  also have "\<dots> = (\<Sum>j\<leftarrow>map rp_id (hc_participants c). g_mul C (A j ! 0) ?G)"
    using round1_senders [OF laws(3) v] by (rule sum_list_mset_cong)
  also have "\<dots> = g_mul C (dkg_sum c A ! 0) ?G"
    using t laws(2) by (simp add: dkg_sum_def g_mul_sum_list o_def)
  finally have agg: "try_for (\<lambda>package aggregate. rbind (first_commitment_point C package)
      (\<lambda>point. Inr (aggregate + point))) r1 0 = Inr (g_mul C (dkg_sum c A ! 0) ?G)"
    using try_for_sum [of r1 "first_commitment_point C", OF point] by simp
  have ne: "dkg_sum c A \<noteq> []" using t by (metis dkg_sum_length length_greater_0_conv)
  show ?thesis
    using normal_poly_even(3) [OF L ne] laws(2)
    by (auto simp: htss_dkg_group_xonly_public_key_def agg g_mul_G_eq_0_iff split: prod.splits)
qed

text \<open>What a participant holds at the end: the group key and the derivative share of a polynomial.\<close>

definition dkg_output ::
    "('f::field, 'p) secp \<Rightarrow> 'f list \<Rightarrow> ParticipantId \<Rightarrow> Rank \<Rightarrow> GroupKey \<times> HtssLocalKeyShare" where
  "dkg_output C p i rank =
     (\<lparr>gk_xonly_public_key = to_xonly_bytes C (g_mul C (p ! 0) (base_point C)), gk_verification_key_bytes = []\<rparr>,
      deal_share C p \<lparr>rp_id = i, rp_rank = rank, rp_label = None\<rparr>)"

lemma finalize_opened_iff:
  assumes L: "secp_laws C" and wf: "hc_wf c" and o: "opened C A r1"
  shows "finalize_htss_dkg C i r1 r2 c = Inr out \<longleftrightarrow>
    (\<exists>rank. hc_rank_of c i = Some rank \<and> is_ok (validate_htss_dkg_round1_set C r1 c)
      \<and> is_ok (validate_htss_dkg_round2_set i r2 c)
      \<and> (\<forall>pkg\<in>set r2. scalar_from_bytes C (hd2_share_value_bytes pkg)
           = Some (polynomial_derivative_value (A (hd2_sender pkg)) (pid_val i) (rank_val rank)))
      \<and> dkg_sum c A ! 0 \<noteq> 0 \<and> out = dkg_output C (normal_poly C (dkg_sum c A)) i rank)"
    (is "?l \<longleftrightarrow> ?r")
proof (cases "\<exists>rank. hc_rank_of c i = Some rank \<and> is_ok (validate_htss_dkg_round1_set C r1 c)
      \<and> is_ok (validate_htss_dkg_round2_set i r2 c)")
  case True
  then obtain rank where r: "hc_rank_of c i = Some rank" and v1: "validate_htss_dkg_round1_set C r1 c = Inr ()"
    and v2: "validate_htss_dkg_round2_set i r2 c = Inr ()"
    by (auto simp: is_ok_iff)
  have val: "polynomial_derivative_value (normal_poly C (dkg_sum c A)) x k
      = (if snd (even_y C (g_mul C (dkg_sum c A ! 0) (base_point C)))
         then scalar_sub scalar_zero (polynomial_derivative_value (dkg_sum c A) x k)
         else polynomial_derivative_value (dkg_sum c A) x k)" for x k
    using normal_poly_value [of "dkg_sum c A" C x k] unat_u16_le by (simp add: scalar_op_defs)
  show ?thesis
    using group_key_iff [OF L wf v1 o]
    by (auto simp: finalize_htss_dkg_def r v1 v2 rbind_Inr_iff share_loop_iff [OF L v1 o v2 r] dkg_output_def
        deal_share_def Let_def val split: if_splits)
next
  case False
  then show ?thesis by (auto simp: finalize_htss_dkg_def rbind_Inr_iff ok_or_Inr_iff is_ok_iff)
qed

lemma finalize_Inr_round1:
  "finalize_htss_dkg C i r1 r2 c = Inr out \<Longrightarrow> is_ok (validate_htss_dkg_round1_set C r1 c)"
  by (auto simp: finalize_htss_dkg_def rbind_Inr_iff is_ok_iff)

text \<open>
  Whatever the packages, the participants that finish on one round 1 set hold derivative
  shares of one polynomial, with one group key.
\<close>

lemma finalize_agreement:
  fixes C :: "('f::field, 'p::ab_group_add) secp"
  assumes L: "secp_laws C" and wf: "hc_wf c"
  shows "\<exists>p. length p = unat (hc_threshold c)
    \<and> (\<forall>i r2 out. finalize_htss_dkg C i r1 r2 c = Inr out \<longrightarrow> p ! 0 \<noteq> 0
        \<and> \<not> snd (even_y C (g_mul C (p ! 0) (base_point C)))
        \<and> (\<exists>rank. hc_rank_of c i = Some rank \<and> out = dkg_output C p i rank))"
proof (cases "is_ok (validate_htss_dkg_round1_set C r1 c)")
  case True
  note laws = secp_lawsD [OF L]
  from True have "\<forall>pkg\<in>set r1. round1_ok C c pkg" "distinct (map hd1_participant_id r1)"
    by (auto simp: is_ok_iff validate_round1_iff [OF laws(3)])
  from opened_exists [OF laws(2) this] obtain A where o: "opened C A r1" ..
  have "dkg_sum c A \<noteq> []" using wf by (metis dkg_sum_length hc_wf_def length_greater_0_conv)
  note even = normal_poly_even [OF L this]
  show ?thesis
    using finalize_opened_iff [OF L wf o] even
    by (intro exI [of _ "normal_poly C (dkg_sum c A)"]) auto
next
  case False
  then show ?thesis
    using finalize_Inr_round1 [of C _ r1 _ c]
    by (intro exI [of _ "replicate (unat (hc_threshold c)) (0 :: 'f)"] conjI allI impI) (simp, blast+)
qed

section \<open>The honest run\<close>

lemma round1_fold:
  "fold (\<lambda>i (secrets, commitments). let coefficient = rnd i; commitment = h coefficient
      in (secrets @ [f coefficient], commitments @ [k commitment])) [0..<n] ([], [])
   = (map f (map rnd [0..<n]), map (\<lambda>x. k (h x)) (map rnd [0..<n]))"
  by (induction n) (simp_all add: Let_def)

text \<open>The state of a participant that drew the coefficients \<open>a\<close>.\<close>

definition honest_state ::
    "('f::field, 'p) secp \<Rightarrow> RankedParticipant \<Rightarrow> 'f list \<Rightarrow> HtssDkgRound1State" where
  "honest_state C q a =
     \<lparr>hds_package = \<lparr>hd1_participant_id = rp_id q, hd1_rank = rank_val (rp_rank q),
                    hd1_commitment_bytes = commitments_of C a\<rparr>,
      hds_secret_coefficient_bytes = map (scalar_to_bytes C) a\<rparr>"

lemma htss_dkg_round1_honest:
  assumes wf: "hc_wf c" and q: "q \<in> set (hc_participants c)"
  shows "htss_dkg_round1 C rnd (rp_id q) c = Inr (honest_state C q (map rnd [0..<unat (hc_threshold c)]))"
proof -
  have "hc_rank_of c (rp_id q) = Some (rp_rank q)"
    using hcr.rank_of_member [OF _ q] wf by (simp add: hc_wf_def)
  then show ?thesis unfolding htss_dkg_round1_def round1_fold by (simp add: honest_state_def)
qed

lemma honest_round1_ok:
  assumes L: "secp_laws C" and wf: "hc_wf c" and q: "q \<in> set (hc_participants c)"
    and a: "length a = unat (hc_threshold c)" "\<forall>x\<in>set a. x \<noteq> 0"
  shows "round1_ok C c (hds_package (honest_state C q a))"
proof -
  have "hc_rank_of c (rp_id q) = Some (rp_rank q)"
    using hcr.rank_of_member [OF _ q] wf by (simp add: hc_wf_def)
  moreover have "g_mul C x (base_point C) \<noteq> 0" if "x \<in> set a" for x
    using that a(2) secp_lawsD(2) [OF L] by (auto simp: g_mul_G_eq_0_iff)
  ultimately show ?thesis using a(1) by (auto simp: round1_ok_def honest_state_def rank_val_eq)
qed

text \<open>The polynomial of participant \<open>i\<close>: the draws of the call at its position.\<close>

definition drawn_poly :: "HierarchicalThresholdConfig \<Rightarrow> (nat \<Rightarrow> nat \<Rightarrow> 'f) \<Rightarrow> ParticipantId \<Rightarrow> 'f list" where
  "drawn_poly c rnd i =
     map (rnd (length (takeWhile (\<lambda>q. rp_id q \<noteq> i) (hc_participants c)))) [0..<unat (hc_threshold c)]"

lemma takeWhile_position:
  assumes "distinct (map f xs)" "k < length xs"
  shows "length (takeWhile (\<lambda>y. f y \<noteq> f (xs ! k)) xs) = k"
proof -
  have "takeWhile (\<lambda>y. f y \<noteq> f (xs ! k)) xs = take k xs"
    using assms by (intro takeWhile_eq_take_P_nth) (auto simp: distinct_conv_nth)
  then show ?thesis using assms(2) by simp
qed

lemma drawn_poly_nth:
  "hc_wf c \<Longrightarrow> k < length (hc_participants c) \<Longrightarrow>
     drawn_poly c rnd (rp_id (hc_participants c ! k)) = map (rnd k) [0..<unat (hc_threshold c)]"
  by (simp add: drawn_poly_def takeWhile_position hc_wf_def)

text \<open>The package for \<open>p\<close> from a participant \<open>q\<close> with coefficients \<open>a\<close>.\<close>

definition honest_package ::
    "('f::field, 'p) secp \<Rightarrow> 'f list \<Rightarrow> RankedParticipant \<Rightarrow> RankedParticipant \<Rightarrow> HtssDkgRound2Package" where
  "honest_package C a q p =
     \<lparr>hd2_sender = rp_id q, hd2_recipient = rp_id p, hd2_recipient_rank = rank_val (rp_rank p),
      hd2_share_value_bytes = scalar_to_bytes C
        (polynomial_derivative_value a (pid_val (rp_id p)) (rank_val (rp_rank p)))\<rparr>"

definition honest_round1 ::
    "('f::field, 'p) secp \<Rightarrow> HierarchicalThresholdConfig \<Rightarrow> (ParticipantId \<Rightarrow> 'f list) \<Rightarrow> HtssDkgRound1Package list" where
  "honest_round1 C c A = map (\<lambda>q. hds_package (honest_state C q (A (rp_id q)))) (hc_participants c)"

lemma honest_package_simps [simp]:
  "hd2_sender (honest_package C a q p) = rp_id q" "hd2_recipient (honest_package C a q p) = rp_id p"
  "hd2_recipient_rank (honest_package C a q p) = rank_val (rp_rank p)"
  by (simp_all add: honest_package_def)

lemma honest_state_simps [simp]:
  "hd1_participant_id (hds_package (honest_state C q a)) = rp_id q"
  "hd1_commitment_bytes (hds_package (honest_state C q a)) = commitments_of C a"
  by (simp_all add: honest_state_def)

lemma honest_round1_valid:
  assumes L: "secp_laws C" and wf: "hc_wf c"
    and A: "\<And>q. q \<in> set (hc_participants c) \<Longrightarrow> length (A (rp_id q)) = unat (hc_threshold c) \<and> (\<forall>x\<in>set (A (rp_id q)). x \<noteq> 0)"
  shows "validate_htss_dkg_round1_set C (honest_round1 C c A) c = Inr ()" and "opened C A (honest_round1 C c A)"
  using honest_round1_ok [OF L wf] A wf
  by (auto simp: validate_round1_iff [OF secp_lawsD(3) [OF L]] honest_round1_def o_def hc_wf_def opened_def)

lemma htss_dkg_round2_honest:
  assumes L: "secp_laws C" and v: "validate_htss_dkg_round1_set C (honest_round1 C c A) c = Inr ()"
    and q: "q \<in> set (hc_participants c)" and len: "length (A (rp_id q)) = unat (hc_threshold c)"
  shows "htss_dkg_round2 C (honest_state C q (A (rp_id q))) (honest_round1 C c A) c
    = Inr (map (honest_package C (A (rp_id q)) q) (hc_participants c))"
proof -
  have "collect (\<lambda>bytes. ok_or (scalar_from_bytes C bytes) e) (map (scalar_to_bytes C) (A (rp_id q))) = Inr (A (rp_id q))" for e :: DkgKitError
    using secp_lawsD(1) [OF L] by (induction "A (rp_id q)") (simp_all add: collect_Inr_iff list_all2_map1
        list_all2_same ok_or_Inr_iff scalar_codecD)
  moreover have "list_ex (\<lambda>package. hd1_participant_id package = rp_id q) (honest_round1 C c A)"
    using q by (auto simp: list_ex_iff honest_round1_def)
  ultimately show ?thesis
    using v len by (simp add: htss_dkg_round2_def Let_def honest_state_def honest_package_def [abs_def])
qed

lemma packages_for_participant:
  assumes "distinct (map rp_id ps)" "p \<in> set ps"
  shows "filter (\<lambda>package. hd2_recipient package = rp_id p)
      (concat (map (\<lambda>q. map (honest_package C (A (rp_id q)) q) ps) qs))
    = map (\<lambda>q. honest_package C (A (rp_id q)) q p) qs"
proof -
  have "filter (\<lambda>q. rp_id q = rp_id p) ps = [p]"
    using assms by (induction ps) (force simp: filter_empty_conv image_iff)+
  then show ?thesis by (induction qs) (simp_all add: filter_map o_def)
qed

lemma finalize_honest:
  assumes L: "secp_laws C" and wf: "hc_wf c" and p: "p \<in> set (hc_participants c)"
    and qs: "mset qs = mset (hc_participants c)"
    and A: "\<And>q. q \<in> set (hc_participants c) \<Longrightarrow> length (A (rp_id q)) = unat (hc_threshold c) \<and> (\<forall>x\<in>set (A (rp_id q)). x \<noteq> 0)"
  shows "finalize_htss_dkg C (rp_id p) (honest_round1 C c A)
      (map (\<lambda>q. honest_package C (A (rp_id q)) q p) qs) c =
    (if dkg_sum c A ! 0 = 0 then Inl (Protocol ''HTSS DKG group key cannot be zero'')
     else Inr (dkg_output C (normal_poly C (dkg_sum c A)) (rp_id p) (rp_rank p)))"
proof -
  let ?r2 = "map (\<lambda>q. honest_package C (A (rp_id q)) q p) qs"
  have h: "validate_htss_dkg_round1_set C (honest_round1 C c A) c = Inr ()" "opened C A (honest_round1 C c A)"
    using honest_round1_valid [OF L wf] A by blast+
  have r: "hc_rank_of c (rp_id p) = Some (rp_rank p)"
    using hcr.rank_of_member [OF _ p] wf by (simp add: hc_wf_def)
  have "distinct (map rp_id qs)" "set qs = set (hc_participants c)" "length qs = length (hc_participants c)"
    using qs wf mset_eq_imp_distinct_iff [of "map rp_id qs" "map rp_id (hc_participants c)"]
    by (auto simp: hc_wf_def dest: mset_eq_setD mset_eq_length)
  then have v2: "validate_htss_dkg_round2_set (rp_id p) ?r2 c = Inr ()"
    using p wf r by (auto simp: validate_round2_iff round2_ok_def o_def hc_wf_def rank_val_eq)
  have shares: "\<forall>pkg\<in>set ?r2. scalar_from_bytes C (hd2_share_value_bytes pkg)
      = Some (polynomial_derivative_value (A (hd2_sender pkg)) (pid_val (rp_id p)) (rank_val (rp_rank p)))"
    using secp_lawsD(1) [OF L] by (auto simp: honest_package_def scalar_codecD)
  show ?thesis
  proof (cases "dkg_sum c A ! 0 = 0")
    case False
    then show ?thesis using finalize_opened_iff [OF L wf h(2), of "rp_id p" ?r2] r h(1) v2 shares by auto
  next
    case True
    have "htss_dkg_group_xonly_public_key C (honest_round1 C c A) = Inl (Protocol ''HTSS DKG group key cannot be zero'')"
      using group_key_iff [OF L wf h(1,2)] True by simp
    then show ?thesis
      using share_loop_iff [OF L h(1,2) v2 r, THEN iffD2, OF conjI, OF shares refl] True
      by (simp only: finalize_htss_dkg_def r h(1) v2 rbind.simps ok_or_simps if_True simp_thms)
  qed
qed

lemma finalize_participants_loop:
  assumes "\<And>p. p \<in> set ps \<Longrightarrow> finalize_htss_dkg C (rp_id p) r1
      (filter (\<lambda>package. hd2_recipient package = rp_id p) r2) c = Inr (gk, share p)"
  shows "gko \<in> {None, Some gk} \<Longrightarrow> try_for (finalize_participant C c r1 r2) ps (gko, acc)
    = Inr (if ps = [] then gko else Some gk, acc @ map share ps)"
  using assms
  by (induction ps arbitrary: gko acc) (auto simp: finalize_participant_def)

lemma dkg_sum_drawn:
  assumes "hc_wf c"
  shows "dkg_sum c (drawn_poly c rnd)
    = map (\<lambda>j. \<Sum>k<length (hc_participants c). rnd k j) [0..<unat (hc_threshold c)]"
  using assms by (simp add: dkg_sum_def sum_list_sum_nth atLeast0LessThan drawn_poly_nth)

text \<open>Rounds 1 and 2 of the honest run never fail; the last loop works on the honest packages.\<close>

lemma run_distributed_rounds:
  assumes L: "secp_laws C" and wf: "hc_wf c" and rnd: "\<And>k j. rnd k j \<noteq> 0"
  defines "A \<equiv> drawn_poly c rnd"
  defines "r2 \<equiv> concat (map (\<lambda>q. map (honest_package C (A (rp_id q)) q) (hc_participants c)) (hc_participants c))"
  shows "run_distributed_htss_keygen C rnd c =
    rbind (try_for (finalize_participant C c (honest_round1 C c A) r2) (hc_participants c) (None, []))
      (\<lambda>(group_key, shares). rbind (ok_or group_key (Protocol ''missing HTSS DKG group key''))
        (\<lambda>group_key. Inr \<lparr>ks_group_key = group_key, ks_shares = shares\<rparr>))"
proof -
  let ?ps = "hc_participants c"
  have A: "length (A (rp_id q)) = unat (hc_threshold c) \<and> (\<forall>x\<in>set (A (rp_id q)). x \<noteq> 0)" for q
    using rnd by (simp add: drawn_poly_def A_def)
  note h = honest_round1_valid [where A = A, OF L wf A]
  have "htss_dkg_round1 C (rnd i) (rp_id (?ps ! i)) c = Inr (honest_state C (?ps ! i) (A (rp_id (?ps ! i))))"
    if "i < length ?ps" for i
    using htss_dkg_round1_honest [OF wf nth_mem [OF that], of C "rnd i"] drawn_poly_nth [OF wf that, of rnd] by (simp add: A_def)
  then have "collect (\<lambda>(i, q). htss_dkg_round1 C (rnd i) (rp_id q) c) (enumerate 0 ?ps)
      = Inr (map (\<lambda>(i, q). honest_state C q (A (rp_id q))) (enumerate 0 ?ps))"
    by (intro collect_map_Inr) (auto simp: in_set_enumerate_eq)
  also have "map (\<lambda>(i, q). honest_state C q (A (rp_id q))) (enumerate 0 ?ps)
      = map (\<lambda>q. honest_state C q (A (rp_id q))) ?ps" by (rule map_enumerate)
  finally have "collect (\<lambda>(i, q). htss_dkg_round1 C (rnd i) (rp_id q) c) (enumerate 0 ?ps)
      = Inr (map (\<lambda>q. honest_state C q (A (rp_id q))) ?ps)" .
  moreover have "collect (\<lambda>state. htss_dkg_round2 C state (honest_round1 C c A) c) (map (\<lambda>q. honest_state C q (A (rp_id q))) ?ps)
      = Inr (map (\<lambda>q. map (honest_package C (A (rp_id q)) q) ?ps) ?ps)"
    using htss_dkg_round2_honest [OF L h(1)] A unfolding collect_Inr_iff list_all2_map1 list_all2_map2 list_all2_same
    by blast
  ultimately show ?thesis
    by (simp add: run_distributed_htss_keygen_def Let_def o_def honest_round1_def r2_def)
qed

lemma run_distributed_htss_keygen_dealt:
  assumes L: "secp_laws C" and wf: "hc_wf c" and rnd: "\<And>k j. rnd k j \<noteq> 0"
  defines "s \<equiv> map (\<lambda>j. \<Sum>k<length (hc_participants c). rnd k j) [0..<unat (hc_threshold c)]"
  shows "s ! 0 = 0 \<Longrightarrow>
      run_distributed_htss_keygen C rnd c = Inl (Protocol ''HTSS DKG group key cannot be zero'')"
    and "s ! 0 \<noteq> 0 \<Longrightarrow>
      \<exists>ks. run_distributed_htss_keygen C rnd c = Inr ks \<and> htss_dealt C c (normal_poly C s) ks"
proof -
  let ?ps = "hc_participants c" and ?A = "drawn_poly c rnd"
  have A: "length (?A (rp_id q)) = unat (hc_threshold c) \<and> (\<forall>x\<in>set (?A (rp_id q)). x \<noteq> 0)" for q
    using rnd by (simp add: drawn_poly_def)
  have s: "dkg_sum c ?A = s" using wf by (simp add: dkg_sum_drawn s_def)
  have ps: "?ps \<noteq> []" "distinct (map rp_id ?ps)" and t: "s \<noteq> []" using wf by (auto simp: hc_wf_def s_def)
  define r2 where "r2 = concat (map (\<lambda>q. map (honest_package C (?A (rp_id q)) q) ?ps) ?ps)"
  have run: "run_distributed_htss_keygen C rnd c =
    rbind (try_for (finalize_participant C c (honest_round1 C c ?A) r2) ?ps (None, []))
      (\<lambda>(group_key, shares). rbind (ok_or group_key (Protocol ''missing HTSS DKG group key''))
        (\<lambda>group_key. Inr \<lparr>ks_group_key = group_key, ks_shares = shares\<rparr>))"
    unfolding r2_def using L wf rnd by (rule run_distributed_rounds)
  have fin: "finalize_htss_dkg C (rp_id p) (honest_round1 C c ?A) (filter (\<lambda>package. hd2_recipient package = rp_id p) r2) c
      = (if s ! 0 = 0 then Inl (Protocol ''HTSS DKG group key cannot be zero'')
         else Inr (dkg_output C (normal_poly C s) (rp_id p) (rp_rank p)))" if p: "p \<in> set ?ps" for p
    using finalize_honest [where A = ?A, OF L wf p refl A] unfolding r2_def packages_for_participant [OF ps(2) p] s .
  show "run_distributed_htss_keygen C rnd c = Inl (Protocol ''HTSS DKG group key cannot be zero'')" if "s ! 0 = 0"
    using ps(1) that fin by (cases ?ps) (simp_all add: run finalize_participant_def)
  assume nz: "s ! 0 \<noteq> 0"
  let ?gk = "\<lparr>gk_xonly_public_key = to_xonly_bytes C (g_mul C (normal_poly C s ! 0) (base_point C)),
    gk_verification_key_bytes = []\<rparr>"
  have "try_for (finalize_participant C c (honest_round1 C c ?A) r2) ?ps (None, [])
      = Inr (Some ?gk, map (deal_share C (normal_poly C s)) ?ps)"
    using finalize_participants_loop [where share = "deal_share C (normal_poly C s)" and gk = ?gk and ps = ?ps
        and gko = None and acc = "[]" and C = C and c = c and ?r2.0 = r2 and ?r1.0 = "honest_round1 C c ?A"]
      fin nz ps(1) by (simp add: dkg_output_def deal_share_def)
  moreover have "length s = unat (hc_threshold c)" "normal_poly C s \<noteq> []"
    using t by (simp_all add: s_def normal_poly_def)
  ultimately show "\<exists>ks. run_distributed_htss_keygen C rnd c = Inr ks \<and> htss_dealt C c (normal_poly C s) ks"
    using normal_poly_even [OF L t nz] by (auto simp: run htss_dealt_def)
qed

end
