(* ===== verification/Htss_Signing.thy ===== *)
theory Htss_Signing
  imports Htss_Dkg
begin

text \<open>
  HTSS threshold signing of \<open>dkgkit-frost/src/lib.rs\<close>: nonces, signature shares,
  aggregation, the variants for a tweaked Taproot output key, the local convenience
  signers and their grouped wrappers. The two validators of package sets meet one
  contract, the locale \<open>signer_package_set\<close>; the lemmas about sums over a complete set
  are proved in it once.
\<close>

section \<open>Data\<close>

record HtssNoncePackage =
  hn_participant_id :: ParticipantId
  hn_signing_session_id :: SessionId
  hn_public_nonce_bytes :: bytes

record HtssLocalNonce =
  hln_package :: HtssNoncePackage
  hln_secret_nonce_bytes :: bytes

record HtssSignatureSharePackage =
  hss_participant_id :: ParticipantId
  hss_signing_session_id :: SessionId
  hss_signature_share_bytes :: bytes

record 'p AggregateHtssNonce =
  ahn_signing_session_id :: SessionId
  ahn_even_public_nonce :: 'p
  ahn_negated :: bool

section \<open>Validation of package sets\<close>

text \<open>The body of the loop of \<open>validate_htss_nonce_set\<close>, on \<open>(seen, session_id)\<close>.\<close>

definition check_htss_nonce ::
    "ParticipantId list \<Rightarrow> HtssNoncePackage \<Rightarrow> ParticipantId set \<times> SessionId option
      \<Rightarrow> (ParticipantId set \<times> SessionId option) result" where
  "check_htss_nonce signer_set nonce st =
     (let (seen, session_id) = st in
      rbind (ensure (hn_participant_id nonce \<in> set signer_set)
               (Protocol (fmt [''HTSS nonce participant '', show_u16 (pid_val (hn_participant_id nonce)),
                  '' is not in signer set'']))) (\<lambda>_.
      rbind (ensure (hn_participant_id nonce \<notin> seen) (DuplicateParticipantId (pid_val (hn_participant_id nonce)))) (\<lambda>_.
      rbind (case session_id of
               Some existing \<Rightarrow>
                 if existing \<noteq> hn_signing_session_id nonce then Inl (Protocol ''HTSS nonce session mismatch'')
                 else Inr (Some existing)
             | None \<Rightarrow> Inr (Some (hn_signing_session_id nonce))) (\<lambda>session_id.
      Inr (insert (hn_participant_id nonce) seen, session_id)))))"

definition validate_htss_nonce_set :: "HtssNoncePackage list \<Rightarrow> ParticipantId list \<Rightarrow> unit result" where
  "validate_htss_nonce_set nonces signer_set =
     rbind (try_for (check_htss_nonce signer_set) nonces ({}, None)) (\<lambda>(seen, session_id).
     ensure (card seen = length signer_set)
       (Protocol (fmt [''HTSS nonce set mismatch: have '', show_nat (card seen),
          '', need '', show_nat (length signer_set)])))"

definition check_htss_signature_share ::
    "ParticipantId list \<Rightarrow> HtssSignatureSharePackage \<Rightarrow> ParticipantId set \<times> SessionId option
      \<Rightarrow> (ParticipantId set \<times> SessionId option) result" where
  "check_htss_signature_share signer_set share st =
     (let (seen, session_id) = st in
      rbind (ensure (hss_participant_id share \<in> set signer_set)
               (Protocol (fmt [''HTSS signature share participant '', show_u16 (pid_val (hss_participant_id share)),
                  '' is not in signer set'']))) (\<lambda>_.
      rbind (ensure (hss_participant_id share \<notin> seen) (DuplicateParticipantId (pid_val (hss_participant_id share)))) (\<lambda>_.
      rbind (case session_id of
               Some existing \<Rightarrow>
                 if existing \<noteq> hss_signing_session_id share then Inl (Protocol ''HTSS signature share session mismatch'')
                 else Inr (Some existing)
             | None \<Rightarrow> Inr (Some (hss_signing_session_id share))) (\<lambda>session_id.
      Inr (insert (hss_participant_id share) seen, session_id)))))"

definition validate_htss_signature_share_set ::
    "HtssSignatureSharePackage list \<Rightarrow> ParticipantId list \<Rightarrow> unit result" where
  "validate_htss_signature_share_set shares signer_set =
     rbind (try_for (check_htss_signature_share signer_set) shares ({}, None)) (\<lambda>(seen, session_id).
     ensure (card seen = length signer_set)
       (Protocol (fmt [''HTSS signature share set mismatch: have '', show_nat (card seen),
          '', need '', show_nat (length signer_set)])))"

section \<open>Nonces\<close>

text \<open>\<open>nonce\<close> is the scalar drawn in the call.\<close>

definition htss_nonce ::
    "('f, 'p) secp \<Rightarrow> 'f \<Rightarrow> SessionId \<Rightarrow> HtssLocalKeyShare \<Rightarrow> HtssLocalNonce result" where
  "htss_nonce C nonce signing_session_id local_share =
     (let public_nonce = g_mul C nonce (base_point C) in
      Inr \<lparr>hln_package = \<lparr>hn_participant_id = hs_participant_id local_share,
                          hn_signing_session_id = signing_session_id,
                          hn_public_nonce_bytes = point_to_bytes C public_nonce\<rparr>,
           hln_secret_nonce_bytes = scalar_to_bytes C nonce\<rparr>)"

definition nonce_public_nonce_bytes :: "HtssNoncePackage \<Rightarrow> bytes result" where
  "nonce_public_nonce_bytes nonce =
     rbind (ensure (length (hn_public_nonce_bytes nonce) = 33)
              (Protocol (fmt [''HTSS public nonce for participant '', show_u16 (pid_val (hn_participant_id nonce)),
                 '' must be 33 bytes'']))) (\<lambda>_. Inr (hn_public_nonce_bytes nonce))"

text \<open>The body of the loop over the nonces, up to the addition.\<close>

definition public_nonce_point :: "('f, 'p) secp \<Rightarrow> HtssNoncePackage \<Rightarrow> 'p result" where
  "public_nonce_point C nonce =
     rbind (nonce_public_nonce_bytes nonce) (\<lambda>bytes.
     ok_or (point_from_bytes C bytes)
       (Protocol (fmt [''invalid HTSS public nonce for participant '', show_u16 (pid_val (hn_participant_id nonce))])))"

definition aggregate_htss_public_nonce ::
    "('f, 'p::ab_group_add) secp \<Rightarrow> HtssNoncePackage list \<Rightarrow> ParticipantId list \<Rightarrow> 'p AggregateHtssNonce result" where
  "aggregate_htss_public_nonce C nonces signer_set =
     rbind (validate_htss_nonce_set nonces signer_set) (\<lambda>_.
     rbind (ok_or (case nonces of [] \<Rightarrow> None | n # _ \<Rightarrow> Some n) (Protocol ''missing HTSS nonce set'')) (\<lambda>first.
     rbind (try_for (\<lambda>nonce aggregate. rbind (public_nonce_point C nonce)
               (\<lambda>public_nonce. Inr (aggregate + public_nonce))) nonces 0) (\<lambda>aggregate.
     rbind (ensure (aggregate \<noteq> 0) (Protocol ''HTSS aggregate nonce cannot be zero'')) (\<lambda>_.
     let (even_public_nonce, negated) = even_y C aggregate
     in Inr \<lparr>ahn_signing_session_id = hn_signing_session_id first,
             ahn_even_public_nonce = even_public_nonce, ahn_negated = negated\<rparr>))))"

section \<open>Signature shares\<close>

text \<open>
  \<open>htss_sign_share\<close> and \<open>htss_sign_share_for_output\<close> begin and end with the same
  statements: the checks that give the signer's coefficient and the aggregate nonce, and
  the decoding of the signer's nonce and weighted share.
\<close>

definition htss_signing_context ::
    "('f::field, 'p::ab_group_add) secp \<Rightarrow> HtssLocalKeyShare \<Rightarrow> HtssLocalNonce \<Rightarrow> HtssNoncePackage list
      \<Rightarrow> ParticipantId list \<Rightarrow> HierarchicalThresholdConfig \<Rightarrow> (BirkhoffCoefficient \<times> 'p AggregateHtssNonce) result" where
  "htss_signing_context C local_share nonce nonces signer_set config =
     (let i = hs_participant_id local_share in
      rbind (ensure (i = hn_participant_id (hln_package nonce))
               (Protocol (fmt [''HTSS nonce participant mismatch: share '', show_u16 (pid_val i),
                  '', nonce '', show_u16 (pid_val (hn_participant_id (hln_package nonce)))]))) (\<lambda>_.
      rbind (ensure (i \<in> set signer_set)
               (Protocol (fmt [''participant '', show_u16 (pid_val i), '' is not in HTSS signer set'']))) (\<lambda>_.
      rbind (birkhoff_points_from_hierarchical_signer_set signer_set config) (\<lambda>points.
      rbind (birkhoff_interpolation_coefficients C points) (\<lambda>coefficients.
      rbind (ok_or (find (\<lambda>coefficient. bc_participant_id coefficient = i) coefficients)
               (MissingRankedParticipant (pid_val i))) (\<lambda>coefficient.
      rbind (ensure (hs_rank local_share = bc_derivative_order coefficient)
               (Protocol (fmt [''HTSS share rank mismatch for participant '', show_u16 (pid_val i), '': share rank '',
                  show_u16 (hs_rank local_share), '', coefficient rank '', show_u16 (bc_derivative_order coefficient)]))) (\<lambda>_.
      rbind (aggregate_htss_public_nonce C nonces signer_set) (\<lambda>aggregate_nonce.
      rbind (ensure (ahn_signing_session_id aggregate_nonce = hn_signing_session_id (hln_package nonce))
               (Protocol ''HTSS aggregate nonce session mismatch'')) (\<lambda>_.
      Inr (coefficient, aggregate_nonce))))))))))"

definition htss_secret_terms ::
    "('f::field, 'p) secp \<Rightarrow> HtssLocalKeyShare \<Rightarrow> HtssLocalNonce \<Rightarrow> BirkhoffCoefficient \<Rightarrow> bool \<Rightarrow> ('f \<times> 'f) result" where
  "htss_secret_terms C local_share nonce coefficient negated =
     rbind (ok_or (scalar_from_bytes C (hln_secret_nonce_bytes nonce))
              (Protocol (fmt [''invalid HTSS secret nonce scalar for participant '',
                 show_u16 (pid_val (hn_participant_id (hln_package nonce)))]))) (\<lambda>secret_nonce.
     let secret_nonce = conditional_negate negated secret_nonce in
     rbind (ok_or (scalar_from_bytes C (bc_coefficient_bytes coefficient))
              (Protocol (fmt [''invalid Birkhoff coefficient scalar for participant '',
                 show_u16 (pid_val (bc_participant_id coefficient))]))) (\<lambda>coefficient_value.
     rbind (ok_or (scalar_from_bytes C (hs_share_value_bytes local_share))
              (Protocol (fmt [''invalid HTSS share scalar for participant '',
                 show_u16 (pid_val (hs_participant_id local_share))]))) (\<lambda>share_value.
     Inr (secret_nonce, scalar_mul coefficient_value share_value))))"

definition htss_sign_share ::
    "('f::field, 'p::ab_group_add) secp \<Rightarrow> GroupKey \<Rightarrow> bytes \<Rightarrow> HtssLocalKeyShare \<Rightarrow> HtssLocalNonce
      \<Rightarrow> HtssNoncePackage list \<Rightarrow> ParticipantId list \<Rightarrow> HierarchicalThresholdConfig \<Rightarrow> HtssSignatureSharePackage result" where
  "htss_sign_share C group_key digest local_share nonce nonces signer_set config =
     rbind (htss_signing_context C local_share nonce nonces signer_set config) (\<lambda>(coefficient, aggregate_nonce).
     rbind (ok_or (from_xonly_bytes C (gk_xonly_public_key group_key))
              (Protocol ''invalid HTSS group x-only public key'')) (\<lambda>group_public_key.
     let challenge = schnorr_challenge C (ahn_even_public_nonce aggregate_nonce) group_public_key (frost_message digest) in
     rbind (htss_secret_terms C local_share nonce coefficient (ahn_negated aggregate_nonce)) (\<lambda>(secret_nonce, weighted_share).
     let challenge_share = scalar_mul challenge weighted_share;
         signature_share = scalar_add secret_nonce challenge_share
     in Inr \<lparr>hss_participant_id = hs_participant_id local_share,
             hss_signing_session_id = hn_signing_session_id (hln_package nonce),
             hss_signature_share_bytes = scalar_to_bytes C signature_share\<rparr>)))"

definition htss_sign_share_for_output ::
    "('f::field, 'p::ab_group_add) secp \<Rightarrow> GroupKey \<Rightarrow> bytes \<Rightarrow> bytes \<Rightarrow> bool \<Rightarrow> HtssLocalKeyShare \<Rightarrow> HtssLocalNonce
      \<Rightarrow> HtssNoncePackage list \<Rightarrow> ParticipantId list \<Rightarrow> HierarchicalThresholdConfig \<Rightarrow> HtssSignatureSharePackage result" where
  "htss_sign_share_for_output C group_key digest output_xonly negate_key local_share nonce nonces signer_set config =
     rbind (htss_signing_context C local_share nonce nonces signer_set config) (\<lambda>(coefficient, aggregate_nonce).
     rbind (ok_or (from_xonly_bytes C output_xonly)
              (Protocol ''invalid HTSS output x-only public key'')) (\<lambda>output_public_key.
     let challenge = schnorr_challenge C (ahn_even_public_nonce aggregate_nonce) output_public_key (frost_message digest) in
     rbind (htss_secret_terms C local_share nonce coefficient (ahn_negated aggregate_nonce)) (\<lambda>(secret_nonce, weighted_share).
     let key_challenge = conditional_negate negate_key challenge;
         challenge_share = scalar_mul key_challenge weighted_share;
         signature_share = scalar_add secret_nonce challenge_share
     in Inr \<lparr>hss_participant_id = hs_participant_id local_share,
             hss_signing_session_id = hn_signing_session_id (hln_package nonce),
             hss_signature_share_bytes = scalar_to_bytes C signature_share\<rparr>)))"

section \<open>Aggregation\<close>

text \<open>The body of the loop over the shares, up to the addition.\<close>

definition signature_share_value :: "('f, 'p) secp \<Rightarrow> HtssSignatureSharePackage \<Rightarrow> 'f result" where
  "signature_share_value C share =
     ok_or (scalar_from_bytes C (hss_signature_share_bytes share))
       (Protocol (fmt [''invalid HTSS signature share scalar for participant '',
          show_u16 (pid_val (hss_participant_id share))]))"

definition sum_signature_shares :: "('f::field, 'p) secp \<Rightarrow> HtssSignatureSharePackage list \<Rightarrow> 'f result" where
  "sum_signature_shares C shares =
     try_for (\<lambda>share s. rbind (signature_share_value C share) (\<lambda>share_value. Inr (scalar_add s share_value)))
       shares scalar_zero"

definition aggregate_htss_signature_shares ::
    "('f::field, 'p::ab_group_add) secp \<Rightarrow> GroupKey \<Rightarrow> bytes \<Rightarrow> HtssNoncePackage list \<Rightarrow> HtssSignatureSharePackage list
      \<Rightarrow> ParticipantId list \<Rightarrow> HierarchicalThresholdConfig \<Rightarrow> AggregateSignature result" where
  "aggregate_htss_signature_shares C group_key digest nonces shares signer_set config =
     rbind (validate_hierarchical_signer_set signer_set config) (\<lambda>_.
     rbind (validate_htss_nonce_set nonces signer_set) (\<lambda>_.
     rbind (validate_htss_signature_share_set shares signer_set) (\<lambda>_.
     rbind (aggregate_htss_public_nonce C nonces signer_set) (\<lambda>aggregate_nonce.
     rbind (sum_signature_shares C shares) (\<lambda>s.
     let signature = (ahn_even_public_nonce aggregate_nonce, s) in
     rbind (ok_or (from_xonly_bytes C (gk_xonly_public_key group_key))
              (Protocol ''invalid HTSS group x-only public key'')) (\<lambda>group_public_key.
     rbind (ensure (schnorr_verify C group_public_key (frost_message digest) signature)
              (Protocol ''HTSS aggregate signature verification failed'')) (\<lambda>_.
     AggregateSignature_new (signature_to_bytes C signature))))))))"

definition aggregate_htss_signature_shares_for_output ::
    "('f::field, 'p::ab_group_add) secp \<Rightarrow> bytes \<Rightarrow> bytes \<Rightarrow> bytes \<Rightarrow> HtssNoncePackage list \<Rightarrow> HtssSignatureSharePackage list
      \<Rightarrow> ParticipantId list \<Rightarrow> HierarchicalThresholdConfig \<Rightarrow> AggregateSignature result" where
  "aggregate_htss_signature_shares_for_output C digest output_xonly tweak nonces shares signer_set config =
     rbind (validate_hierarchical_signer_set signer_set config) (\<lambda>_.
     rbind (validate_htss_nonce_set nonces signer_set) (\<lambda>_.
     rbind (validate_htss_signature_share_set shares signer_set) (\<lambda>_.
     rbind (aggregate_htss_public_nonce C nonces signer_set) (\<lambda>aggregate_nonce.
     rbind (sum_signature_shares C shares) (\<lambda>s.
     rbind (ok_or (from_xonly_bytes C output_xonly)
              (Protocol ''invalid HTSS output x-only public key'')) (\<lambda>output_public_key.
     let challenge = schnorr_challenge C (ahn_even_public_nonce aggregate_nonce) output_public_key (frost_message digest) in
     rbind (ok_or (scalar_from_bytes C tweak) (Protocol ''invalid Taproot tweak scalar'')) (\<lambda>tweak_scalar.
     let s = scalar_add s (scalar_mul challenge tweak_scalar);
         signature = (ahn_even_public_nonce aggregate_nonce, s) in
     rbind (ensure (schnorr_verify C output_public_key (frost_message digest) signature)
              (Protocol ''HTSS tweaked aggregate signature verification failed'')) (\<lambda>_.
     AggregateSignature_new (signature_to_bytes C signature)))))))))"

section \<open>Local signers\<close>

definition select_shares ::
    "HtssLocalKeyShare list \<Rightarrow> ParticipantId list \<Rightarrow> HtssLocalKeyShare list result" where
  "select_shares shares signer_set =
     collect (\<lambda>participant_id. ok_or (find (\<lambda>share. hs_participant_id share = participant_id) shares)
        (MissingRankedParticipant (pid_val participant_id))) signer_set"

text \<open>\<open>rnd i\<close> is the nonce drawn for the \<open>i\<close>-th signer.\<close>

definition local_nonces ::
    "('f, 'p) secp \<Rightarrow> (nat \<Rightarrow> 'f) \<Rightarrow> SessionId \<Rightarrow> HtssLocalKeyShare list \<Rightarrow> HtssLocalNonce list result" where
  "local_nonces C rnd signing_session_id selected_shares =
     collect (\<lambda>(i, share). htss_nonce C (rnd i) signing_session_id share) (enumerate 0 selected_shares)"

definition sign_digest_with_local_htss_threshold_shares ::
    "('f::field, 'p::ab_group_add) secp \<Rightarrow> (nat \<Rightarrow> 'f) \<Rightarrow> GroupKey \<Rightarrow> bytes \<Rightarrow> HtssLocalKeyShare list
      \<Rightarrow> ParticipantId list \<Rightarrow> HierarchicalThresholdConfig \<Rightarrow> AggregateSignature result" where
  "sign_digest_with_local_htss_threshold_shares C rnd group_key digest shares signer_set config =
     rbind (select_shares shares signer_set) (\<lambda>selected_shares.
     rbind (SessionId_new ''local-htss-threshold-signing'') (\<lambda>signing_session_id.
     rbind (local_nonces C rnd signing_session_id selected_shares) (\<lambda>nonces.
     let public_nonces = map hln_package nonces in
     rbind (collect (\<lambda>(share, nonce).
               htss_sign_share C group_key digest share nonce public_nonces signer_set config)
              (zip selected_shares nonces)) (\<lambda>signature_shares.
     aggregate_htss_signature_shares C group_key digest public_nonces signature_shares signer_set config))))"

definition sign_digest_with_local_htss_threshold_shares_for_output ::
    "('f::field, 'p::ab_group_add) secp \<Rightarrow> (nat \<Rightarrow> 'f) \<Rightarrow> GroupKey \<Rightarrow> bytes \<Rightarrow> bytes \<Rightarrow> bytes \<Rightarrow> bool
      \<Rightarrow> HtssLocalKeyShare list \<Rightarrow> ParticipantId list \<Rightarrow> HierarchicalThresholdConfig \<Rightarrow> AggregateSignature result" where
  "sign_digest_with_local_htss_threshold_shares_for_output C rnd group_key digest output_xonly tweak negate_key
       shares signer_set config =
     rbind (select_shares shares signer_set) (\<lambda>selected_shares.
     rbind (SessionId_new ''local-htss-threshold-output-signing'') (\<lambda>signing_session_id.
     rbind (local_nonces C rnd signing_session_id selected_shares) (\<lambda>nonces.
     let public_nonces = map hln_package nonces in
     rbind (collect (\<lambda>(share, nonce).
               htss_sign_share_for_output C group_key digest output_xonly negate_key share nonce public_nonces
                 signer_set config)
              (zip selected_shares nonces)) (\<lambda>signature_shares.
     aggregate_htss_signature_shares_for_output C digest output_xonly tweak public_nonces signature_shares
       signer_set config))))"

definition sign_digest_with_local_grouped_htss_threshold_shares ::
    "('f::field, 'p::ab_group_add) secp \<Rightarrow> (nat \<Rightarrow> 'f) \<Rightarrow> GroupKey \<Rightarrow> bytes \<Rightarrow> HtssLocalKeyShare list
      \<Rightarrow> ParticipantId list \<Rightarrow> GroupedThresholdConfig \<Rightarrow> AggregateSignature result" where
  "sign_digest_with_local_grouped_htss_threshold_shares C rnd group_key digest shares signer_set config =
     rbind (validate_grouped_threshold_signer_set signer_set config) (\<lambda>_.
     rbind (hierarchical_config_from_grouped_threshold config) (\<lambda>hierarchical.
     sign_digest_with_local_htss_threshold_shares C rnd group_key digest shares signer_set hierarchical))"

definition sign_digest_with_local_grouped_htss_threshold_shares_for_output ::
    "('f::field, 'p::ab_group_add) secp \<Rightarrow> (nat \<Rightarrow> 'f) \<Rightarrow> GroupKey \<Rightarrow> bytes \<Rightarrow> bytes \<Rightarrow> bytes \<Rightarrow> bool
      \<Rightarrow> HtssLocalKeyShare list \<Rightarrow> ParticipantId list \<Rightarrow> GroupedThresholdConfig \<Rightarrow> AggregateSignature result" where
  "sign_digest_with_local_grouped_htss_threshold_shares_for_output C rnd group_key digest output_xonly tweak negate_key
       shares signer_set config =
     rbind (validate_grouped_threshold_signer_set signer_set config) (\<lambda>_.
     rbind (hierarchical_config_from_grouped_threshold config) (\<lambda>hierarchical.
     sign_digest_with_local_htss_threshold_shares_for_output C rnd group_key digest output_xonly tweak negate_key
       shares signer_set hierarchical))"

section \<open>The contract of the set validators\<close>

locale signer_package_set =
  fixes validate :: "'k list \<Rightarrow> ParticipantId list \<Rightarrow> unit result"
    and pid :: "'k \<Rightarrow> ParticipantId" and sid :: "'k \<Rightarrow> SessionId"
  assumes validate_iff: "validate pkgs signers = Inr u \<longleftrightarrow>
    (\<forall>k\<in>set pkgs. pid k \<in> set signers) \<and> distinct (map pid pkgs)
    \<and> (\<forall>k\<in>set pkgs. \<forall>l\<in>set pkgs. sid k = sid l) \<and> length pkgs = length signers"
begin

lemma complete: "validate pkgs signers = Inr u \<Longrightarrow> mset (map pid pkgs) = mset signers"
  by (intro distinct_perm_mset) (auto simp: validate_iff)

lemma sum_over_set:
  fixes f :: "ParticipantId \<Rightarrow> 'a::comm_monoid_add"
  assumes "validate pkgs signers = Inr u"
  shows "(\<Sum>k\<leftarrow>pkgs. f (pid k)) = (\<Sum>x\<leftarrow>signers. f x)"
  using sum_list_mset_cong [OF complete [OF assms], of f] by (simp add: o_def)

lemma one_session: "validate pkgs signers = Inr u \<Longrightarrow> k \<in> set pkgs \<Longrightarrow> l \<in> set pkgs \<Longrightarrow> sid k = sid l"
  unfolding validate_iff by blast

lemma order_irrelevant:
  assumes "mset pkgs = mset pkgs'"
  shows "validate pkgs signers = Inr u \<longleftrightarrow> validate pkgs' signers = Inr u"
proof -
  have "distinct (map pid pkgs) \<longleftrightarrow> distinct (map pid pkgs')"
    by (rule mset_eq_imp_distinct_iff) (simp add: assms)
  then show ?thesis using mset_eq_setD [OF assms] mset_eq_length [OF assms] by (simp add: validate_iff)
qed

lemma accepts_one_per_signer:
  assumes "distinct signers" "mset pkgs = mset (map g signers)" "\<And>x. x \<in> set signers \<Longrightarrow> pid (g x) = x \<and> sid (g x) = s"
  shows "validate pkgs signers = Inr ()"
proof -
  have "map (pid \<circ> g) signers = signers" using assms(3) by (intro map_idI) simp
  then have "validate (map g signers) signers = Inr ()"
    using assms(1,3) by (auto simp: validate_iff)
  then show ?thesis using order_irrelevant [OF assms(2)] by simp
qed

end

lemma check_htss_nonce_iff:
  "check_htss_nonce signers n (seen, sid) = Inr st \<longleftrightarrow> hn_participant_id n \<in> set signers
    \<and> hn_participant_id n \<notin> seen \<and> (sid = None \<or> sid = Some (hn_signing_session_id n))
    \<and> st = (insert (hn_participant_id n) seen, Some (hn_signing_session_id n))"
  by (auto simp: check_htss_nonce_def rbind_Inr_iff ensure_Inr_iff split: option.splits)

lemma check_htss_signature_share_iff:
  "check_htss_signature_share signers n (seen, sid) = Inr st \<longleftrightarrow> hss_participant_id n \<in> set signers
    \<and> hss_participant_id n \<notin> seen \<and> (sid = None \<or> sid = Some (hss_signing_session_id n))
    \<and> st = (insert (hss_participant_id n) seen, Some (hss_signing_session_id n))"
  by (auto simp: check_htss_signature_share_def rbind_Inr_iff ensure_Inr_iff split: option.splits)

lemma card_distinct_image: "distinct (map f xs) \<Longrightarrow> card (f ` set xs) = length xs"
  using distinct_card [of "map f xs"] by simp

interpretation nonces: signer_package_set validate_htss_nonce_set hn_participant_id hn_signing_session_id
proof
  fix pkgs signers and u :: unit
  show "validate_htss_nonce_set pkgs signers = Inr u \<longleftrightarrow>
    (\<forall>k\<in>set pkgs. hn_participant_id k \<in> set signers) \<and> distinct (map hn_participant_id pkgs)
    \<and> (\<forall>k\<in>set pkgs. \<forall>l\<in>set pkgs. hn_signing_session_id k = hn_signing_session_id l)
    \<and> length pkgs = length signers"
    unfolding validate_htss_nonce_set_def rbind_Inr_iff
      try_for_distinct_tagged_iff [where f = "check_htss_nonce signers", OF check_htss_nonce_iff]
    by (auto simp: ensure_Inr_iff card_distinct_image tags_equal_iff)
qed

interpretation sig_shares: signer_package_set validate_htss_signature_share_set hss_participant_id hss_signing_session_id
proof
  fix pkgs signers and u :: unit
  show "validate_htss_signature_share_set pkgs signers = Inr u \<longleftrightarrow>
    (\<forall>k\<in>set pkgs. hss_participant_id k \<in> set signers) \<and> distinct (map hss_participant_id pkgs)
    \<and> (\<forall>k\<in>set pkgs. \<forall>l\<in>set pkgs. hss_signing_session_id k = hss_signing_session_id l)
    \<and> length pkgs = length signers"
    unfolding validate_htss_signature_share_set_def rbind_Inr_iff
      try_for_distinct_tagged_iff [where f = "check_htss_signature_share signers", OF check_htss_signature_share_iff]
    by (auto simp: ensure_Inr_iff card_distinct_image tags_equal_iff)
qed

section \<open>The aggregate nonce\<close>

text \<open>\<open>k\<close> gives the secret nonces behind a set of nonce packages.\<close>

definition nonces_of ::
    "('f, 'p) secp \<Rightarrow> (ParticipantId \<Rightarrow> 'f) \<Rightarrow> SessionId \<Rightarrow> HtssNoncePackage list \<Rightarrow> bool" where
  "nonces_of C k sid ns \<longleftrightarrow> (\<forall>n\<in>set ns. hn_signing_session_id n = sid
     \<and> hn_public_nonce_bytes n = point_to_bytes C (g_mul C (k (hn_participant_id n)) (base_point C)))"

definition aggregate_nonce_of ::
    "('f::field, 'p) secp \<Rightarrow> (ParticipantId \<Rightarrow> 'f) \<Rightarrow> SessionId \<Rightarrow> ParticipantId list \<Rightarrow> 'p AggregateHtssNonce" where
  "aggregate_nonce_of C k sid signers =
     (let R = g_mul C (\<Sum>x\<leftarrow>signers. k x) (base_point C)
      in \<lparr>ahn_signing_session_id = sid, ahn_even_public_nonce = fst (even_y C R), ahn_negated = snd (even_y C R)\<rparr>)"

lemma public_nonce_point_of:
  assumes L: "secp_laws C" and n: "hn_public_nonce_bytes n = point_to_bytes C (g_mul C x (base_point C))" and x: "x \<noteq> 0"
  shows "public_nonce_point C n = Inr (g_mul C x (base_point C))"
proof -
  note laws = secp_lawsD [OF L]
  have "g_mul C x (base_point C) \<noteq> 0" using x laws(2) by (simp add: g_mul_G_eq_0_iff)
  then show ?thesis
    using laws(3) by (simp add: public_nonce_point_def nonce_public_nonce_bytes_def n point_to_bytes_length point_from_to_bytes)
qed

lemma aggregate_htss_public_nonce_of:
  assumes L: "secp_laws C" and v: "validate_htss_nonce_set ns signers = Inr ()" and ne: "signers \<noteq> []"
    and n: "nonces_of C k sid ns" and k: "\<And>x. x \<in> set signers \<Longrightarrow> k x \<noteq> 0"
  shows "aggregate_htss_public_nonce C ns signers =
    (if (\<Sum>x\<leftarrow>signers. k x) = 0 then Inl (Protocol ''HTSS aggregate nonce cannot be zero'')
     else Inr (aggregate_nonce_of C k sid signers))"
proof -
  note laws = secp_lawsD [OF L]
  let ?G = "base_point C"
  have mem: "hn_participant_id n \<in> set signers" if "n \<in> set ns" for n
    using that v by (simp add: nonces.validate_iff)
  have point: "public_nonce_point C n = Inr (g_mul C (k (hn_participant_id n)) ?G)" if p: "n \<in> set ns" for n
    using n p k [OF mem [OF p]] by (intro public_nonce_point_of [OF L]) (simp_all add: nonces_of_def)
  have "(\<Sum>n\<leftarrow>ns. g_mul C (k (hn_participant_id n)) ?G) = g_mul C (\<Sum>x\<leftarrow>signers. k x) ?G"
    using nonces.sum_over_set [OF v, of "\<lambda>x. g_mul C (k x) ?G"] laws(2) by (simp add: g_mul_sum_list)
  then have agg: "try_for (\<lambda>nonce aggregate. rbind (public_nonce_point C nonce)
      (\<lambda>public_nonce. Inr (aggregate + public_nonce))) ns 0 = Inr (g_mul C (\<Sum>x\<leftarrow>signers. k x) ?G)"
    using try_for_sum [of ns "public_nonce_point C", OF point] by simp
  from v ne obtain m ms where "ns = m # ms" by (cases ns) (auto simp: nonces.validate_iff)
  with n agg v laws(2) show ?thesis
    by (auto simp: aggregate_htss_public_nonce_def nonces_of_def aggregate_nonce_of_def g_mul_G_eq_0_iff Let_def
        split: prod.splits)
qed

section \<open>Signature shares of a quorum\<close>

lemma quorum_weight_fun:
  assumes wf: "hc_wf c" and pts: "birkhoff_points_from_hierarchical_signer_set signers c = Inr points"
    and cs: "birkhoff_interpolation_coefficients C points = Inr cs"
  shows "\<exists>W. cs = map (\<lambda>x. coefficient_of C (signer_point c x, W x)) signers
    \<and> (\<forall>p. p \<noteq> [] \<and> length p \<le> length signers \<longrightarrow> (\<Sum>x\<leftarrow>signers.
         W x * polynomial_derivative_value p (pid_val x) (rank_val (the (hc_rank_of c x)))) = p ! 0)"
proof -
  from quorum_weights [OF wf pts cs] obtain w where w: "interpolates (map (signer_point c) signers) w"
    and cs': "cs = map (coefficient_of C) (zip (map (signer_point c) signers) w)" by blast
  have d: "distinct signers" using pts wf by (simp add: birkhoff_points_iff hierarchical_quorum_def)
  have len: "length w = length signers" using w by (simp add: interpolates_def)
  define W where "W x = the (map_of (zip signers w) x)" for x
  have zip: "zip signers w = map (\<lambda>x. (x, W x)) signers"
    using d len by (intro nth_equalityI) (simp_all add: W_def map_of_zip_nth)
  then have "cs = map (\<lambda>x. coefficient_of C (signer_point c x, W x)) signers"
    unfolding cs' zip_map1 by (simp add: zip)
  moreover have "(\<Sum>x\<leftarrow>signers. W x * polynomial_derivative_value p (pid_val x) (rank_val (the (hc_rank_of c x)))) = p ! 0"
    if "p \<noteq> []" "length p \<le> length signers" for p
    using interpolates_signers [OF w that(2,1)] unfolding zip by (simp add: o_def)
  ultimately show ?thesis by blast
qed

text \<open>What a signer \<open>x\<close> brings: its share of the key polynomial \<open>p\<close> and its nonce \<open>k\<close>.\<close>

definition holds_share ::
    "('f::field, 'p) secp \<Rightarrow> HierarchicalThresholdConfig \<Rightarrow> 'f list \<Rightarrow> ParticipantId \<Rightarrow> HtssLocalKeyShare \<Rightarrow> bool" where
  "holds_share C c p x s \<longleftrightarrow> hs_participant_id s = x \<and> hs_rank s = rank_val (the (hc_rank_of c x))
     \<and> scalar_from_bytes C (hs_share_value_bytes s)
         = Some (polynomial_derivative_value p (pid_val x) (rank_val (the (hc_rank_of c x))))"

definition holds_nonce :: "('f, 'p) secp \<Rightarrow> SessionId \<Rightarrow> 'f \<Rightarrow> ParticipantId \<Rightarrow> HtssLocalNonce \<Rightarrow> bool" where
  "holds_nonce C sid k x n \<longleftrightarrow> hn_participant_id (hln_package n) = x \<and> hn_signing_session_id (hln_package n) = sid
     \<and> scalar_from_bytes C (hln_secret_nonce_bytes n) = Some k"

lemma dealt_holds_share:
  assumes codec: "scalar_codec_ok C" and wf: "hc_wf c" and d: "htss_dealt C c p ks" and s: "s \<in> set (ks_shares ks)"
  shows "holds_share C c p (hs_participant_id s) s"
proof -
  from d s obtain q where q: "q \<in> set (hc_participants c)" "s = deal_share C p q" by (auto simp: htss_dealt_def)
  have "hc_rank_of c (rp_id q) = Some (rp_rank q)" using hcr.rank_of_member [OF _ q(1)] wf by (simp add: hc_wf_def)
  then show ?thesis using codec by (simp add: holds_share_def q(2)) (simp add: deal_share_def scalar_codecD)
qed

lemma htss_nonce_holds: "scalar_codec_ok C \<Longrightarrow> htss_nonce C k sid s = Inr n \<Longrightarrow> holds_nonce C sid k (hs_participant_id s) n"
  by (auto simp: htss_nonce_def Let_def holds_nonce_def scalar_codecD)

definition share_scalar ::
    "('f::field, 'p) secp \<Rightarrow> HierarchicalThresholdConfig \<Rightarrow> 'f list \<Rightarrow> (ParticipantId \<Rightarrow> 'f) \<Rightarrow> (ParticipantId \<Rightarrow> 'f)
      \<Rightarrow> bool \<Rightarrow> 'f \<Rightarrow> ParticipantId \<Rightarrow> 'f" where
  "share_scalar C c p W k negated e x = conditional_negate negated (k x)
     + e * (W x * polynomial_derivative_value p (pid_val x) (rank_val (the (hc_rank_of c x))))"

lemma sum_share_scalars:
  "(\<Sum>x\<leftarrow>signers. share_scalar C c p W k negated e x) = conditional_negate negated (\<Sum>x\<leftarrow>signers. k x)
     + e * (\<Sum>x\<leftarrow>signers. W x * polynomial_derivative_value p (pid_val x) (rank_val (the (hc_rank_of c x))))"
  by (induction signers) (auto simp: share_scalar_def conditional_negate_def algebra_simps)

lemma htss_signing_context_honest:
  assumes codec: "scalar_codec_ok C" and x: "x \<in> set signers" "distinct signers"
    and pts: "birkhoff_points_from_hierarchical_signer_set signers c = Inr points"
    and cs: "birkhoff_interpolation_coefficients C points = Inr (map (\<lambda>x. coefficient_of C (signer_point c x, W x)) signers)"
    and agg: "aggregate_htss_public_nonce C ns signers = Inr a" "ahn_signing_session_id a = sid"
    and s: "holds_share C c p x s" and n: "holds_nonce C sid k x n"
  shows "htss_signing_context C s n ns signers c = Inr (coefficient_of C (signer_point c x, W x), a)"
    and "htss_secret_terms C s n (coefficient_of C (signer_point c x, W x)) negated
      = Inr (conditional_negate negated k,
          W x * polynomial_derivative_value p (pid_val x) (rank_val (the (hc_rank_of c x))))"
proof -
  let ?co = "\<lambda>x. coefficient_of C (signer_point c x, W x)"
  have "find (\<lambda>b. bc_participant_id b = bc_participant_id (?co x)) (map ?co signers) = Some (?co x)"
    using x by (intro find_Some_iff_distinct) (auto simp: o_def coefficient_of_def)
  then have find: "find (\<lambda>b. bc_participant_id b = x) (map ?co signers) = Some (?co x)"
    by (simp add: coefficient_of_def)
  show "htss_signing_context C s n ns signers c = Inr (?co x, a)"
    using s n x(1) agg by (simp add: htss_signing_context_def pts cs find holds_share_def holds_nonce_def)
      (simp add: coefficient_of_def)
  show "htss_secret_terms C s n (?co x) negated = Inr (conditional_negate negated k,
      W x * polynomial_derivative_value p (pid_val x) (rank_val (the (hc_rank_of c x))))"
    using s n codec by (simp add: htss_secret_terms_def holds_share_def holds_nonce_def coefficient_of_def
        scalar_codecD scalar_mul_def Let_def)
qed

section \<open>An honest signing round verifies\<close>

definition honest_round ::
    "('f::field, 'p) secp \<Rightarrow> HierarchicalThresholdConfig \<Rightarrow> 'f list \<Rightarrow> SessionId \<Rightarrow> (ParticipantId \<Rightarrow> 'f)
      \<Rightarrow> ParticipantId list \<Rightarrow> HtssNoncePackage list \<Rightarrow> (ParticipantId \<Rightarrow> HtssLocalKeyShare)
      \<Rightarrow> (ParticipantId \<Rightarrow> HtssLocalNonce) \<Rightarrow> bool" where
  "honest_round C c p sid k signers ns ls lno \<longleftrightarrow>
     (\<forall>x\<in>set signers. holds_share C c p x (ls x) \<and> holds_nonce C sid (k x) x (lno x) \<and> k x \<noteq> 0)
     \<and> (\<Sum>x\<leftarrow>signers. k x) \<noteq> 0 \<and> validate_htss_nonce_set ns signers = Inr () \<and> nonces_of C k sid ns"

text \<open>The message of a signer with signature share \<open>v\<close>.\<close>

definition share_package :: "('f, 'p) secp \<Rightarrow> SessionId \<Rightarrow> ParticipantId \<Rightarrow> 'f \<Rightarrow> HtssSignatureSharePackage" where
  "share_package C sid x v =
     \<lparr>hss_participant_id = x, hss_signing_session_id = sid, hss_signature_share_bytes = scalar_to_bytes C v\<rparr>"

lemma honest_sign_shares:
  fixes C :: "('f::field, 'p::ab_group_add) secp"
  assumes L: "secp_laws C" and r: "honest_round C c p sid k signers ns ls lno" and x: "x \<in> set signers" "distinct signers"
    and pts: "birkhoff_points_from_hierarchical_signer_set signers c = Inr points"
    and cs: "birkhoff_interpolation_coefficients C points = Inr (map (\<lambda>x. coefficient_of C (signer_point c x, W x)) signers)"
  defines "a \<equiv> aggregate_nonce_of C k sid signers"
  shows "from_xonly_bytes C (gk_xonly_public_key gk) = Some X \<Longrightarrow>
      htss_sign_share C gk digest (ls x) (lno x) ns signers c = Inr (share_package C sid x
        (share_scalar C c p W k (ahn_negated a) (schnorr_challenge C (ahn_even_public_nonce a) X (frost_message digest)) x))"
    and "from_xonly_bytes C out = Some X \<Longrightarrow>
      htss_sign_share_for_output C gk digest out negate_key (ls x) (lno x) ns signers c = Inr (share_package C sid x
        (share_scalar C c p W k (ahn_negated a) (conditional_negate negate_key
          (schnorr_challenge C (ahn_even_public_nonce a) X (frost_message digest))) x))"
proof -
  have ne: "signers \<noteq> []" using x(1) by auto
  have agg: "aggregate_htss_public_nonce C ns signers = Inr a"
    using aggregate_htss_public_nonce_of [OF L _ ne, of ns k sid] r by (simp add: honest_round_def a_def)
  have sid: "ahn_signing_session_id a = sid" by (simp add: a_def aggregate_nonce_of_def Let_def)
  have held: "holds_share C c p x (ls x)" "holds_nonce C sid (k x) x (lno x)"
    using r x(1) by (simp_all add: honest_round_def)
  note ctx = htss_signing_context_honest [OF secp_lawsD(1) [OF L] x pts cs agg sid held]
  have ids: "hs_participant_id (ls x) = x" "hn_signing_session_id (hln_package (lno x)) = sid"
    using held by (simp_all add: holds_share_def holds_nonce_def)
  show "htss_sign_share C gk digest (ls x) (lno x) ns signers c = Inr (share_package C sid x
      (share_scalar C c p W k (ahn_negated a) (schnorr_challenge C (ahn_even_public_nonce a) X (frost_message digest)) x))"
    if "from_xonly_bytes C (gk_xonly_public_key gk) = Some X"
    using that ids by (simp add: htss_sign_share_def ctx share_package_def share_scalar_def scalar_op_defs Let_def)
  show "htss_sign_share_for_output C gk digest out negate_key (ls x) (lno x) ns signers c = Inr (share_package C sid x
      (share_scalar C c p W k (ahn_negated a) (conditional_negate negate_key
        (schnorr_challenge C (ahn_even_public_nonce a) X (frost_message digest))) x))"
    if "from_xonly_bytes C out = Some X"
    using that ids by (simp add: htss_sign_share_for_output_def ctx share_package_def share_scalar_def scalar_op_defs Let_def)
qed

lemma sum_signature_shares_of:
  fixes v :: "ParticipantId \<Rightarrow> 'f::field"
  assumes codec: "scalar_codec_ok C" and sh: "mset shares = mset (map (\<lambda>x. share_package C sid x (v x)) signers)"
  shows "sum_signature_shares C shares = Inr (\<Sum>x\<leftarrow>signers. v x)"
proof -
  let ?g = "\<lambda>s. the (scalar_from_bytes C (hss_signature_share_bytes s))"
  have "set shares = (\<lambda>x. share_package C sid x (v x)) ` set signers" using mset_eq_setD [OF sh] by simp
  then have "signature_share_value C s = Inr (?g s)" if "s \<in> set shares" for s
    using that codec by (auto simp: signature_share_value_def share_package_def scalar_codecD)
  from try_for_sum [of shares "signature_share_value C", OF this, of 0]
  have "sum_signature_shares C shares = Inr (\<Sum>s\<leftarrow>shares. ?g s)"
    by (simp add: sum_signature_shares_def scalar_add_def scalar_zero_def)
  also have "(\<Sum>s\<leftarrow>shares. ?g s) = (\<Sum>x\<leftarrow>signers. v x)"
    unfolding sum_list_mset_cong [OF sh] using codec by (simp add: o_def share_package_def scalar_codecD)
  finally show ?thesis .
qed

lemma combined_scalar_verifies:
  assumes L: "secp_laws C" and K: "K \<noteq> 0" and X: "X = g_mul C d (base_point C)" "X \<noteq> 0" "\<not> snd (even_y C X)"
  shows "schnorr_verify C X m (fst (even_y C (g_mul C K (base_point C))),
    conditional_negate (snd (even_y C (g_mul C K (base_point C)))) K
      + schnorr_challenge C (fst (even_y C (g_mul C K (base_point C)))) X m * d)"
proof -
  note laws = secp_lawsD [OF L]
  let ?R = "g_mul C K (base_point C)"
  have R: "?R \<noteq> 0" using K laws(2) by (simp add: g_mul_G_eq_0_iff)
  have "g_mul C (conditional_negate (snd (even_y C ?R)) K) (base_point C) = fst (even_y C ?R)"
    using even_y_fst [OF laws(4) R] laws(2) by (auto simp: conditional_negate_def g_mul_minus)
  then show ?thesis
    using schnorr_verify_iff [OF laws(5) X(2) even_y_fst_nonzero [OF laws(4) R] X(3)] even_y_idem [OF laws(4) R] laws(2)
    by (simp add: g_mul_add g_mul_mult X(1))
qed

text \<open>A quorum whose interpolation system is regular: the hypothesis of every signing lemma.\<close>

definition regular_quorum ::
    "('f::field, 'p) secp \<Rightarrow> HierarchicalThresholdConfig \<Rightarrow> ParticipantId list \<Rightarrow> bool" where
  "regular_quorum C c signers \<longleftrightarrow>
     is_ok (rbind (birkhoff_points_from_hierarchical_signer_set signers c) (birkhoff_interpolation_coefficients C))"

lemma regular_quorumE:
  assumes "regular_quorum C c signers"
  obtains points cs where "birkhoff_points_from_hierarchical_signer_set signers c = Inr points"
    and "birkhoff_interpolation_coefficients C points = Inr cs"
  using assms by (auto simp: regular_quorum_def is_ok_iff rbind_Inr_iff)

lemma regular_quorum_quorum: "hc_wf c \<Longrightarrow> regular_quorum C c signers \<Longrightarrow> hierarchical_quorum c signers"
  by (auto elim!: regular_quorumE simp: birkhoff_points_iff)

lemma regular_quorum_weights:
  assumes wf: "hc_wf c" and q: "regular_quorum C c signers"
  obtains points W where "birkhoff_points_from_hierarchical_signer_set signers c = Inr points"
    and "birkhoff_interpolation_coefficients C points = Inr (map (\<lambda>x. coefficient_of C (signer_point c x, W x)) signers)"
    and "\<And>p. p \<noteq> [] \<Longrightarrow> length p = unat (hc_threshold c) \<Longrightarrow> (\<Sum>x\<leftarrow>signers.
         W x * polynomial_derivative_value p (pid_val x) (rank_val (the (hc_rank_of c x)))) = p ! 0"
proof -
  from q obtain points cs where pts: "birkhoff_points_from_hierarchical_signer_set signers c = Inr points"
    and cs: "birkhoff_interpolation_coefficients C points = Inr cs" by (rule regular_quorumE)
  have "unat (hc_threshold c) \<le> length signers"
    using regular_quorum_quorum [OF wf q] by (simp add: hierarchical_quorum_def)
  then have len: "length p \<le> length signers" if "length p = unat (hc_threshold c)" for p :: "'a list"
    using that by simp
  from quorum_weight_fun [OF wf pts cs] obtain W
    where W: "cs = map (\<lambda>x. coefficient_of C (signer_point c x, W x)) signers"
      "\<And>p. p \<noteq> [] \<Longrightarrow> length p \<le> length signers \<Longrightarrow> (\<Sum>x\<leftarrow>signers.
         W x * polynomial_derivative_value p (pid_val x) (rank_val (the (hc_rank_of c x)))) = p ! 0"
    by blast
  from pts cs [unfolded W(1)] W(2) [OF _ len] show ?thesis by (rule that)
qed

lemma honest_aggregates:
  fixes C :: "('f::field, 'p::ab_group_add) secp"
  assumes L: "secp_laws C" and wf: "hc_wf c" and q: "hierarchical_quorum c signers"
    and r: "honest_round C c p sid k signers ns ls lno"
    and w: "(\<Sum>x\<leftarrow>signers. W x * polynomial_derivative_value p (pid_val x) (rank_val (the (hc_rank_of c x)))) = d"
  defines "a \<equiv> aggregate_nonce_of C k sid signers"
  shows "from_xonly_bytes C (gk_xonly_public_key gk) = Some (g_mul C d (base_point C)) \<Longrightarrow>
      mset sh = mset (map (\<lambda>x. share_package C sid x (share_scalar C c p W k (ahn_negated a)
        (schnorr_challenge C (ahn_even_public_nonce a) (g_mul C d (base_point C)) (frost_message digest)) x)) signers) \<Longrightarrow>
      \<exists>sig. aggregate_htss_signature_shares C gk digest ns sh signers c = Inr sig
        \<and> valid_signature C (gk_xonly_public_key gk) digest sig"
    and "from_xonly_bytes C out = Some X \<Longrightarrow> X = g_mul C (conditional_negate negate_key d + t) (base_point C) \<Longrightarrow>
      scalar_from_bytes C tweak = Some t \<Longrightarrow>
      mset sh = mset (map (\<lambda>x. share_package C sid x (share_scalar C c p W k (ahn_negated a)
        (conditional_negate negate_key (schnorr_challenge C (ahn_even_public_nonce a) X (frost_message digest))) x)) signers) \<Longrightarrow>
      \<exists>sig. aggregate_htss_signature_shares_for_output C digest out tweak ns sh signers c = Inr sig
        \<and> valid_signature C out digest sig"
proof -
  note laws = secp_lawsD [OF L]
  let ?K = "\<Sum>x\<leftarrow>signers. k x" and ?m = "frost_message digest"
  have K: "?K \<noteq> 0" and vn: "validate_htss_nonce_set ns signers = Inr ()" using r by (simp_all add: honest_round_def)
  have ne: "signers \<noteq> []" using quorum_nonempty [OF wf q] .
  have agg: "aggregate_htss_public_nonce C ns signers = Inr a"
    using aggregate_htss_public_nonce_of [OF L vn ne, of k sid] r by (simp add: honest_round_def a_def)
  have a: "ahn_even_public_nonce a = fst (even_y C (g_mul C ?K (base_point C)))"
    "ahn_negated a = snd (even_y C (g_mul C ?K (base_point C)))"
    by (simp_all add: a_def aggregate_nonce_of_def Let_def)
  have vq: "validate_hierarchical_signer_set signers c = Inr ()" using q wf by (simp add: validate_hierarchical_signer_set_iff)
  have vs: "validate_htss_signature_share_set sh signers = Inr ()"
    if "mset sh = mset (map (\<lambda>x. share_package C sid x (v x)) signers)" for sh v
    using q that by (intro sig_shares.accepts_one_per_signer) (auto simp: hierarchical_quorum_def share_package_def)
  { assume X: "from_xonly_bytes C (gk_xonly_public_key gk) = Some (g_mul C d (base_point C))"
      and sh: "mset sh = mset (map (\<lambda>x. share_package C sid x (share_scalar C c p W k (ahn_negated a)
        (schnorr_challenge C (ahn_even_public_nonce a) (g_mul C d (base_point C)) ?m) x)) signers)"
    have "schnorr_verify C (g_mul C d (base_point C)) ?m (ahn_even_public_nonce a, conditional_negate (ahn_negated a) ?K
        + schnorr_challenge C (ahn_even_public_nonce a) (g_mul C d (base_point C)) ?m * d)"
      unfolding a using from_xonlyD [OF laws(4) X] by (intro combined_scalar_verifies [OF L K refl]) simp_all
    then show "\<exists>sig. aggregate_htss_signature_shares C gk digest ns sh signers c = Inr sig
        \<and> valid_signature C (gk_xonly_public_key gk) digest sig"
      using X vn vq vs [OF sh] agg sum_signature_shares_of [OF laws(1) sh] w laws(5)
      by (simp add: aggregate_htss_signature_shares_def sum_share_scalars aggregate_signature_new valid_signature_def Let_def)
        blast }
  { assume X: "from_xonly_bytes C out = Some X" "X = g_mul C (conditional_negate negate_key d + t) (base_point C)"
      and t: "scalar_from_bytes C tweak = Some t"
      and sh: "mset sh = mset (map (\<lambda>x. share_package C sid x (share_scalar C c p W k (ahn_negated a)
        (conditional_negate negate_key (schnorr_challenge C (ahn_even_public_nonce a) X ?m)) x)) signers)"
    let ?e = "schnorr_challenge C (ahn_even_public_nonce a) X ?m"
    have "schnorr_verify C X ?m (ahn_even_public_nonce a, conditional_negate (ahn_negated a) ?K
        + ?e * (conditional_negate negate_key d + t))"
      unfolding a using from_xonlyD [OF laws(4) X(1)] by (intro combined_scalar_verifies [OF L K X(2)]) simp_all
    moreover have "conditional_negate negate_key ?e * d = ?e * conditional_negate negate_key d"
      by (cases negate_key) simp_all
    ultimately have "schnorr_verify C X ?m (ahn_even_public_nonce a, conditional_negate (ahn_negated a) ?K
        + conditional_negate negate_key ?e * d + ?e * t)"
      by (simp add: distrib_left add.assoc)
    then show "\<exists>sig. aggregate_htss_signature_shares_for_output C digest out tweak ns sh signers c = Inr sig
        \<and> valid_signature C out digest sig"
      using X(1) t vn vq vs [OF sh] agg sum_signature_shares_of [OF laws(1) sh] w laws(5)
      by (simp add: aggregate_htss_signature_shares_for_output_def sum_share_scalars aggregate_signature_new
          valid_signature_def Let_def scalar_op_defs) blast }
qed

text \<open>Every signer's share is produced, and the shares aggregate in any order of arrival.\<close>

lemma htss_signing_round:
  fixes C :: "('f::field, 'p::ab_group_add) secp"
  assumes L: "secp_laws C" and wf: "hc_wf c" and d: "htss_dealt C c p ks" and q: "regular_quorum C c signers"
    and r: "honest_round C c p sid k signers ns ls lno"
  shows "\<exists>sh. collect (\<lambda>x. htss_sign_share C (ks_group_key ks) digest (ls x) (lno x) ns signers c) signers = Inr sh
    \<and> (\<forall>sh'. mset sh' = mset sh \<longrightarrow>
        (\<exists>sig. aggregate_htss_signature_shares C (ks_group_key ks) digest ns sh' signers c = Inr sig
           \<and> valid_signature C (gk_xonly_public_key (ks_group_key ks)) digest sig))"
proof -
  have p: "p \<noteq> []" "length p = unat (hc_threshold c)" using d by (simp_all add: htss_dealt_def)
  have hq: "hierarchical_quorum c signers" by (rule regular_quorum_quorum [OF wf q])
  then have dist: "distinct signers" by (simp add: hierarchical_quorum_def)
  note X = dealt_from_xonly [OF L d]
  from wf q obtain points W where pts: "birkhoff_points_from_hierarchical_signer_set signers c = Inr points"
    and cs: "birkhoff_interpolation_coefficients C points = Inr (map (\<lambda>x. coefficient_of C (signer_point c x, W x)) signers)"
    and w: "(\<Sum>x\<leftarrow>signers. W x * polynomial_derivative_value p (pid_val x) (rank_val (the (hc_rank_of c x)))) = p ! 0"
    by (rule regular_quorum_weights) (use p in blast)
  note share = honest_sign_shares(1) [OF L r _ dist pts cs X, of _ digest]
  note agg = honest_aggregates(1) [OF L wf hq r w X, of _ digest]
  show ?thesis by (rule exI, rule conjI, rule collect_map_Inr, erule share, intro allI impI, erule agg)
qed

lemma htss_signing_round_for_output:
  fixes C :: "('f::field, 'p::ab_group_add) secp"
  assumes L: "secp_laws C" and wf: "hc_wf c" and d: "htss_dealt C c p ks" and q: "regular_quorum C c signers"
    and r: "honest_round C c p sid k signers ns ls lno"
    and out: "from_xonly_bytes C out = Some (g_mul C (conditional_negate negate_key (p ! 0) + t) (base_point C))"
    and t: "scalar_from_bytes C tweak = Some t"
  shows "\<exists>sh. collect (\<lambda>x. htss_sign_share_for_output C gk digest out negate_key (ls x) (lno x) ns signers c) signers = Inr sh
    \<and> (\<forall>sh'. mset sh' = mset sh \<longrightarrow>
        (\<exists>sig. aggregate_htss_signature_shares_for_output C digest out tweak ns sh' signers c = Inr sig
           \<and> valid_signature C out digest sig))"
proof -
  have p: "p \<noteq> []" "length p = unat (hc_threshold c)" using d by (simp_all add: htss_dealt_def)
  have hq: "hierarchical_quorum c signers" by (rule regular_quorum_quorum [OF wf q])
  then have dist: "distinct signers" by (simp add: hierarchical_quorum_def)
  from wf q obtain points W where pts: "birkhoff_points_from_hierarchical_signer_set signers c = Inr points"
    and cs: "birkhoff_interpolation_coefficients C points = Inr (map (\<lambda>x. coefficient_of C (signer_point c x, W x)) signers)"
    and w: "(\<Sum>x\<leftarrow>signers. W x * polynomial_derivative_value p (pid_val x) (rank_val (the (hc_rank_of c x)))) = p ! 0"
    by (rule regular_quorum_weights) (use p in blast)
  note share = honest_sign_shares(2) [OF L r _ dist pts cs out, of _ gk digest negate_key]
  note agg = honest_aggregates(2) [OF L wf hq r w out refl t, of _ digest]
  show ?thesis by (rule exI, rule conjI, rule collect_map_Inr, erule share, intro allI impI, erule agg)
qed

text \<open>Soundness needs no honesty: what the aggregation returns verifies, and it fixes the sum of the shares.\<close>

lemma aggregate_Inr_valid:
  "aggregate_htss_signature_shares C gk digest ns sh signers c = Inr sig \<Longrightarrow>
     valid_signature C (gk_xonly_public_key gk) digest sig"
  by (fastforce simp: aggregate_htss_signature_shares_def rbind_Inr_iff ensure_Inr_iff ok_or_Inr_iff Let_def
      AggregateSignature_new_def valid_signature_def split: if_splits)

lemma aggregate_Inr_sum_unique:
  assumes L: "secp_laws C"
    and a: "aggregate_htss_signature_shares C gk digest ns sh signers c = Inr sig"
    and b: "aggregate_htss_signature_shares C gk digest ns sh' signers c = Inr sig'"
  shows "sum_signature_shares C sh = sum_signature_shares C sh'"
proof -
  note laws = secp_lawsD [OF L]
  from a b obtain n s s' X where n: "aggregate_htss_public_nonce C ns signers = Inr n"
    and s: "sum_signature_shares C sh = Inr s" "sum_signature_shares C sh' = Inr s'"
    and X: "from_xonly_bytes C (gk_xonly_public_key gk) = Some X"
    and v: "schnorr_verify C X (frost_message digest) (ahn_even_public_nonce n, s)"
      "schnorr_verify C X (frost_message digest) (ahn_even_public_nonce n, s')"
    by (auto simp: aggregate_htss_signature_shares_def rbind_Inr_iff ensure_Inr_iff ok_or_Inr_iff Let_def)
  from n obtain R where "R \<noteq> 0" "ahn_even_public_nonce n = fst (even_y C R)"
    by (auto simp: aggregate_htss_public_nonce_def rbind_Inr_iff ensure_Inr_iff Let_def case_prod_unfold)
  then have "ahn_even_public_nonce n \<noteq> 0" "\<not> snd (even_y C (ahn_even_public_nonce n))"
    using even_y_idem [OF laws(4)] even_y_fst_nonzero [OF laws(4)] by simp_all
  with v from_xonlyD [OF laws(4) X] have "g_mul C s (base_point C) = g_mul C s' (base_point C)"
    using schnorr_verify_iff [OF laws(5)] by simp
  then show ?thesis using g_mul_G_inj [OF laws(2)] s by simp
qed

section \<open>The local signers\<close>

text \<open>The share of participant \<open>x\<close> and the nonce drawn at its position in the signer set.\<close>

definition share_of :: "HtssLocalKeySet \<Rightarrow> ParticipantId \<Rightarrow> HtssLocalKeyShare" where
  "share_of ks x = the (find (\<lambda>share. hs_participant_id share = x) (ks_shares ks))"

definition drawn_nonce :: "(nat \<Rightarrow> 'f) \<Rightarrow> ParticipantId list \<Rightarrow> ParticipantId \<Rightarrow> 'f" where
  "drawn_nonce rnd signers x = rnd (length (takeWhile (\<lambda>y. y \<noteq> x) signers))"

lemma find_dealt_share:
  assumes wf: "hc_wf c" and d: "htss_dealt C c p ks" and x: "x \<in> rp_id ` set (hc_participants c)"
  shows "find (\<lambda>share. hs_participant_id share = x) (ks_shares ks) = Some (share_of ks x)"
    and "share_of ks x \<in> set (ks_shares ks)" and "hs_participant_id (share_of ks x) = x"
proof -
  from x obtain q where q: "q \<in> set (hc_participants c)" "x = rp_id q" by auto
  have "distinct (map hs_participant_id (ks_shares ks))" "deal_share C p q \<in> set (ks_shares ks)"
    using wf d q(1) by (auto simp: hc_wf_def htss_dealt_def o_def)
  from find_Some_iff_distinct [OF this] have "find (\<lambda>share. hs_participant_id share = x) (ks_shares ks) = Some (deal_share C p q)"
    by (simp add: q(2))
  then show "find (\<lambda>share. hs_participant_id share = x) (ks_shares ks) = Some (share_of ks x)"
    "share_of ks x \<in> set (ks_shares ks)" "hs_participant_id (share_of ks x) = x"
    using \<open>deal_share C p q \<in> _\<close> q(2) by (simp_all add: share_of_def)
qed

lemma local_round:
  fixes C :: "('f::field, 'p::ab_group_add) secp" and rnd :: "nat \<Rightarrow> 'f" and sid :: SessionId
  assumes L: "secp_laws C" and wf: "hc_wf c" and d: "htss_dealt C c p ks" and q: "hierarchical_quorum c signers"
  defines "ls \<equiv> share_of ks" and "k \<equiv> drawn_nonce rnd signers"
  defines "lno \<equiv> \<lambda>x. projr (htss_nonce C (k x) sid (ls x))"
  shows "select_shares (ks_shares ks) signers = Inr (map ls signers)"
    and "local_nonces C rnd sid (map ls signers) = Inr (map lno signers)"
    and "(\<Sum>x\<leftarrow>signers. k x) = (\<Sum>i<length signers. rnd i)"
    and "validate_htss_nonce_set (map (hln_package \<circ> lno) signers) signers = Inr ()"
    and "nonces_of C k sid (map (hln_package \<circ> lno) signers)"
    and "x \<in> set signers \<Longrightarrow> holds_share C c p x (ls x) \<and> holds_nonce C sid (k x) x (lno x)"
proof -
  note codec = secp_lawsD(1) [OF L]
  have dist: "distinct signers" and mem: "\<And>x. x \<in> set signers \<Longrightarrow> x \<in> rp_id ` set (hc_participants c)"
    using q by (auto simp: hierarchical_quorum_def)
  note share = find_dealt_share [OF wf d mem, folded ls_def]
  have k: "k (signers ! i) = rnd i" if "i < length signers" for i
    using takeWhile_position [of id signers i] dist that by (simp add: k_def drawn_nonce_def)
  have n: "htss_nonce C (k x) sid (ls x) = Inr (lno x)" for x
    by (simp add: lno_def htss_nonce_def)
  have pkg: "hn_participant_id (hln_package (lno x)) = x \<and> hn_signing_session_id (hln_package (lno x)) = sid"
    "hn_public_nonce_bytes (hln_package (lno x)) = point_to_bytes C (g_mul C (k x) (base_point C))"
    if "x \<in> set signers" for x
    using share(3) [OF that] by (simp_all add: lno_def htss_nonce_def)
  show "select_shares (ks_shares ks) signers = Inr (map ls signers)"
    unfolding select_shares_def by (rule collect_map_Inr) (simp add: share(1))
  have "local_nonces C rnd sid (map ls signers) = Inr (map (\<lambda>(i, s). projr (htss_nonce C (rnd i) sid s)) (enumerate 0 (map ls signers)))"
    unfolding local_nonces_def by (rule collect_map_Inr) (auto simp: htss_nonce_def)
  also have "map (\<lambda>(i, s). projr (htss_nonce C (rnd i) sid s)) (enumerate 0 (map ls signers)) = map lno signers"
    by (rule nth_equalityI) (simp_all add: nth_enumerate_eq lno_def k)
  finally show "local_nonces C rnd sid (map ls signers) = Inr (map lno signers)" .
  show "(\<Sum>x\<leftarrow>signers. k x) = (\<Sum>i<length signers. rnd i)"
    by (simp add: sum_list_sum_nth atLeast0LessThan k)
  show "validate_htss_nonce_set (map (hln_package \<circ> lno) signers) signers = Inr ()"
    by (rule nonces.accepts_one_per_signer [OF dist refl]) (simp add: pkg)
  show "nonces_of C k sid (map (hln_package \<circ> lno) signers)"
    by (auto simp: nonces_of_def pkg)
  show "holds_share C c p x (ls x) \<and> holds_nonce C sid (k x) x (lno x)" if x: "x \<in> set signers"
    using dealt_holds_share [OF codec wf d share(2) [OF x]] htss_nonce_holds [OF codec n [of x]] share(3) [OF x] by simp
qed

lemma local_honest_round:
  fixes C :: "('f::field, 'p::ab_group_add) secp" and sid :: SessionId
  assumes L: "secp_laws C" and wf: "hc_wf c" and d: "htss_dealt C c p ks" and q: "hierarchical_quorum c signers"
    and rnd: "\<And>i. rnd i \<noteq> 0" "(\<Sum>i<length signers. rnd i) \<noteq> 0"
  defines "lno \<equiv> \<lambda>x. projr (htss_nonce C (drawn_nonce rnd signers x) sid (share_of ks x))"
  shows "honest_round C c p sid (drawn_nonce rnd signers) signers (map (hln_package \<circ> lno) signers) (share_of ks) lno"
  unfolding honest_round_def lno_def
proof (intro conjI ballI)
  show "drawn_nonce rnd signers x \<noteq> 0" for x using rnd(1) by (simp add: drawn_nonce_def)
  show "(\<Sum>x\<leftarrow>signers. drawn_nonce rnd signers x) \<noteq> 0" using local_round(3) [OF L wf d q] rnd(2) by simp
qed (use local_round(4-6) [OF L wf d q] in blast)+

lemma session_names [simp]:
  "SessionId_new ''local-htss-threshold-signing'' = Inr (SessionId ''local-htss-threshold-signing'')"
  "SessionId_new ''local-htss-threshold-output-signing'' = Inr (SessionId ''local-htss-threshold-output-signing'')"
  by (simp_all add: SessionId_new_def white1_def white2_def white3_def)

lemma sign_digest_local_threshold:
  fixes C :: "('f::field, 'p::ab_group_add) secp"
  assumes L: "secp_laws C" and wf: "hc_wf c" and d: "htss_dealt C c p ks" and q: "regular_quorum C c signers"
    and rnd: "\<And>i. rnd i \<noteq> 0" "(\<Sum>i<length signers. rnd i) \<noteq> 0"
  shows "\<exists>sig. sign_digest_with_local_htss_threshold_shares C rnd (ks_group_key ks) digest (ks_shares ks) signers c = Inr sig
    \<and> valid_signature C (gk_xonly_public_key (ks_group_key ks)) digest sig"
proof -
  have hq: "hierarchical_quorum c signers" by (rule regular_quorum_quorum [OF wf q])
  note steps = local_round(1,2) [OF L wf d hq]
  from htss_signing_round [OF L wf d q local_honest_round [OF L wf d hq rnd],
      of digest "SessionId ''local-htss-threshold-signing''"]
  show ?thesis
    by (auto simp: sign_digest_with_local_htss_threshold_shares_def steps zip_map_same collect_map Let_def)
qed

lemma sign_digest_local_threshold_for_output:
  fixes C :: "('f::field, 'p::ab_group_add) secp"
  assumes L: "secp_laws C" and wf: "hc_wf c" and d: "htss_dealt C c p ks" and q: "regular_quorum C c signers"
    and rnd: "\<And>i. rnd i \<noteq> 0" "(\<Sum>i<length signers. rnd i) \<noteq> 0"
    and out: "from_xonly_bytes C out = Some (g_mul C (conditional_negate negate_key (p ! 0) + t) (base_point C))"
    and t: "scalar_from_bytes C tweak = Some t"
  shows "\<exists>sig. sign_digest_with_local_htss_threshold_shares_for_output C rnd gk digest out tweak negate_key
      (ks_shares ks) signers c = Inr sig \<and> valid_signature C out digest sig"
proof -
  have hq: "hierarchical_quorum c signers" by (rule regular_quorum_quorum [OF wf q])
  note steps = local_round(1,2) [OF L wf d hq]
  from htss_signing_round_for_output [OF L wf d q local_honest_round [OF L wf d hq rnd] out t,
      of gk digest "SessionId ''local-htss-threshold-output-signing''"]
  show ?thesis
    by (auto simp: sign_digest_with_local_htss_threshold_shares_for_output_def steps zip_map_same collect_map Let_def)
qed

text \<open>A round in which every signer draws its nonce with \<open>htss_nonce\<close> and the nonce packages arrive in any order.\<close>

lemma honest_round_of_nonces:
  assumes L: "secp_laws C" and wf: "hc_wf c" and d: "htss_dealt C c p ks" and dist: "distinct signers"
    and ls: "\<And>x. x \<in> set signers \<Longrightarrow> ls x \<in> set (ks_shares ks) \<and> hs_participant_id (ls x) = x"
    and lno: "\<And>x. x \<in> set signers \<Longrightarrow> k x \<noteq> 0 \<and> htss_nonce C (k x) sid (ls x) = Inr (lno x)"
    and k: "(\<Sum>x\<leftarrow>signers. k x) \<noteq> 0" and ns: "mset ns = mset (map (\<lambda>x. hln_package (lno x)) signers)"
  shows "honest_round C c p sid k signers ns ls lno"
proof -
  note codec = secp_lawsD(1) [OF L]
  have pkg: "hln_package (lno x) = \<lparr>hn_participant_id = x, hn_signing_session_id = sid,
      hn_public_nonce_bytes = point_to_bytes C (g_mul C (k x) (base_point C))\<rparr>" if "x \<in> set signers" for x
    using lno [OF that] ls [OF that] by (auto simp: htss_nonce_def Let_def dest: sym [of _ "lno x"])
  have "validate_htss_nonce_set ns signers = Inr ()"
    by (rule nonces.accepts_one_per_signer [OF dist ns]) (simp add: pkg)
  moreover have "nonces_of C k sid ns"
    unfolding nonces_of_def using mset_eq_setD [OF ns] pkg by auto
  moreover have "holds_share C c p x (ls x) \<and> holds_nonce C sid (k x) x (lno x)" if "x \<in> set signers" for x
    using dealt_holds_share [OF codec wf d, of "ls x"] htss_nonce_holds [OF codec, of "k x" sid "ls x" "lno x"]
      ls [OF that] lno [OF that] by simp
  ultimately show ?thesis using lno k by (simp add: honest_round_def)
qed

section \<open>Grouped policies\<close>

lemma hierarchical_config_from_grouped_validated:
  assumes "gc_validated c"
  shows "hierarchical_config_from_grouped_threshold c
      = Inr \<lparr>hc_threshold = gc_required_signer_count c, hc_participants = gc_participants c\<rparr>"
    and "hc_wf \<lparr>hc_threshold = gc_required_signer_count c, hc_participants = gc_participants c\<rparr>"
proof -
  show wf: "hc_wf \<lparr>hc_threshold = gc_required_signer_count c, hc_participants = gc_participants c\<rparr>"
    using gc_validated_counts [OF assms] assms by (auto simp: hc_wf_def gc_validated_def gc_wf_def)
  then show "hierarchical_config_from_grouped_threshold c
      = Inr \<lparr>hc_threshold = gc_required_signer_count c, hc_participants = gc_participants c\<rparr>"
    by (simp add: hierarchical_config_from_grouped_threshold_def HierarchicalThresholdConfig_new_Inr_iff)
qed

lemma local_threshold_Inr_quorum:
  "sign_digest_with_local_htss_threshold_shares C rnd gk digest shares signers c = Inr sig \<Longrightarrow>
     validate_hierarchical_signer_set signers c = Inr ()"
  by (auto simp: sign_digest_with_local_htss_threshold_shares_def aggregate_htss_signature_shares_def rbind_Inr_iff Let_def)

lemma quorum_has_rank_zero:
  assumes wf: "hc_wf c" and q: "hierarchical_quorum c signers"
  shows "\<exists>p\<in>set (hc_participants c). rp_rank p = Rank 0"
proof -
  have "0 < length (filter (\<lambda>x. hc_rank c x \<le> 0) signers)"
    using q wf by (auto simp: hierarchical_quorum_def hc_wf_def)
  then obtain x where "x \<in> set signers" and x: "hc_rank c x = 0" by (auto simp: filter_empty_conv)
  then have "x \<in> rp_id ` set (hc_participants c)" using q by (auto simp: hierarchical_quorum_def)
  with x obtain r where "hc_rank_of c x = Some r" "unat (rank_val r) = 0"
    by (cases "hc_rank_of c x") (auto simp: hc_rank_def hcr.rank_of_None_iff)
  then show ?thesis using hcr.rank_of_SomeD [of c x r] by (cases r) (auto simp: unat_eq_0)
qed

end
