(* ===== verification/Packages.thy ===== *)
theory Packages
  imports Core_Messages Htss_Signing
begin

text \<open>
  The packages of \<open>dkgkit-frost/src/lib.rs\<close> and their passage through protocol messages,
  and the signing requests. The eight package types meet one contract, the locale
  \<open>package_message\<close>: what \<open>to_protocol_message\<close> writes and exactly which messages
  \<open>from_protocol_message\<close> accepts. Round trip, sender authenticity and the separation of
  kinds are proved in it once.
\<close>

section \<open>Payloads and the checks on an envelope\<close>

definition encode_payload :: "'a codec \<Rightarrow> 'a \<Rightarrow> bytes result" where
  "encode_payload J payload = map_serialization_err (to_vec J payload)"

definition decode_payload :: "'a codec \<Rightarrow> bytes \<Rightarrow> 'a result" where
  "decode_payload J bytes = map_serialization_err (from_slice J bytes)"

definition require_kind :: "ProtocolMessage \<Rightarrow> ProtocolMessageKind \<Rightarrow> unit result" where
  "require_kind message expected =
     ensure (pm_kind message = expected)
       (Protocol (fmt [''unexpected protocol message kind: expected '', kind_as_str expected,
          '', got '', kind_as_str (pm_kind message)]))"

definition require_broadcast :: "ProtocolMessage \<Rightarrow> unit result" where
  "require_broadcast message =
     ensure (pm_recipient message = None) (Protocol ''expected broadcast protocol message'')"

text \<open>The check \<open>payload.sender != message.sender\<close> with its text.\<close>

definition require_sender :: "string \<Rightarrow> ProtocolMessage \<Rightarrow> ParticipantId \<Rightarrow> unit result" where
  "require_sender what message sender =
     ensure (sender = pm_sender message)
       (Protocol (fmt [what, '' sender mismatch: envelope='', show_u16 (pid_val (pm_sender message)),
          '', payload='', show_u16 (pid_val sender)]))"

section \<open>FROST packages\<close>

record DkgSessionConfig =
  dsc_session_id :: SessionId
  dsc_threshold :: ThresholdConfig
  dsc_participant_id :: ParticipantId

record Round1Package =
  r1_participant_id :: ParticipantId
  r1_bytes :: bytes

definition Round1Package_to_protocol_message ::
    "Round1Package codec \<Rightarrow> Round1Package \<Rightarrow> SessionId \<Rightarrow> ProtocolMessage result" where
  "Round1Package_to_protocol_message J self session_id =
     rbind (encode_payload J self) (\<lambda>payload.
     Inr (ProtocolMessage_broadcast session_id (r1_participant_id self) FrostDkgRound1 payload))"

definition Round1Package_from_protocol_message ::
    "Round1Package codec \<Rightarrow> ProtocolMessage \<Rightarrow> Round1Package result" where
  "Round1Package_from_protocol_message J message =
     rbind (require_kind message FrostDkgRound1) (\<lambda>_.
     rbind (require_broadcast message) (\<lambda>_.
     rbind (decode_payload J (pm_payload message)) (\<lambda>package.
     rbind (require_sender ''round1'' message (r1_participant_id package)) (\<lambda>_.
     Inr package))))"

record Round2Package =
  r2_sender :: ParticipantId
  r2_recipient :: ParticipantId
  r2_bytes :: bytes

definition Round2Package_to_protocol_message ::
    "Round2Package codec \<Rightarrow> Round2Package \<Rightarrow> SessionId \<Rightarrow> ProtocolMessage result" where
  "Round2Package_to_protocol_message J self session_id =
     rbind (encode_payload J self) (\<lambda>payload.
     Inr (ProtocolMessage_direct session_id (r2_sender self) (r2_recipient self) FrostDkgRound2 payload))"

definition Round2Package_from_protocol_message ::
    "Round2Package codec \<Rightarrow> ProtocolMessage \<Rightarrow> Round2Package result" where
  "Round2Package_from_protocol_message J message =
     rbind (require_kind message FrostDkgRound2) (\<lambda>_.
     rbind (decode_payload J (pm_payload message)) (\<lambda>package.
     rbind (require_sender ''round2'' message (r2_sender package)) (\<lambda>_.
     rbind (ensure (Some (r2_recipient package) = pm_recipient message)
              (Protocol ''round2 recipient mismatch'')) (\<lambda>_.
     Inr package))))"

record LocalKeyShare =
  lks_participant_id :: ParticipantId
  lks_group_key :: GroupKey
  lks_secret_share_bytes :: bytes

record NoncePackage =
  np_participant_id :: ParticipantId
  np_signing_session_id :: SessionId
  np_public_nonce_bytes :: bytes

definition NoncePackage_to_protocol_message :: "NoncePackage codec \<Rightarrow> NoncePackage \<Rightarrow> ProtocolMessage result" where
  "NoncePackage_to_protocol_message J self =
     rbind (encode_payload J self) (\<lambda>payload.
     Inr (ProtocolMessage_broadcast (np_signing_session_id self) (np_participant_id self) FrostSigningNonce payload))"

definition NoncePackage_from_protocol_message :: "NoncePackage codec \<Rightarrow> ProtocolMessage \<Rightarrow> NoncePackage result" where
  "NoncePackage_from_protocol_message J message =
     rbind (require_kind message FrostSigningNonce) (\<lambda>_.
     rbind (require_broadcast message) (\<lambda>_.
     rbind (decode_payload J (pm_payload message)) (\<lambda>package.
     rbind (require_sender ''nonce'' message (np_participant_id package)) (\<lambda>_.
     rbind (ensure (np_signing_session_id package = pm_session_id message)
              (Protocol ''nonce session mismatch'')) (\<lambda>_.
     Inr package)))))"

record SignatureSharePackage =
  ssp_participant_id :: ParticipantId
  ssp_signing_session_id :: SessionId
  ssp_public_nonce_bytes :: bytes
  ssp_signature_share_bytes :: bytes

definition SignatureSharePackage_to_protocol_message ::
    "SignatureSharePackage codec \<Rightarrow> SignatureSharePackage \<Rightarrow> ProtocolMessage result" where
  "SignatureSharePackage_to_protocol_message J self =
     rbind (encode_payload J self) (\<lambda>payload.
     Inr (ProtocolMessage_broadcast (ssp_signing_session_id self) (ssp_participant_id self) FrostSignatureShare payload))"

definition SignatureSharePackage_from_protocol_message ::
    "SignatureSharePackage codec \<Rightarrow> ProtocolMessage \<Rightarrow> SignatureSharePackage result" where
  "SignatureSharePackage_from_protocol_message J message =
     rbind (require_kind message FrostSignatureShare) (\<lambda>_.
     rbind (require_broadcast message) (\<lambda>_.
     rbind (decode_payload J (pm_payload message)) (\<lambda>package.
     rbind (require_sender ''signature share'' message (ssp_participant_id package)) (\<lambda>_.
     rbind (ensure (ssp_signing_session_id package = pm_session_id message)
              (Protocol ''signature share session mismatch'')) (\<lambda>_.
     Inr package)))))"

section \<open>HTSS packages\<close>

definition HtssDkgRound1Package_to_protocol_message ::
    "HtssDkgRound1Package codec \<Rightarrow> HtssDkgRound1Package \<Rightarrow> SessionId \<Rightarrow> ProtocolMessage result" where
  "HtssDkgRound1Package_to_protocol_message J self session_id =
     rbind (encode_payload J self) (\<lambda>payload.
     Inr (ProtocolMessage_broadcast session_id (hd1_participant_id self) HtssDkgRound1 payload))"

definition HtssDkgRound1Package_from_protocol_message ::
    "HtssDkgRound1Package codec \<Rightarrow> ProtocolMessage \<Rightarrow> HtssDkgRound1Package result" where
  "HtssDkgRound1Package_from_protocol_message J message =
     rbind (require_kind message HtssDkgRound1) (\<lambda>_.
     rbind (require_broadcast message) (\<lambda>_.
     rbind (decode_payload J (pm_payload message)) (\<lambda>package.
     rbind (require_sender ''HTSS DKG round1'' message (hd1_participant_id package)) (\<lambda>_.
     Inr package))))"

definition HtssDkgRound2Package_to_protocol_message ::
    "HtssDkgRound2Package codec \<Rightarrow> HtssDkgRound2Package \<Rightarrow> SessionId \<Rightarrow> ProtocolMessage result" where
  "HtssDkgRound2Package_to_protocol_message J self session_id =
     rbind (encode_payload J self) (\<lambda>payload.
     Inr (ProtocolMessage_direct session_id (hd2_sender self) (hd2_recipient self) HtssDkgRound2 payload))"

definition HtssDkgRound2Package_from_protocol_message ::
    "HtssDkgRound2Package codec \<Rightarrow> ProtocolMessage \<Rightarrow> HtssDkgRound2Package result" where
  "HtssDkgRound2Package_from_protocol_message J message =
     rbind (require_kind message HtssDkgRound2) (\<lambda>_.
     rbind (decode_payload J (pm_payload message)) (\<lambda>package.
     rbind (require_sender ''HTSS DKG round2'' message (hd2_sender package)) (\<lambda>_.
     rbind (ensure (Some (hd2_recipient package) = pm_recipient message)
              (Protocol ''HTSS DKG round2 recipient mismatch'')) (\<lambda>_.
     Inr package))))"

definition HtssNoncePackage_to_protocol_message ::
    "HtssNoncePackage codec \<Rightarrow> HtssNoncePackage \<Rightarrow> ProtocolMessage result" where
  "HtssNoncePackage_to_protocol_message J self =
     rbind (encode_payload J self) (\<lambda>payload.
     Inr (ProtocolMessage_broadcast (hn_signing_session_id self) (hn_participant_id self) HtssSigningNonce payload))"

definition HtssNoncePackage_from_protocol_message ::
    "HtssNoncePackage codec \<Rightarrow> ProtocolMessage \<Rightarrow> HtssNoncePackage result" where
  "HtssNoncePackage_from_protocol_message J message =
     rbind (require_kind message HtssSigningNonce) (\<lambda>_.
     rbind (require_broadcast message) (\<lambda>_.
     rbind (decode_payload J (pm_payload message)) (\<lambda>package.
     rbind (require_sender ''HTSS nonce'' message (hn_participant_id package)) (\<lambda>_.
     rbind (ensure (hn_signing_session_id package = pm_session_id message)
              (Protocol ''HTSS nonce session mismatch'')) (\<lambda>_.
     rbind (nonce_public_nonce_bytes package) (\<lambda>_.
     Inr package))))))"

definition HtssSignatureSharePackage_to_protocol_message ::
    "HtssSignatureSharePackage codec \<Rightarrow> HtssSignatureSharePackage \<Rightarrow> ProtocolMessage result" where
  "HtssSignatureSharePackage_to_protocol_message J self =
     rbind (encode_payload J self) (\<lambda>payload.
     Inr (ProtocolMessage_broadcast (hss_signing_session_id self) (hss_participant_id self) HtssSignatureShare payload))"

definition HtssSignatureSharePackage_from_protocol_message ::
    "HtssSignatureSharePackage codec \<Rightarrow> ProtocolMessage \<Rightarrow> HtssSignatureSharePackage result" where
  "HtssSignatureSharePackage_from_protocol_message J message =
     rbind (require_kind message HtssSignatureShare) (\<lambda>_.
     rbind (require_broadcast message) (\<lambda>_.
     rbind (decode_payload J (pm_payload message)) (\<lambda>package.
     rbind (require_sender ''HTSS signature share'' message (hss_participant_id package)) (\<lambda>_.
     rbind (ensure (hss_signing_session_id package = pm_session_id message)
              (Protocol ''HTSS signature share session mismatch'')) (\<lambda>_.
     Inr package)))))"

section \<open>Signing requests\<close>

record SigningRequest =
  sr_session_id :: SessionId
  sr_group_key :: GroupKey
  sr_message_digest :: bytes
  sr_signer_set :: "ParticipantId list"

definition SigningRequest_new ::
    "SessionId \<Rightarrow> GroupKey \<Rightarrow> bytes \<Rightarrow> ParticipantId list \<Rightarrow> ThresholdConfig \<Rightarrow> SigningRequest result" where
  "SigningRequest_new session_id group_key message_digest signer_set threshold =
     rbind (validate_signer_set signer_set threshold) (\<lambda>_.
     Inr \<lparr>sr_session_id = session_id, sr_group_key = group_key, sr_message_digest = message_digest,
          sr_signer_set = signer_set\<rparr>)"

definition SigningRequest_new_with_policy ::
    "SessionId \<Rightarrow> GroupKey \<Rightarrow> bytes \<Rightarrow> ParticipantId list \<Rightarrow> SigningPolicy \<Rightarrow> SigningRequest result" where
  "SigningRequest_new_with_policy session_id group_key message_digest signer_set policy =
     rbind (validate_signer_set_with_policy signer_set policy) (\<lambda>_.
     Inr \<lparr>sr_session_id = session_id, sr_group_key = group_key, sr_message_digest = message_digest,
          sr_signer_set = signer_set\<rparr>)"

record HierarchicalSigningRequest =
  hsr_request :: SigningRequest
  hsr_points :: "BirkhoffPoint list"
  hsr_coefficients :: "BirkhoffCoefficient list"

definition HierarchicalSigningRequest_new ::
    "('f::field, 'p) secp \<Rightarrow> SessionId \<Rightarrow> GroupKey \<Rightarrow> bytes \<Rightarrow> ParticipantId list \<Rightarrow> HierarchicalThresholdConfig
      \<Rightarrow> HierarchicalSigningRequest result" where
  "HierarchicalSigningRequest_new C session_id group_key message_digest signer_set config =
     rbind (birkhoff_points_from_hierarchical_signer_set signer_set config) (\<lambda>points.
     rbind (birkhoff_interpolation_coefficients C points) (\<lambda>coefficients.
     rbind (SigningRequest_new_with_policy session_id group_key message_digest signer_set (Hierarchical config)) (\<lambda>request.
     Inr \<lparr>hsr_request = request, hsr_points = points, hsr_coefficients = coefficients\<rparr>)))"

record GroupedSigningRequest =
  gsr_request :: SigningRequest
  gsr_config :: GroupedThresholdConfig

definition GroupedSigningRequest_new ::
    "SessionId \<Rightarrow> GroupKey \<Rightarrow> bytes \<Rightarrow> ParticipantId list \<Rightarrow> GroupedThresholdConfig \<Rightarrow> GroupedSigningRequest result" where
  "GroupedSigningRequest_new session_id group_key message_digest signer_set config =
     rbind (SigningRequest_new_with_policy session_id group_key message_digest signer_set (Grouped config)) (\<lambda>request.
     Inr \<lparr>gsr_request = request, gsr_config = config\<rparr>)"

section \<open>The contract of the package codecs\<close>

locale package_message =
  fixes to_message :: "SessionId \<Rightarrow> 'a \<Rightarrow> ProtocolMessage result"
    and from_message :: "ProtocolMessage \<Rightarrow> 'a result"
    and J :: "'a codec" and kind :: ProtocolMessageKind
    and sender :: "'a \<Rightarrow> ParticipantId" and recipient :: "'a \<Rightarrow> ParticipantId option"
    and session :: "'a \<Rightarrow> SessionId option" and valid :: "'a \<Rightarrow> bool"
  assumes to_message: "to_message sid k = rbind (encode_payload J k) (\<lambda>b. Inr
      \<lparr>pm_protocol_version = DKGKIT_PROTOCOL_VERSION,
       pm_session_id = (case session k of None \<Rightarrow> sid | Some s \<Rightarrow> s),
       pm_sender = sender k, pm_recipient = recipient k, pm_kind = kind, pm_payload = b\<rparr>)"
    and from_message: "from_message m = Inr k \<longleftrightarrow> pm_kind m = kind \<and> pm_recipient m = recipient k
      \<and> from_slice J (pm_payload m) = Inr k \<and> pm_sender m = sender k
      \<and> (session k = None \<or> session k = Some (pm_session_id m)) \<and> valid k"
begin

lemma roundtrip:
  assumes "codec_ok J" "valid k"
  shows "\<exists>m. to_message sid k = Inr m \<and> from_message m = Inr k"
proof -
  from assms(1) obtain b where "to_vec J k = Inr b" "from_slice J b = Inr k" unfolding codec_ok_def by blast
  with assms(2) show ?thesis
    by (auto simp: to_message from_message encode_payload_def map_serialization_err_def split: option.splits)
qed

lemma message_of:
  assumes "codec_ok J" "valid k" "session k = None \<or> session k = Some sid"
  shows "\<exists>m. to_message sid k = Inr m \<and> from_message m = Inr k \<and> pm_session_id m = sid \<and> pm_kind m = kind
    \<and> pm_recipient m = recipient k \<and> pm_sender m = sender k"
proof -
  from roundtrip [OF assms(1,2), of sid] obtain m where m: "to_message sid k = Inr m" "from_message m = Inr k" by blast
  from m(1) assms(3) have "pm_session_id m = sid" by (auto simp: to_message rbind_Inr_iff)
  with m from_message [of m k] show ?thesis by auto
qed

lemma authentic: "from_message m = Inr k \<Longrightarrow> sender k = pm_sender m \<and> recipient k = pm_recipient m"
  by (simp add: from_message)

lemma wrong_kind: "pm_kind m \<noteq> kind \<Longrightarrow> \<exists>e. from_message m = Inl e"
  by (cases "from_message m") (simp_all add: from_message)

lemma relabelled_sender:
  assumes "from_message m = Inr k" "s \<noteq> pm_sender m"
  shows "\<exists>e. from_message (m\<lparr>pm_sender := s\<rparr>) = Inl e"
  using assms by (cases "from_message (m\<lparr>pm_sender := s\<rparr>)") (auto simp: from_message)

end

lemmas package_defs = rbind_Inr_iff ensure_Inr_iff require_kind_def require_broadcast_def require_sender_def
  decode_payload_def ProtocolMessage_broadcast_def ProtocolMessage_direct_def

interpretation round1: package_message
  "\<lambda>sid k. Round1Package_to_protocol_message J k sid" "Round1Package_from_protocol_message J" J
  FrostDkgRound1 r1_participant_id "\<lambda>_. None" "\<lambda>_. None" "\<lambda>_. True" for J
  by unfold_locales (auto simp: Round1Package_to_protocol_message_def Round1Package_from_protocol_message_def package_defs)

interpretation round2: package_message
  "\<lambda>sid k. Round2Package_to_protocol_message J k sid" "Round2Package_from_protocol_message J" J
  FrostDkgRound2 r2_sender "\<lambda>k. Some (r2_recipient k)" "\<lambda>_. None" "\<lambda>_. True" for J
  by unfold_locales (auto simp: Round2Package_to_protocol_message_def Round2Package_from_protocol_message_def package_defs)

interpretation nonce: package_message
  "\<lambda>_. NoncePackage_to_protocol_message J" "NoncePackage_from_protocol_message J" J
  FrostSigningNonce np_participant_id "\<lambda>_. None" "\<lambda>k. Some (np_signing_session_id k)" "\<lambda>_. True" for J
  by unfold_locales (auto simp: NoncePackage_to_protocol_message_def NoncePackage_from_protocol_message_def package_defs)

interpretation signature_share: package_message
  "\<lambda>_. SignatureSharePackage_to_protocol_message J" "SignatureSharePackage_from_protocol_message J" J
  FrostSignatureShare ssp_participant_id "\<lambda>_. None" "\<lambda>k. Some (ssp_signing_session_id k)" "\<lambda>_. True" for J
  by unfold_locales
    (auto simp: SignatureSharePackage_to_protocol_message_def SignatureSharePackage_from_protocol_message_def package_defs)

interpretation htss_round1: package_message
  "\<lambda>sid k. HtssDkgRound1Package_to_protocol_message J k sid" "HtssDkgRound1Package_from_protocol_message J" J
  HtssDkgRound1 hd1_participant_id "\<lambda>_. None" "\<lambda>_. None" "\<lambda>_. True" for J
  by unfold_locales
    (auto simp: HtssDkgRound1Package_to_protocol_message_def HtssDkgRound1Package_from_protocol_message_def package_defs)

interpretation htss_round2: package_message
  "\<lambda>sid k. HtssDkgRound2Package_to_protocol_message J k sid" "HtssDkgRound2Package_from_protocol_message J" J
  HtssDkgRound2 hd2_sender "\<lambda>k. Some (hd2_recipient k)" "\<lambda>_. None" "\<lambda>_. True" for J
  by unfold_locales
    (auto simp: HtssDkgRound2Package_to_protocol_message_def HtssDkgRound2Package_from_protocol_message_def package_defs)

interpretation htss_nonce: package_message
  "\<lambda>_. HtssNoncePackage_to_protocol_message J" "HtssNoncePackage_from_protocol_message J" J
  HtssSigningNonce hn_participant_id "\<lambda>_. None" "\<lambda>k. Some (hn_signing_session_id k)"
  "\<lambda>k. length (hn_public_nonce_bytes k) = 33" for J
  by unfold_locales
    (auto simp: HtssNoncePackage_to_protocol_message_def HtssNoncePackage_from_protocol_message_def package_defs
      nonce_public_nonce_bytes_def)

interpretation htss_signature_share: package_message
  "\<lambda>_. HtssSignatureSharePackage_to_protocol_message J" "HtssSignatureSharePackage_from_protocol_message J" J
  HtssSignatureShare hss_participant_id "\<lambda>_. None" "\<lambda>k. Some (hss_signing_session_id k)" "\<lambda>_. True" for J
  by unfold_locales
    (auto simp: HtssSignatureSharePackage_to_protocol_message_def HtssSignatureSharePackage_from_protocol_message_def
      package_defs)

end
