(* ===== verification/Reference_Group.thy ===== *)
theory Reference_Group
  imports Packages
begin

text \<open>
  A concrete instance of the cryptographic interface, on which the hypotheses of the
  properties are discharged: scalars and points are the integers modulo the prime
  65537, the generator is 1, points are encoded big-endian, the challenge is a linear
  hash. It has every algebraic law that \<open>secp_laws\<close> asks of secp256k1 and Schnorr
  signatures (and no cryptographic strength).
\<close>

section \<open>The field of 65537 elements\<close>

typedef gf = "{0..<65537::int}"
  morphisms gf_rep gf_abs
  by (rule exI [of _ 0]) simp

setup_lifting type_definition_gf

lemma gf_rep_range: "0 \<le> gf_rep x \<and> gf_rep x < 65537"
  using gf_rep [of x] by simp

instantiation gf :: comm_ring_1
begin

lift_definition zero_gf :: gf is 0 by simp
lift_definition one_gf :: gf is 1 by simp
lift_definition plus_gf :: "gf \<Rightarrow> gf \<Rightarrow> gf" is "\<lambda>x y. (x + y) mod 65537" by simp
lift_definition minus_gf :: "gf \<Rightarrow> gf \<Rightarrow> gf" is "\<lambda>x y. (x - y) mod 65537" by simp
lift_definition uminus_gf :: "gf \<Rightarrow> gf" is "\<lambda>x. (- x) mod 65537" by simp
lift_definition times_gf :: "gf \<Rightarrow> gf \<Rightarrow> gf" is "\<lambda>x y. (x * y) mod 65537" by simp

instance
proof
  fix a b c :: gf
  show "a * b * c = a * (b * c)" by transfer (simp add: mod_simps mult.assoc)
  show "a * b = b * a" by transfer (simp add: mult.commute)
  show "1 * a = a" by transfer simp
  show "a + b + c = a + (b + c)" by transfer (simp add: mod_simps add.assoc)
  show "a + b = b + a" by transfer (simp add: add.commute)
  show "0 + a = a" by transfer simp
  show "- a + a = 0" by transfer (simp add: mod_simps)
  show "a - b = a + - b" by transfer (simp add: mod_simps)
  show "(a + b) * c = a * c + b * c" by transfer (simp add: mod_simps distrib_right)
  show "(0::gf) \<noteq> 1" by transfer simp
qed

end

lemma gf_rep_of_int: "gf_rep (of_int x) = x mod 65537"
proof (induction x rule: int_induct [where k = 0])
  case base
  show ?case by (simp add: zero_gf.rep_eq)
next
  case (step1 i)
  then show ?case by (simp add: plus_gf.rep_eq one_gf.rep_eq mod_simps)
next
  case (step2 i)
  then show ?case by (simp add: minus_gf.rep_eq one_gf.rep_eq mod_simps)
qed

lemma of_int_gf_rep: "of_int (gf_rep a) = a"
  using gf_rep_range [of a] by (intro gf_rep_inject [THEN iffD1]) (simp add: gf_rep_of_int)

lemma of_int_gf_eq_iff: "(of_int x :: gf) = of_int y \<longleftrightarrow> x mod 65537 = y mod 65537"
  by (metis gf_rep_inject gf_rep_of_int)

text \<open>65537 is prime: no number up to its square root divides it.\<close>

lemma no_small_divisor: "\<forall>d\<in>set [2..256::int]. 65537 mod d \<noteq> 0"
  by simp

lemma divisor_65537:
  assumes "d dvd (65537::int)" "1 < d" "d < 65537"
  shows False
proof -
  have small: "\<not> e dvd 65537" if "2 \<le> e" "e \<le> 256" for e :: int
  proof -
    have "e \<in> set [2..256]" unfolding set_upto using that by simp
    then show ?thesis unfolding dvd_eq_mod_eq_0 by (rule bspec [OF no_small_divisor])
  qed
  from assms(1) obtain e where e: "65537 = d * e" ..
  have "0 < e" using e assms(2) zero_less_mult_pos [of d e] by simp
  moreover have "e \<noteq> 1" using e assms(3) by auto
  ultimately have "1 < e" by simp
  have "d \<le> 256 \<or> e \<le> 256"
  proof (rule ccontr)
    assume "\<not> (d \<le> 256 \<or> e \<le> 256)"
    then have "257 * 257 \<le> d * e" by (intro mult_mono) simp_all
    with e show False by simp
  qed
  moreover have "e dvd 65537" unfolding e by simp
  ultimately show False using small [of d] small [of e] assms \<open>1 < e\<close> by linarith
qed

lemma coprime_65537: "0 < x \<Longrightarrow> x < 65537 \<Longrightarrow> gcd x 65537 = (1::int)"
proof -
  assume x: "0 < x" "x < 65537"
  let ?g = "gcd x 65537"
  have "?g dvd x" by simp
  then have "?g \<le> x" using x(1) by (rule zdvd_imp_le)
  moreover have "?g \<ge> 1" using x(1) by (simp add: int_one_le_iff_zero_less)
  moreover have "?g dvd 65537" by simp
  moreover have "?g \<noteq> 1 \<Longrightarrow> 1 < ?g" "?g < 65537" using calculation x(2) by linarith+
  ultimately show "?g = 1" using divisor_65537 [of ?g] by blast
qed

instantiation gf :: field
begin

definition inverse_gf :: "gf \<Rightarrow> gf" where
  "inverse_gf a = of_int (fst (bezw (nat (gf_rep a)) 65537))"

definition divide_gf :: "gf \<Rightarrow> gf \<Rightarrow> gf" where
  "divide_gf a b = a * inverse b"

instance
proof
  fix a b :: gf
  show "inverse a * a = 1" if "a \<noteq> 0"
  proof -
    have r: "0 < gf_rep a" "gf_rep a < 65537"
      using gf_rep_range [of a] that gf_rep_inject [of a 0] by (auto simp: zero_gf.rep_eq less_le)
    let ?x = "nat (gf_rep a)"
    have "int (gcd ?x 65537) = 1" using coprime_65537 [OF r] r by (simp add: gcd_int_def)
    then have "fst (bezw ?x 65537) * gf_rep a = 1 - snd (bezw ?x 65537) * 65537"
      using bezw_aux [of ?x 65537] r by simp
    moreover have "(1 - z * 65537) mod 65537 = (1::int) mod 65537" for z
      using mod_mult_self1 [of 1 "- z" "65537::int"] by simp
    ultimately have "(of_int (fst (bezw ?x 65537) * gf_rep a) :: gf) = of_int 1"
      by (simp only: of_int_gf_eq_iff)
    then show ?thesis by (simp add: inverse_gf_def of_int_gf_rep)
  qed
  show "a div b = a * inverse b" by (simp add: divide_gf_def)
  show "inverse (0::gf) = 0"
    by (simp add: inverse_gf_def zero_gf.rep_eq bezw_non_0 bezw_0)
qed

end

lemma big_characteristic_gf: "big_characteristic TYPE(gf)"
  unfolding big_characteristic_def
proof (intro allI impI)
  fix n :: nat assume "0 < n \<and> n \<le> 65535"
  then have "int n mod 65537 \<noteq> 0" by (simp add: mod_pos_pos_trivial)
  then show "(of_nat n :: gf) \<noteq> 0" using of_int_gf_eq_iff [of "int n" 0] by simp
qed

instantiation gf :: equal
begin

definition equal_gf :: "gf \<Rightarrow> gf \<Rightarrow> bool" where
  "equal_gf a b \<longleftrightarrow> gf_rep a = gf_rep b"

instance by standard (simp add: equal_gf_def gf_rep_inject)

end

section \<open>Big-endian bytes\<close>

primrec to_base :: "nat \<Rightarrow> int \<Rightarrow> bytes" where
  "to_base 0 v = []"
| "to_base (Suc n) v = to_base n (v div 256) @ [word_of_int v]"

definition from_base :: "bytes \<Rightarrow> int" where
  "from_base b = foldl (\<lambda>a w. a * 256 + uint w) 0 b"

lemma to_base_length [simp]: "length (to_base n v) = n"
  by (induction n arbitrary: v) simp_all

lemma from_to_base: "from_base (to_base n v) = v mod 256 ^ n"
proof (induction n arbitrary: v)
  case (Suc n)
  have "from_base (to_base (Suc n) v) = from_base (to_base n (v div 256)) * 256 + v mod 256"
    by (simp add: from_base_def uint_word_of_int)
  also have "\<dots> = v mod 256 ^ Suc n"
    using zmod_zmult2_eq [of "256 ^ n" v 256] by (simp add: Suc.IH mult.commute)
  finally show ?case .
qed (simp add: from_base_def)

lemma from_to_base_gf: "from_base (to_base 32 (gf_rep a)) = gf_rep a"
  using gf_rep_range [of a] by (simp add: from_to_base mod_pos_pos_trivial)

section \<open>The instance\<close>

abbreviation odd_rep :: "gf \<Rightarrow> bool" where
  "odd_rep a \<equiv> odd (gf_rep a)"

definition toy_challenge :: "gf \<Rightarrow> gf \<Rightarrow> bytes \<Rightarrow> gf" where
  "toy_challenge R X m = 3 * R + 5 * X + of_int (\<Sum>b\<leftarrow>m. uint b) + 1"

definition toy_keypair :: "gf \<Rightarrow> gf \<times> gf" where
  "toy_keypair d = (if odd_rep d then (- d, - d) else (d, d))"

definition toy_point_bytes :: "gf \<Rightarrow> bytes" where
  "toy_point_bytes P = (if P = 0 then 0 else 2) # to_base 32 (gf_rep P)"

definition toy :: "(gf, gf) secp" where
  "toy = \<lparr>
     scalar_to_bytes = (\<lambda>s. to_base 32 (gf_rep s)),
     scalar_from_bytes = (\<lambda>b. let v = from_base b in if length b = 32 \<and> v < 65537 then Some (of_int v) else None),
     g_mul = (\<lambda>s P. s * P),
     base_point = 1,
     point_to_bytes = toy_point_bytes,
     point_from_bytes = (\<lambda>b. let P = of_int (from_base (tl b)) in if P \<noteq> 0 \<and> b = toy_point_bytes P then Some P else None),
     even_y = (\<lambda>P. if odd_rep P then (- P, True) else (P, False)),
     to_xonly_bytes = (\<lambda>P. to_base 32 (gf_rep P)),
     from_xonly_bytes = (\<lambda>b. let P = of_int (from_base b) in if P \<noteq> 0 \<and> \<not> odd_rep P then Some P else None),
     new_keypair = toy_keypair,
     schnorr_challenge = toy_challenge,
     schnorr_sign = (\<lambda>(d, X) m. (- 1, - 1 + toy_challenge (- 1) X m * d)),
     schnorr_verify = (\<lambda>X m (R, s). s = R + toy_challenge R X m * X),
     signature_to_bytes = (\<lambda>(R, s). to_base 32 (gf_rep R) @ to_base 32 (gf_rep s))\<rparr>"

lemma toy_simps [simp]:
  "scalar_to_bytes toy s = to_base 32 (gf_rep s)"
  "scalar_from_bytes toy b = (let v = from_base b in if length b = 32 \<and> v < 65537 then Some (of_int v) else None)"
  "g_mul toy s P = s * P" "base_point toy = 1" "point_to_bytes toy = toy_point_bytes"
  "point_from_bytes toy b = (let P = of_int (from_base (tl b)) in if P \<noteq> 0 \<and> b = toy_point_bytes P then Some P else None)"
  "even_y toy P = (if odd_rep P then (- P, True) else (P, False))"
  "to_xonly_bytes toy P = to_base 32 (gf_rep P)"
  "from_xonly_bytes toy b = (let P = of_int (from_base b) in if P \<noteq> 0 \<and> \<not> odd_rep P then Some P else None)"
  "new_keypair toy = toy_keypair" "schnorr_challenge toy = toy_challenge"
  "schnorr_sign toy (d, X) m = (- 1, - 1 + toy_challenge (- 1) X m * d)"
  "schnorr_verify toy X m (R, s) \<longleftrightarrow> s = R + toy_challenge R X m * X"
  "signature_to_bytes toy (R, s) = to_base 32 (gf_rep R) @ to_base 32 (gf_rep s)"
  by (simp_all add: toy_def)

lemma gf_rep_minus: "a \<noteq> 0 \<Longrightarrow> gf_rep (- a) = 65537 - gf_rep a"
proof -
  assume "a \<noteq> 0"
  then have "0 < gf_rep a" using gf_rep_range [of a] gf_rep_inject [of a 0] by (auto simp: zero_gf.rep_eq less_le)
  then have "(- gf_rep a) mod 65537 = 65537 - gf_rep a"
    using gf_rep_range [of a] by (simp add: zmod_zminus1_eq_if)
  then show ?thesis by (simp add: uminus_gf.rep_eq)
qed

lemma odd_rep_minus: "a \<noteq> 0 \<Longrightarrow> odd_rep (- a) \<longleftrightarrow> \<not> odd_rep a"
  by (simp add: gf_rep_minus)

lemma toy_scalar_codec: "scalar_codec_ok toy"
  using gf_rep_range by (auto simp: scalar_codec_ok_def from_to_base_gf of_int_gf_rep Let_def)

lemma toy_group: "group_ok toy"
  by (auto simp: group_ok_def algebra_simps)

lemma toy_point_bytes_value: "of_int (from_base (tl (toy_point_bytes P))) = P"
  by (simp add: toy_point_bytes_def from_to_base_gf of_int_gf_rep)

lemma toy_point_codec: "point_codec_ok toy"
proof -
  have "inj toy_point_bytes" by (rule injI) (metis toy_point_bytes_value)
  moreover have "length (toy_point_bytes P) = 33" for P by (simp add: toy_point_bytes_def)
  ultimately show ?thesis by (auto simp: point_codec_ok_def toy_point_bytes_value Let_def split: if_splits)
qed

lemma toy_even_y: "even_y_ok toy"
  using odd_rep_minus by (auto simp: even_y_ok_def from_to_base_gf of_int_gf_rep Let_def split: if_splits)

lemma toy_schnorr: "schnorr_ok toy"
  by (auto simp: schnorr_ok_def toy_keypair_def)

lemma toy_laws: "secp_laws toy"
  by (simp add: secp_laws_def toy_scalar_codec toy_group toy_point_codec toy_even_y toy_schnorr)

section \<open>A small policy with ranks\<close>

text \<open>Threshold 2; participant 1 of rank 0, participants 2 and 3 of rank 1; the quorum 2, 1.\<close>

definition demo_config :: HierarchicalThresholdConfig where
  "demo_config = \<lparr>hc_threshold = 2, hc_participants =
     [\<lparr>rp_id = ParticipantId 1, rp_rank = Rank 0, rp_label = None\<rparr>,
      \<lparr>rp_id = ParticipantId 2, rp_rank = Rank 1, rp_label = None\<rparr>,
      \<lparr>rp_id = ParticipantId 3, rp_rank = Rank 1, rp_label = Some ''backup''\<rparr>]\<rparr>"

abbreviation demo_signers :: "ParticipantId list" where
  "demo_signers \<equiv> [ParticipantId 2, ParticipantId 1]"

lemma demo_wf: "hc_wf demo_config"
  by (simp add: hc_wf_def demo_config_def)

lemma demo_simps [simp]:
  "hc_threshold demo_config = 2" "length (hc_participants demo_config) = 3"
  "rp_id ` set (hc_participants demo_config) = {ParticipantId 1, ParticipantId 2, ParticipantId 3}"
  "hc_rank_of demo_config (ParticipantId 1) = Some (Rank 0)" "hc_rank_of demo_config (ParticipantId 2) = Some (Rank 1)"
  "hc_rank demo_config (ParticipantId 1) = 0" "hc_rank demo_config (ParticipantId 2) = 1"
  by (simp_all add: demo_config_def hc_rank_def hc_rank_of_def)

lemma demo_quorum: "hierarchical_quorum demo_config demo_signers"
proof -
  have "i < length (filter (\<lambda>x. hc_rank demo_config x \<le> i) demo_signers)" if "i < 2" for i
    using that by (cases "i = 0") simp_all
  then show ?thesis by (simp add: hierarchical_quorum_def del: filter.simps)
qed

lemma two_points_regular:
  fixes C :: "('f::field, 'p) secp"
  assumes "bp_derivative_order a = 1" "bp_derivative_order b = 0"
  shows "\<exists>cs. birkhoff_interpolation_coefficients C [a, b] = Inr cs"
proof (cases "birkhoff_interpolation_coefficients C [a, b]")
  case (Inl e)
  then obtain x :: "nat \<Rightarrow> 'f" where x: "dependent_conditions [a, b] x"
    using birkhoff_coefficients_Inl_iff [of "[a, b]" C] by auto
  have "x 0 * point_basis a j + x (Suc 0) * point_basis b j = 0" if "j < 2" for j
    using x that by (simp add: dependent_conditions_def numeral_2_eq_2)
  from this [of 0] this [of 1] have "x 0 = 0 \<and> x (Suc 0) = 0"
    using assms by (simp add: point_basis_def dbasis_def)
  with x show ?thesis by (auto simp: dependent_conditions_def less_Suc_eq)
qed blast

lemma demo_regular: "regular_quorum C demo_config demo_signers"
proof -
  have "birkhoff_points_from_hierarchical_signer_set demo_signers demo_config
      = Inr [signer_point demo_config (ParticipantId 2), signer_point demo_config (ParticipantId 1)]"
    using demo_quorum by (simp add: birkhoff_points_iff [OF demo_wf])
  then show ?thesis
    using two_points_regular [of "signer_point demo_config (ParticipantId 2)" "signer_point demo_config (ParticipantId 1)" C]
    by (auto simp: regular_quorum_def is_ok_iff hc_rank_of_def demo_config_def)
qed

text \<open>A key set dealt from the polynomial \<open>4 + 7 x\<close>, and one round of nonces.\<close>

definition demo_keys :: HtssLocalKeySet where
  "demo_keys = \<lparr>ks_group_key = \<lparr>gk_xonly_public_key = to_base 32 4, gk_verification_key_bytes = []\<rparr>,
     ks_shares = map (deal_share toy [4, 7]) (hc_participants demo_config)\<rparr>"

lemma gf_rep_numeral [simp]: "gf_rep (numeral n) = numeral n mod 65537"
  using gf_rep_of_int [of "numeral n"] by simp

lemma gf_numeral_eq_iff: "(numeral m :: gf) = numeral n \<longleftrightarrow> numeral m mod 65537 = (numeral n mod 65537 :: int)"
  using of_int_gf_eq_iff [of "numeral m" "numeral n"] by simp

lemma gf_numeral_neq_0: "(numeral m :: gf) = 0 \<longleftrightarrow> numeral m mod (65537 :: int) = 0"
  using of_int_gf_eq_iff [of "numeral m" 0] by simp

lemma demo_dealt: "htss_dealt toy demo_config [4, 7] demo_keys"
  by (simp add: htss_dealt_def demo_keys_def gf_numeral_neq_0)

definition demo_session :: SessionId where
  "demo_session = SessionId ''demo''"

definition demo_nonce :: "ParticipantId \<Rightarrow> HtssLocalNonce" where
  "demo_nonce x = projr (htss_nonce toy 3 demo_session (share_of demo_keys x))"

lemma demo_share_of:
  "x \<in> set demo_signers \<Longrightarrow> share_of demo_keys x \<in> set (ks_shares demo_keys) \<and> hs_participant_id (share_of demo_keys x) = x"
  using find_dealt_share(2,3) [OF demo_wf demo_dealt, of x] by (auto simp: demo_config_def)

lemma demo_nonce_eq: "htss_nonce toy 3 demo_session (share_of demo_keys x) = Inr (demo_nonce x)"
  by (simp add: demo_nonce_def htss_nonce_def)

end
