(* ===== verification/Transport.thy ===== *)
theory Transport
  imports Core_Messages
begin

text \<open>
  \<open>dkgkit-transport\<close>: the \<open>Transport\<close> trait as a record of its four operations on a state
  \<open>'s\<close>, with \<open>drain_session\<close> as in the trait's default body, and the in-memory transport.
  The locales \<open>drain_queue\<close> and \<open>message_queue\<close> are the contract callers rely on: published messages are
  delivered once, in order, to the first drain that asks for them.
\<close>

section \<open>The trait\<close>

record 's Transport =
  tr_connect :: "'s \<Rightarrow> 's \<times> unit result"
  tr_disconnect :: "'s \<Rightarrow> 's \<times> unit result"
  tr_publish :: "'s \<Rightarrow> ProtocolMessage \<Rightarrow> 's \<times> unit result"
  tr_drain_matching :: "'s \<Rightarrow> SessionId \<Rightarrow> (ProtocolMessage \<Rightarrow> bool) \<Rightarrow> 's \<times> ProtocolMessage list result"

definition tr_drain_session :: "'s Transport \<Rightarrow> 's \<Rightarrow> SessionId \<Rightarrow> 's \<times> ProtocolMessage list result" where
  "tr_drain_session T self session_id = tr_drain_matching T self session_id (\<lambda>_. True)"

section \<open>The in-memory transport\<close>

record MemoryTransport =
  mt_connected :: bool
  mt_messages :: "ProtocolMessage list"

definition MemoryTransport_default :: MemoryTransport where
  "MemoryTransport_default = \<lparr>mt_connected = False, mt_messages = []\<rparr>"

definition mt_is_connected :: "MemoryTransport \<Rightarrow> bool" where
  "mt_is_connected self = mt_connected self"

definition mt_pending_len :: "MemoryTransport \<Rightarrow> nat" where
  "mt_pending_len self = length (mt_messages self)"

definition mt_peek_session :: "MemoryTransport \<Rightarrow> SessionId \<Rightarrow> ProtocolMessage list" where
  "mt_peek_session self session_id = filter (\<lambda>message. pm_session_id message = session_id) (mt_messages self)"

definition mt_connect :: "MemoryTransport \<Rightarrow> MemoryTransport \<times> unit result" where
  "mt_connect self = (self\<lparr>mt_connected := True\<rparr>, Inr ())"

definition mt_disconnect :: "MemoryTransport \<Rightarrow> MemoryTransport \<times> unit result" where
  "mt_disconnect self = (self\<lparr>mt_connected := False\<rparr>, Inr ())"

definition mt_publish :: "MemoryTransport \<Rightarrow> ProtocolMessage \<Rightarrow> MemoryTransport \<times> unit result" where
  "mt_publish self message = (self\<lparr>mt_messages := mt_messages self @ [message]\<rparr>, Inr ())"

text \<open>
  \<open>Vec::retain\<close> with a closure that pushes to \<open>matched\<close>: one pass over the messages,
  which keeps a message or moves it to \<open>matched\<close>.
\<close>

fun retain_unmatched ::
    "SessionId \<Rightarrow> (ProtocolMessage \<Rightarrow> bool) \<Rightarrow> ProtocolMessage list \<Rightarrow> ProtocolMessage list
      \<Rightarrow> ProtocolMessage list \<times> ProtocolMessage list" where
  "retain_unmatched session_id predicate [] matched = ([], matched)"
| "retain_unmatched session_id predicate (message # rest) matched =
     (if pm_session_id message = session_id \<and> predicate message
      then retain_unmatched session_id predicate rest (matched @ [message])
      else let (kept, matched) = retain_unmatched session_id predicate rest matched in (message # kept, matched))"

definition mt_drain_matching ::
    "MemoryTransport \<Rightarrow> SessionId \<Rightarrow> (ProtocolMessage \<Rightarrow> bool) \<Rightarrow> MemoryTransport \<times> ProtocolMessage list result" where
  "mt_drain_matching self session_id predicate =
     (let (kept, matched) = retain_unmatched session_id predicate (mt_messages self) []
      in (self\<lparr>mt_messages := kept\<rparr>, Inr matched))"

definition memory_ops :: "MemoryTransport Transport" where
  "memory_ops = \<lparr>tr_connect = mt_connect, tr_disconnect = mt_disconnect, tr_publish = mt_publish,
     tr_drain_matching = mt_drain_matching\<rparr>"

section \<open>The contract\<close>

text \<open>
  \<open>ok\<close> is the transport's invariant. Draining takes the messages asked for out of the
  pending ones and leaves the others in order.
\<close>

locale drain_queue =
  fixes T :: "'s Transport" and pending :: "'s \<Rightarrow> ProtocolMessage list" and ok :: "'s \<Rightarrow> bool"
  assumes drain: "ok s \<Longrightarrow> \<exists>s'. tr_drain_matching T s sid P =
        (s', Inr (filter (\<lambda>m. pm_session_id m = sid \<and> P m) (pending s))) \<and> ok s'
      \<and> pending s' = filter (\<lambda>m. \<not> (pm_session_id m = sid \<and> P m)) (pending s)"
begin

text \<open>Nothing is lost and nothing is duplicated: drained and kept messages are the pending ones.\<close>

lemma drain_partition:
  assumes "ok s" "tr_drain_matching T s sid P = (s', Inr ms)"
  shows "mset ms + mset (pending s') = mset (pending s)"
proof -
  have "ms = filter (\<lambda>m. pm_session_id m = sid \<and> P m) (pending s)"
    "pending s' = filter (\<lambda>m. \<not> (pm_session_id m = sid \<and> P m)) (pending s)"
    using drain [OF assms(1), of sid P] assms(2) by simp_all
  then show ?thesis by (simp add: multiset_partition [symmetric])
qed

lemma drain_twice:
  assumes "ok s" "tr_drain_matching T s sid P = (s', r)"
  shows "snd (tr_drain_matching T s' sid P) = Inr []"
proof -
  from drain [OF assms(1), of sid P] assms(2)
  have s': "ok s'" "pending s' = filter (\<lambda>m. \<not> (pm_session_id m = sid \<and> P m)) (pending s)" by auto
  then have "filter (\<lambda>m. pm_session_id m = sid \<and> P m) (pending s') = []" by (simp add: filter_empty_conv)
  with drain [OF s'(1), of sid P] show ?thesis by auto
qed

end

text \<open>
  A transport that keeps what is published: \<open>deliverable\<close> are the messages it can carry.
  The in-memory transport has no restriction, the Nostr one has.
\<close>

locale message_queue = drain_queue T pending ok
  for T :: "'s Transport" and pending :: "'s \<Rightarrow> ProtocolMessage list" and ok :: "'s \<Rightarrow> bool" +
  fixes deliverable :: "ProtocolMessage \<Rightarrow> bool"
  assumes connect: "ok s \<Longrightarrow> ok (fst (tr_connect T s)) \<and> pending (fst (tr_connect T s)) = pending s"
    and disconnect: "ok s \<Longrightarrow> ok (fst (tr_disconnect T s)) \<and> pending (fst (tr_disconnect T s)) = pending s"
    and publish: "ok s \<Longrightarrow> deliverable m \<Longrightarrow> \<exists>s'. tr_publish T s m = (s', Inr ()) \<and> ok s' \<and> pending s' = pending s @ [m]"
begin

text \<open>Publishing a list of messages one after the other.\<close>

lemma publish_all:
  assumes "ok s" "\<forall>m\<in>set ms. deliverable m"
  shows "ok (fold (\<lambda>m s. fst (tr_publish T s m)) ms s)
    \<and> pending (fold (\<lambda>m s. fst (tr_publish T s m)) ms s) = pending s @ ms"
  using assms
proof (induction ms arbitrary: s)
  case (Cons m ms)
  from publish [of s m] Cons.prems obtain s' where "tr_publish T s m = (s', Inr ())" "ok s'" "pending s' = pending s @ [m]"
    by auto
  with Cons.IH [of s'] Cons.prems(2) show ?case by simp
qed simp

end

lemma retain_unmatched_eq:
  "retain_unmatched sid P ms acc = (filter (\<lambda>m. \<not> (pm_session_id m = sid \<and> P m)) ms,
     acc @ filter (\<lambda>m. pm_session_id m = sid \<and> P m) ms)"
  by (induction ms arbitrary: acc) auto

interpretation memory: message_queue memory_ops mt_messages "\<lambda>_. True" "\<lambda>_. True"
  by unfold_locales
    (auto simp: memory_ops_def mt_connect_def mt_disconnect_def mt_publish_def mt_drain_matching_def retain_unmatched_eq)

end
