(* ===== verification/Nostr.thy ===== *)
theory Nostr
  imports Transport
begin

text \<open>
  \<open>dkgkit-nostr/src/lib.rs\<close>: the envelope that carries a protocol message in a Nostr event,
  its tags and their validation, the transport over a local list of events, and the
  placeholder relay transport. Events carry text, so the standard library's UTF-8
  validation is modelled too.
\<close>

section \<open>Text\<close>

definition continuation :: "u8 \<Rightarrow> bool" where
  "continuation b \<longleftrightarrow> 0x80 \<le> b \<and> b \<le> 0xBF"

text \<open>
  One step of \<open>core::str\<close>'s validation at the start of a byte string: the width of the
  character, or the length of the invalid sequence (\<open>None\<close> at the end of the input).
\<close>

definition utf8_step :: "bytes \<Rightarrow> nat option + nat" where
  "utf8_step bs =
     (let b = (\<lambda>i. bs ! i); has = (\<lambda>i. i < length bs);
          tail = (\<lambda>i k. if \<not> has i then Inl None else if continuation (b i) then k else Inl (Some i)) in
      if b 0 < 0x80 then Inr 1
      else if 0xC2 \<le> b 0 \<and> b 0 \<le> 0xDF then tail 1 (Inr 2)
      else if 0xE0 \<le> b 0 \<and> b 0 \<le> 0xEF then
        (if \<not> has 1 then Inl None
         else if b 0 = 0xE0 \<and> 0xA0 \<le> b 1 \<and> b 1 \<le> 0xBF
            \<or> 0xE1 \<le> b 0 \<and> b 0 \<le> 0xEC \<and> continuation (b 1)
            \<or> b 0 = 0xED \<and> 0x80 \<le> b 1 \<and> b 1 \<le> 0x9F
            \<or> 0xEE \<le> b 0 \<and> continuation (b 1)
         then tail 2 (Inr 3) else Inl (Some 1))
      else if 0xF0 \<le> b 0 \<and> b 0 \<le> 0xF4 then
        (if \<not> has 1 then Inl None
         else if b 0 = 0xF0 \<and> 0x90 \<le> b 1 \<and> b 1 \<le> 0xBF
            \<or> 0xF1 \<le> b 0 \<and> b 0 \<le> 0xF3 \<and> continuation (b 1)
            \<or> b 0 = 0xF4 \<and> 0x80 \<le> b 1 \<and> b 1 \<le> 0x8F
         then tail 2 (tail 3 (Inr 4)) else Inl (Some 1))
      else Inl (Some 1))"

lemma utf8_step_pos: "utf8_step bs = Inr w \<Longrightarrow> 0 < w"
  by (auto simp: utf8_step_def Let_def split: if_splits)

text \<open>The position and length of the first invalid sequence.\<close>

function utf8_error :: "nat \<Rightarrow> bytes \<Rightarrow> (nat \<times> nat option) option" where
  "utf8_error i bs =
     (if bs = [] then None
      else case utf8_step bs of Inl len \<Rightarrow> Some (i, len) | Inr w \<Rightarrow> utf8_error (i + w) (drop w bs))"
  by pat_completeness auto
termination
  by (relation "measure (\<lambda>(i, bs). length bs)") (auto dest: utf8_step_pos)

declare utf8_error.simps [simp del]

text \<open>\<open>String::from_utf8\<close>, an error as its \<open>Display\<close> text.\<close>

definition from_utf8 :: "bytes \<Rightarrow> string + string" where
  "from_utf8 bs =
     (case utf8_error 0 bs of
        None \<Rightarrow> Inr (map (\<lambda>w. char_of (unat w)) bs)
      | Some (i, Some len) \<Rightarrow> Inl (fmt [''invalid utf-8 sequence of '', show_nat len, '' bytes from index '', show_nat i])
      | Some (i, None) \<Rightarrow> Inl (fmt [''incomplete utf-8 byte sequence from index '', show_nat i]))"

section \<open>Envelopes\<close>

definition DKGKIT_NOSTR_EVENT_KIND :: u64 where
  "DKGKIT_NOSTR_EVENT_KIND = 30333"

definition DKGKIT_NOSTR_APP_TAG :: string where
  "DKGKIT_NOSTR_APP_TAG = ''dkgkit''"

record NostrEnvelopeEvent =
  ne_kind :: u64
  ne_app :: string
  ne_session_id :: string
  ne_sender :: u16
  ne_recipient :: "u16 option"
  ne_message_kind :: string
  ne_content :: string

definition NostrEnvelopeEvent_from_protocol_message ::
    "ProtocolMessage codec \<Rightarrow> ProtocolMessage \<Rightarrow> NostrEnvelopeEvent result" where
  "NostrEnvelopeEvent_from_protocol_message J message =
     rbind (encode_json J message) (\<lambda>bytes.
     rbind (map_serialization_err (from_utf8 bytes)) (\<lambda>content.
     Inr \<lparr>ne_kind = DKGKIT_NOSTR_EVENT_KIND, ne_app = DKGKIT_NOSTR_APP_TAG,
          ne_session_id = session_str (pm_session_id message), ne_sender = pid_val (pm_sender message),
          ne_recipient = map_option pid_val (pm_recipient message),
          ne_message_kind = kind_as_str (pm_kind message), ne_content = content\<rparr>))"

definition validate_metadata :: "NostrEnvelopeEvent \<Rightarrow> unit result" where
  "validate_metadata self =
     rbind (ensure (ne_kind self = DKGKIT_NOSTR_EVENT_KIND)
              (Protocol (fmt [''unexpected Nostr event kind: expected '', show_nat (unat DKGKIT_NOSTR_EVENT_KIND),
                 '', got '', show_nat (unat (ne_kind self))]))) (\<lambda>_.
     rbind (ensure (ne_app self = DKGKIT_NOSTR_APP_TAG)
              (Protocol (fmt [''unexpected Nostr app tag: expected '', DKGKIT_NOSTR_APP_TAG, '', got '', ne_app self]))) (\<lambda>_.
     rbind (SessionId_new (ne_session_id self)) (\<lambda>_.
     rbind (ParticipantId_new (ne_sender self)) (\<lambda>_.
     rbind (case ne_recipient self of None \<Rightarrow> Inr ()
            | Some recipient \<Rightarrow> rbind (ParticipantId_new recipient) (\<lambda>_. Inr ())) (\<lambda>_.
     ensure (\<not> (case kind_from_str (ne_message_kind self) of Custom value \<Rightarrow> trim_is_empty value | _ \<Rightarrow> False))
       EmptyMessageKind)))))"

definition NostrEnvelopeEvent_to_protocol_message ::
    "ProtocolMessage codec \<Rightarrow> NostrEnvelopeEvent \<Rightarrow> ProtocolMessage result" where
  "NostrEnvelopeEvent_to_protocol_message J self =
     rbind (validate_metadata self) (\<lambda>_.
     rbind (decode_json J (as_bytes (ne_content self))) (\<lambda>message.
     rbind (ensure (session_str (pm_session_id message) = ne_session_id self)
              (Protocol ''Nostr event session tag does not match message content'')) (\<lambda>_.
     rbind (ensure (pid_val (pm_sender message) = ne_sender self)
              (Protocol ''Nostr event sender tag does not match message content'')) (\<lambda>_.
     rbind (ensure (map_option pid_val (pm_recipient message) = ne_recipient self)
              (Protocol ''Nostr event recipient tag does not match message content'')) (\<lambda>_.
     rbind (ensure (kind_as_str (pm_kind message) = ne_message_kind self)
              (Protocol ''Nostr event kind tag does not match message content'')) (\<lambda>_.
     Inr message))))))"

definition ne_tags :: "NostrEnvelopeEvent \<Rightarrow> string list list" where
  "ne_tags self =
     [[''app'', ne_app self], [''session'', ne_session_id self], [''sender'', show_u16 (ne_sender self)],
      [''message_kind'', ne_message_kind self]]
     @ (case ne_recipient self of None \<Rightarrow> [] | Some recipient \<Rightarrow> [[''recipient'', show_u16 recipient]])"

section \<open>Transports\<close>

record NostrTransportConfig =
  ntc_relays :: "string list"

record NostrTransport =
  nt_config :: NostrTransportConfig

definition NostrTransport_new :: "NostrTransportConfig \<Rightarrow> NostrTransport" where
  "NostrTransport_new config = \<lparr>nt_config = config\<rparr>"

definition nostr_ops :: "NostrTransport Transport" where
  "nostr_ops =
     \<lparr>tr_connect = (\<lambda>self. (self, Inl (NotImplemented ''Nostr relay transport migration''))),
      tr_disconnect = (\<lambda>self. (self, Inr ())),
      tr_publish = (\<lambda>self _. (self, Inl (NotImplemented ''Nostr publish migration''))),
      tr_drain_matching = (\<lambda>self _ _. (self, Inl (NotImplemented ''Nostr subscribe/drain migration'')))\<rparr>"

record LocalNostrEventTransport =
  ln_connected :: bool
  ln_events :: "NostrEnvelopeEvent list"

definition LocalNostrEventTransport_default :: LocalNostrEventTransport where
  "LocalNostrEventTransport_default = \<lparr>ln_connected = False, ln_events = []\<rparr>"

definition ln_pending_len :: "LocalNostrEventTransport \<Rightarrow> nat" where
  "ln_pending_len self = length (ln_events self)"

definition ln_connect :: "LocalNostrEventTransport \<Rightarrow> LocalNostrEventTransport \<times> unit result" where
  "ln_connect self = (self\<lparr>ln_connected := True\<rparr>, Inr ())"

definition ln_disconnect :: "LocalNostrEventTransport \<Rightarrow> LocalNostrEventTransport \<times> unit result" where
  "ln_disconnect self = (self\<lparr>ln_connected := False\<rparr>, Inr ())"

definition ln_publish ::
    "ProtocolMessage codec \<Rightarrow> LocalNostrEventTransport \<Rightarrow> ProtocolMessage \<Rightarrow> LocalNostrEventTransport \<times> unit result" where
  "ln_publish J self message =
     (case NostrEnvelopeEvent_from_protocol_message J message of
        Inl e \<Rightarrow> (self, Inl e)
      | Inr event \<Rightarrow> (self\<lparr>ln_events := ln_events self @ [event]\<rparr>, Inr ()))"

text \<open>
  The loop over \<open>self.events.drain(..)\<close>. When \<open>?\<close> leaves it early, the drained iterator is
  dropped with all its events and \<open>self.events = kept\<close> is not reached: the list stays empty.
\<close>

definition ln_drain_step ::
    "ProtocolMessage codec \<Rightarrow> SessionId \<Rightarrow> (ProtocolMessage \<Rightarrow> bool) \<Rightarrow> NostrEnvelopeEvent
      \<Rightarrow> ProtocolMessage list \<times> NostrEnvelopeEvent list
      \<Rightarrow> (ProtocolMessage list \<times> NostrEnvelopeEvent list) result" where
  "ln_drain_step J session_id predicate event st =
     (let (drained, kept) = st in
      rbind (NostrEnvelopeEvent_to_protocol_message J event) (\<lambda>message.
      if pm_session_id message = session_id \<and> predicate message
      then Inr (drained @ [message], kept)
      else Inr (drained, kept @ [event])))"

definition ln_drain_matching ::
    "ProtocolMessage codec \<Rightarrow> LocalNostrEventTransport \<Rightarrow> SessionId \<Rightarrow> (ProtocolMessage \<Rightarrow> bool)
      \<Rightarrow> LocalNostrEventTransport \<times> ProtocolMessage list result" where
  "ln_drain_matching J self session_id predicate =
     (case try_for (ln_drain_step J session_id predicate) (ln_events self) ([], []) of
        Inl e \<Rightarrow> (self\<lparr>ln_events := []\<rparr>, Inl e)
      | Inr (drained, kept) \<Rightarrow> (self\<lparr>ln_events := kept\<rparr>, Inr drained))"

definition local_nostr_ops :: "ProtocolMessage codec \<Rightarrow> LocalNostrEventTransport Transport" where
  "local_nostr_ops J = \<lparr>tr_connect = ln_connect, tr_disconnect = ln_disconnect, tr_publish = ln_publish J,
     tr_drain_matching = ln_drain_matching J\<rparr>"

section \<open>The envelope round trip\<close>

text \<open>\<open>serde_json\<close> writes UTF-8.\<close>

definition json_ok :: "ProtocolMessage codec \<Rightarrow> bool" where
  "json_ok J \<longleftrightarrow> codec_ok J \<and> (\<forall>m b. to_vec J m = Inr b \<longrightarrow> utf8_error 0 b = None)"

text \<open>Messages with proper identifiers, a session name and a kind name.\<close>

definition deliverable :: "ProtocolMessage \<Rightarrow> bool" where
  "deliverable m \<longleftrightarrow> \<not> trim_is_empty (session_str (pm_session_id m)) \<and> pid_val (pm_sender m) \<noteq> 0
     \<and> (\<forall>r. pm_recipient m = Some r \<longrightarrow> pid_val r \<noteq> 0) \<and> \<not> trim_is_empty (kind_as_str (pm_kind m))"

lemma as_bytes_from_utf8: "from_utf8 b = Inr s \<Longrightarrow> as_bytes s = b"
proof -
  assume "from_utf8 b = Inr s"
  then have "s = map (\<lambda>w. char_of (unat w)) b"
    by (auto simp: from_utf8_def split: option.splits prod.splits)
  moreover have "unat w mod 256 = unat w" for w :: u8
    using unsigned_less [where 'a = nat, of w] by simp
  ultimately show ?thesis by (simp add: as_bytes_def o_def map_idI)
qed

lemma json_ok_encodes:
  assumes "json_ok J"
  shows "\<exists>b s. encode_json J m = Inr b \<and> from_utf8 b = Inr s \<and> decode_json J (as_bytes s) = Inr m"
proof -
  from assms obtain b where b: "to_vec J m = Inr b" "from_slice J b = Inr m" "utf8_error 0 b = None"
    unfolding json_ok_def codec_ok_def by blast
  then have "from_utf8 b = Inr (map (\<lambda>w. char_of (unat w)) b)" by (simp add: from_utf8_def)
  with b as_bytes_from_utf8 [OF this] show ?thesis by (auto simp: encode_json_def decode_json_def)
qed

lemma reserved_not_blank: "kind_from_str s = Custom v \<Longrightarrow> v = s"
  by (auto simp: kind_from_str_def split: if_splits)

lemma validate_metadata_iff:
  "validate_metadata e = Inr u \<longleftrightarrow> ne_kind e = DKGKIT_NOSTR_EVENT_KIND \<and> ne_app e = DKGKIT_NOSTR_APP_TAG
     \<and> \<not> trim_is_empty (ne_session_id e) \<and> ne_sender e \<noteq> 0 \<and> (\<forall>r. ne_recipient e = Some r \<longrightarrow> r \<noteq> 0)
     \<and> (\<forall>v. kind_from_str (ne_message_kind e) = Custom v \<longrightarrow> \<not> trim_is_empty v)"
  by (auto simp: validate_metadata_def rbind_Inr_iff ensure_Inr_iff SessionId_new_def ParticipantId_new_def
      split: option.splits if_splits ProtocolMessageKind.splits)

lemma envelope_roundtrip:
  assumes J: "json_ok J" and m: "deliverable m"
  shows "\<exists>e. NostrEnvelopeEvent_from_protocol_message J m = Inr e \<and> NostrEnvelopeEvent_to_protocol_message J e = Inr m"
proof -
  from json_ok_encodes [OF J, of m] obtain b s
    where bs: "encode_json J m = Inr b" "from_utf8 b = Inr s" "decode_json J (as_bytes s) = Inr m" by blast
  let ?e = "\<lparr>ne_kind = DKGKIT_NOSTR_EVENT_KIND, ne_app = DKGKIT_NOSTR_APP_TAG,
      ne_session_id = session_str (pm_session_id m), ne_sender = pid_val (pm_sender m),
      ne_recipient = map_option pid_val (pm_recipient m), ne_message_kind = kind_as_str (pm_kind m), ne_content = s\<rparr>"
  have "NostrEnvelopeEvent_from_protocol_message J m = Inr ?e"
    using bs by (simp add: NostrEnvelopeEvent_from_protocol_message_def map_serialization_err_def)
  moreover have "validate_metadata ?e = Inr ()"
    using m reserved_not_blank by (auto simp: validate_metadata_iff deliverable_def)
  then have "NostrEnvelopeEvent_to_protocol_message J ?e = Inr m"
    using bs by (simp add: NostrEnvelopeEvent_to_protocol_message_def)
  ultimately show ?thesis by blast
qed

text \<open>An accepted event's tags agree with the message inside, and the message has proper identifiers.\<close>

lemma envelope_tags_agree:
  assumes "NostrEnvelopeEvent_to_protocol_message J e = Inr m"
  shows "ne_session_id e = session_str (pm_session_id m) \<and> ne_sender e = pid_val (pm_sender m)
    \<and> ne_recipient e = map_option pid_val (pm_recipient m) \<and> ne_message_kind e = kind_as_str (pm_kind m)
    \<and> \<not> trim_is_empty (session_str (pm_session_id m)) \<and> pid_val (pm_sender m) \<noteq> 0
    \<and> (\<forall>r. pm_recipient m = Some r \<longrightarrow> pid_val r \<noteq> 0)"
  using assms
  by (auto simp: NostrEnvelopeEvent_to_protocol_message_def rbind_Inr_iff ensure_Inr_iff validate_metadata_iff
      dest!: sym [of "Some _"])

section \<open>The local transport is a queue\<close>

definition ln_ok :: "ProtocolMessage codec \<Rightarrow> LocalNostrEventTransport \<Rightarrow> bool" where
  "ln_ok J s \<longleftrightarrow> json_ok J \<and> (\<forall>e\<in>set (ln_events s). is_ok (NostrEnvelopeEvent_to_protocol_message J e))"

definition ln_pending :: "ProtocolMessage codec \<Rightarrow> LocalNostrEventTransport \<Rightarrow> ProtocolMessage list" where
  "ln_pending J s = map (\<lambda>e. projr (NostrEnvelopeEvent_to_protocol_message J e)) (ln_events s)"

lemma ln_drain_loop:
  assumes "\<forall>e\<in>set es. is_ok (NostrEnvelopeEvent_to_protocol_message J e)"
  shows "try_for (ln_drain_step J sid P) es (drained, kept) =
    (let ms = \<lambda>e. projr (NostrEnvelopeEvent_to_protocol_message J e); Q = \<lambda>m. pm_session_id m = sid \<and> P m
     in Inr (drained @ filter Q (map ms es), kept @ filter (\<lambda>e. \<not> Q (ms e)) es))"
  using assms
proof (induction es arbitrary: drained kept)
  case (Cons e es)
  then obtain m where "NostrEnvelopeEvent_to_protocol_message J e = Inr m" by (auto simp: is_ok_iff)
  with Cons show ?case by (simp add: ln_drain_step_def Let_def)
qed simp

lemma ln_publish_ok:
  assumes ok: "ln_ok J s" and m: "deliverable m"
  shows "\<exists>s'. ln_publish J s m = (s', Inr ()) \<and> ln_ok J s' \<and> ln_pending J s' = ln_pending J s @ [m]"
proof -
  from envelope_roundtrip [OF _ m, of J] ok obtain e where "NostrEnvelopeEvent_from_protocol_message J m = Inr e"
    "NostrEnvelopeEvent_to_protocol_message J e = Inr m" by (auto simp: ln_ok_def)
  with ok show ?thesis by (auto simp: ln_publish_def ln_ok_def ln_pending_def)
qed

interpretation local_nostr: message_queue "local_nostr_ops J" "ln_pending J" "ln_ok J" deliverable for J
proof
  fix s m sid P
  assume ok: "ln_ok J s"
  show "ln_ok J (fst (tr_connect (local_nostr_ops J) s)) \<and> ln_pending J (fst (tr_connect (local_nostr_ops J) s)) = ln_pending J s"
    "ln_ok J (fst (tr_disconnect (local_nostr_ops J) s)) \<and> ln_pending J (fst (tr_disconnect (local_nostr_ops J) s)) = ln_pending J s"
    using ok by (simp_all add: local_nostr_ops_def ln_connect_def ln_disconnect_def ln_ok_def ln_pending_def)
  show "\<exists>s'. tr_publish (local_nostr_ops J) s m = (s', Inr ()) \<and> ln_ok J s' \<and> ln_pending J s' = ln_pending J s @ [m]"
    if "deliverable m" using ln_publish_ok [OF ok that] by (simp add: local_nostr_ops_def)
  show "\<exists>s'. tr_drain_matching (local_nostr_ops J) s sid P
      = (s', Inr (filter (\<lambda>m. pm_session_id m = sid \<and> P m) (ln_pending J s))) \<and> ln_ok J s'
      \<and> ln_pending J s' = filter (\<lambda>m. \<not> (pm_session_id m = sid \<and> P m)) (ln_pending J s)"
    using ok ln_drain_loop [of "ln_events s" J sid P "[]" "[]"]
    by (auto simp: local_nostr_ops_def ln_drain_matching_def ln_ok_def ln_pending_def Let_def filter_map o_def)
qed

section \<open>One bad event empties the transport\<close>

lemma ln_drain_loop_bad:
  assumes "e \<in> set es" "NostrEnvelopeEvent_to_protocol_message J e = Inl err"
  shows "\<exists>err'. try_for (ln_drain_step J sid P) es st = Inl err'"
  using assms
proof (induction es arbitrary: st)
  case (Cons a es)
  obtain drained kept where st: "st = (drained, kept)" by (cases st)
  show ?case
  proof (cases "NostrEnvelopeEvent_to_protocol_message J a")
    case (Inl x)
    then show ?thesis by (simp add: ln_drain_step_def st)
  next
    case (Inr m)
    with Cons show ?thesis by (auto simp: ln_drain_step_def st)
  qed
qed simp

lemma bad_event_empties:
  assumes "e \<in> set (ln_events s)" "NostrEnvelopeEvent_to_protocol_message J e = Inl err"
  shows "\<exists>err'. ln_drain_matching J s sid P = (s\<lparr>ln_events := []\<rparr>, Inl err')"
  using ln_drain_loop_bad [OF assms, of sid P "([], [])"] by (auto simp: ln_drain_matching_def)

text \<open>A message from participant 0 is accepted for publication and becomes such an event.\<close>

lemma zero_sender_poisons:
  assumes J: "json_ok J" and m: "pid_val (pm_sender m) = 0"
  shows "\<exists>s' e err. ln_publish J s m = (s', Inr ()) \<and> e \<in> set (ln_events s')
    \<and> NostrEnvelopeEvent_to_protocol_message J e = Inl err"
proof -
  from json_ok_encodes [OF J, of m] obtain b t where "encode_json J m = Inr b" "from_utf8 b = Inr t" by blast
  then obtain e where e: "NostrEnvelopeEvent_from_protocol_message J m = Inr e" "ne_sender e = 0"
    using m by (auto simp: NostrEnvelopeEvent_from_protocol_message_def map_serialization_err_def)
  have "\<not> is_ok (NostrEnvelopeEvent_to_protocol_message J e)"
    using e(2) envelope_tags_agree [of J e] by (auto simp: is_ok_iff)
  then obtain err where "NostrEnvelopeEvent_to_protocol_message J e = Inl err"
    by (cases "NostrEnvelopeEvent_to_protocol_message J e") auto
  with e(1) show ?thesis by (auto simp: ln_publish_def)
qed

end
