(* ===== verification/Frost_Sessions.thy ===== *)
theory Frost_Sessions
  imports Packages
begin

text \<open>
  The two stateful objects of \<open>dkgkit-frost/src/lib.rs\<close>: \<open>FrostDkgSession\<close> (round 1, round 2,
  finalisation) and \<open>FrostSigningSession\<close> (nonce, signature share, aggregation). Their
  \<open>RefCell\<close>s are explicit state: an operation returns the session it leaves behind, also when
  it fails. The crates \<open>schnorr_fun\<close> and \<open>bincode\<close> are parameters: the records
  \<open>bincode_lib\<close>, \<open>keygen_lib\<close> and \<open>signing_lib\<close> hold the functions the code calls.
  A panic is a result of its own, so that what ends in one can be told from an error value.
\<close>

section \<open>Key indices\<close>

text \<open>
  \<open>participant_id.0 as u32 - 1\<close>: with overflow checks (debug builds) the subtraction panics
  at 0, without them it wraps to \<open>u32::MAX\<close>.
\<close>

definition key_index :: "bool \<Rightarrow> ParticipantId \<Rightarrow> u32 outcome" where
  "key_index overflow_checks i =
     (if overflow_checks \<and> pid_val i = 0 then Inl (Panic ''attempt to subtract with overflow'')
      else Inr (ucast (pid_val i) - 1))"

section \<open>Ordered maps\<close>

text \<open>\<open>BTreeMap\<close> as its bindings in key order; \<open>collect()\<close> inserts from left to right.\<close>

primrec btree_insert :: "'k::linorder \<Rightarrow> 'v \<Rightarrow> ('k \<times> 'v) list \<Rightarrow> ('k \<times> 'v) list" where
  "btree_insert k v [] = [(k, v)]"
| "btree_insert k v (b # bs) =
     (if k < fst b then (k, v) # b # bs else if k = fst b then (k, v) # bs else b # btree_insert k v bs)"

definition btree_of :: "('k::linorder \<times> 'v) list \<Rightarrow> ('k \<times> 'v) list" where
  "btree_of kvs = fold (\<lambda>(k, v). btree_insert k v) kvs []"

lemma btree_insert_keys: "fst ` set (btree_insert k v bs) = insert k (fst ` set bs)"
  by (induction bs) auto

lemma btree_insert_fresh: "k \<notin> fst ` set bs \<Longrightarrow> mset (btree_insert k v bs) = add_mset (k, v) (mset bs)"
  by (induction bs) auto

lemma btree_fold_fresh:
  "distinct (map fst kvs) \<Longrightarrow> fst ` set kvs \<inter> fst ` set bs = {} \<Longrightarrow>
     mset (fold (\<lambda>(k, v). btree_insert k v) kvs bs) = mset kvs + mset bs"
proof (induction kvs arbitrary: bs)
  case (Cons kv kvs)
  obtain k v where kv: "kv = (k, v)" by (cases kv)
  have "fst ` set kvs \<inter> fst ` set (btree_insert k v bs) = {}"
    using Cons.prems by (auto simp: kv btree_insert_keys)
  with Cons show ?case by (simp add: kv btree_insert_fresh)
qed simp

text \<open>Distinct keys: the map holds exactly the inserted bindings.\<close>

lemma btree_of_mset: "distinct (map fst kvs) \<Longrightarrow> mset (btree_of kvs) = mset kvs"
  by (simp add: btree_of_def btree_fold_fresh)

section \<open>The libraries\<close>

record ('f, 'ki, 'ps, 'sk, 'nn, 'sg) bincode_lib =
  bc_scalar :: "'f codec"
  bc_keygen_input :: "'ki codec"
  bc_paired_share :: "'ps codec"
  bc_shared_key :: "'sk codec"
  bc_nonce :: "'nn codec"
  bc_signature :: "'sg codec"

text \<open>\<open>bincode::serialize\<close> and \<open>bincode::deserialize\<close> with their errors as text.\<close>

definition encode_binary :: "'a codec \<Rightarrow> 'a \<Rightarrow> bytes result" where
  "encode_binary B payload = map_serialization_err (to_vec B payload)"

definition decode_binary :: "'a codec \<Rightarrow> bytes \<Rightarrow> 'a result" where
  "decode_binary B bytes = map_serialization_err (from_slice B bytes)"

text \<open>
  \<open>simplepedpop\<close>: contributors \<open>'ct\<close>, their inputs \<open>'ki\<close>, the coordinator \<open>'co\<close>, its
  output \<open>'ag\<close>, paired shares \<open>'ps\<close> and shared keys \<open>'sk\<close> (the type-level markers
  \<open>Zero\<close>, \<open>NonZero\<close>, \<open>Normal\<close>, \<open>EvenY\<close> are left out); \<open>'r\<close> is the random generator.
\<close>

record ('f, 'ct, 'ki, 'co, 'ag, 'ps, 'sk, 'r) keygen_lib =
  gen_keygen_input :: "u32 \<Rightarrow> 'f set \<Rightarrow> u32 \<Rightarrow> 'r \<Rightarrow> 'ct \<times> 'ki \<times> ('f \<times> 'f) list"
  coordinator_new :: "u32 \<Rightarrow> u32 \<Rightarrow> 'co"
  add_input :: "'co \<Rightarrow> u32 \<Rightarrow> 'ki \<Rightarrow> string + 'co"
  finish :: "'co \<Rightarrow> 'ag option"
  collect_secret_inputs :: "'f \<Rightarrow> 'f list \<Rightarrow> 'f \<times> 'f"
  receive_secret_share :: "'ag \<Rightarrow> 'f \<times> 'f \<Rightarrow> string + 'ps"
  agg_shared_key :: "'ag \<Rightarrow> 'sk"
  share_non_zero :: "'ps \<Rightarrow> 'ps option"
  share_into_xonly :: "'ps \<Rightarrow> 'ps"
  key_non_zero :: "'sk \<Rightarrow> 'sk option"
  key_into_xonly :: "'sk \<Rightarrow> 'sk"
  key_xonly_bytes :: "'sk \<Rightarrow> bytes"   \<comment> \<open>\<open>public_key().to_xonly_bytes()\<close>\<close>

text \<open>
  \<open>schnorr_fun::frost\<close>: nonce key pairs \<open>'nk\<close>, public nonces \<open>'nn\<close>, coordinator sessions
  \<open>'cs\<close>, party sessions \<open>'pt\<close>, signatures \<open>'sg\<close>. \<open>coordinator_sign_session\<close> and \<open>sign\<close>
  are documented to panic on some arguments: \<open>Inl\<close> is the text of that panic.
\<close>

record ('f, 'p, 'ps, 'sk, 'nk, 'nn, 'cs, 'pt, 'sg, 'r) signing_lib =
  seed_nonce_rng :: "'r \<Rightarrow> 'ps \<Rightarrow> bytes \<Rightarrow> 'r"
  gen_nonce :: "'r \<Rightarrow> 'nk"
  nonce_public :: "'nk \<Rightarrow> 'nn"
  shared_public_key :: "'sk \<Rightarrow> 'p"
  coordinator_sign_session :: "'sk \<Rightarrow> ('f \<rightharpoonup> 'nn) \<Rightarrow> bytes \<Rightarrow> string + 'cs"
  session_parties :: "'cs \<Rightarrow> 'f set"
  session_agg_binonce :: "'cs \<Rightarrow> 'nn"
  party_sign_session :: "'p \<Rightarrow> 'f set \<Rightarrow> 'nn \<Rightarrow> bytes \<Rightarrow> 'pt"
  party_sign :: "'pt \<Rightarrow> 'ps \<Rightarrow> 'nk \<Rightarrow> string + 'f"
  verify_and_combine :: "'cs \<Rightarrow> 'sk \<Rightarrow> ('f \<rightharpoonup> 'f) \<Rightarrow> string + 'sg"

section \<open>The DKG session\<close>

record PendingSecretShare =
  pss_recipient :: ParticipantId
  pss_bytes :: bytes

record 'ct DkgRuntime =
  dr_contributor :: 'ct
  dr_pending_secret_shares :: "PendingSecretShare list"
  dr_round1_packages :: "(ParticipantId \<times> Round1Package) list"

record 'ct FrostDkgSession =
  fds_config :: DkgSessionConfig
  fds_runtime :: "'ct DkgRuntime option"

definition FrostDkgSession_new :: "DkgSessionConfig \<Rightarrow> 'ct FrostDkgSession" where
  "FrostDkgSession_new config = \<lparr>fds_config = config, fds_runtime = None\<rparr>"

abbreviation fds_n :: "'ct FrostDkgSession \<Rightarrow> u16" where
  "fds_n self \<equiv> tc_participants (dsc_threshold (fds_config self))"

abbreviation fds_t :: "'ct FrostDkgSession \<Rightarrow> u16" where
  "fds_t self \<equiv> tc_threshold (dsc_threshold (fds_config self))"

abbreviation fds_id :: "'ct FrostDkgSession \<Rightarrow> ParticipantId" where
  "fds_id self \<equiv> dsc_participant_id (fds_config self)"

text \<open>\<open>u32::from_be_bytes\<close> of the last four of 32 bytes.\<close>

definition from_be_bytes :: "bytes \<Rightarrow> nat" where
  "from_be_bytes bs = foldl (\<lambda>v b. v * 256 + unat b) 0 bs"

definition participant_id_from_scalar_bytes :: "bytes \<Rightarrow> ParticipantId result" where
  "participant_id_from_scalar_bytes bytes =
     (let value = from_be_bytes (take 4 (drop 28 bytes)) in
      rbind (ok_or (u16_try_from value) (InvalidParticipantId u16_max)) ParticipantId_new)"

definition non_zero :: "'f::field \<Rightarrow> 'f option" where
  "non_zero s = (if s = 0 then None else Some s)"

definition participant_share_index :: "ParticipantId \<Rightarrow> 'f::field outcome" where
  "participant_share_index participant_id =
     expect (non_zero (scalar_of_u16 (pid_val participant_id))) ''participant index cannot be zero''"

definition share_indices :: "u16 \<Rightarrow> 'f::field list outcome" where
  "share_indices participants =
     collect (\<lambda>i. expect (non_zero (scalar_from_u32 (word_of_nat i))) ''nonzero'') [1..<Suc (unat participants)]"

definition pending_secret_share ::
    "('f, 'p) secp \<Rightarrow> 'f codec \<Rightarrow> 'f \<times> 'f \<Rightarrow> PendingSecretShare result" where
  "pending_secret_share C B entry =
     (case entry of (index, share) \<Rightarrow>
       rbind (participant_id_from_scalar_bytes (scalar_to_bytes C index)) (\<lambda>recipient.
       rbind (encode_binary B share) (\<lambda>bytes.
       Inr \<lparr>pss_recipient = recipient, pss_bytes = bytes\<rparr>)))"

definition fds_round1 ::
    "bool \<Rightarrow> ('f::field, 'p) secp \<Rightarrow> ('f, 'ki, 'ps, 'sk, 'nn, 'sg) bincode_lib
      \<Rightarrow> ('f, 'ct, 'ki, 'co, 'ag, 'ps, 'sk, 'r) keygen_lib \<Rightarrow> 'r \<Rightarrow> 'ct FrostDkgSession
      \<Rightarrow> 'ct FrostDkgSession \<times> Round1Package outcome" where
  "fds_round1 oc C B K rng self =
     (case rbind (share_indices (fds_n self)) (\<lambda>share_indices.
           rbind (key_index oc (fds_id self)) (\<lambda>my_index.
           let (contributor, keygen_input, secret_shares) =
                 gen_keygen_input K (ucast (fds_t self)) (set share_indices) my_index rng in
           rbind (lift_err (encode_binary (bc_keygen_input B) keygen_input)) (\<lambda>bytes.
           let package = \<lparr>r1_participant_id = fds_id self, r1_bytes = bytes\<rparr> in
           rbind (lift_err (collect (pending_secret_share C (bc_scalar B)) secret_shares)) (\<lambda>pending.
           Inr (package, \<lparr>dr_contributor = contributor, dr_pending_secret_shares = pending,
                          dr_round1_packages = btree_insert (fds_id self) package []\<rparr>)))))
      of Inl f \<Rightarrow> (self, Inl f)
       | Inr (package, runtime) \<Rightarrow> (self\<lparr>fds_runtime := Some runtime\<rparr>, Inr package))"

definition check_round1_package ::
    "u16 \<Rightarrow> Round1Package \<Rightarrow> ParticipantId set \<Rightarrow> ParticipantId set result" where
  "check_round1_package participants package seen =
     (let i = r1_participant_id package in
      rbind (ensure (\<not> pid_val i > participants) (ParticipantOutOfRange (pid_val i) participants)) (\<lambda>_.
      rbind (ensure (i \<notin> seen) (DuplicateParticipantId (pid_val i))) (\<lambda>_.
      Inr (insert i seen))))"

definition validate_round1_set :: "'ct FrostDkgSession \<Rightarrow> Round1Package list \<Rightarrow> unit result" where
  "validate_round1_set self round1_packages =
     rbind (ensure (length round1_packages = usize_of (fds_n self))
              (ParticipantCountMismatch (fds_n self) (length round1_packages))) (\<lambda>_.
     rbind (try_for (check_round1_package (fds_n self)) round1_packages {}) (\<lambda>_. Inr ()))"

definition add_round1_input ::
    "bool \<Rightarrow> 'ki codec \<Rightarrow> ('f, 'ct, 'ki, 'co, 'ag, 'ps, 'sk, 'r) keygen_lib \<Rightarrow> Round1Package \<Rightarrow> 'co \<Rightarrow> 'co outcome" where
  "add_round1_input oc B K package coordinator =
     rbind (lift_err (decode_binary B (r1_bytes package))) (\<lambda>keygen_input.
     rbind (key_index oc (r1_participant_id package)) (\<lambda>from.
     map_protocol_err ''invalid round1 input: '' (add_input K coordinator from keygen_input)))"

definition aggregate_keygen_inputs ::
    "bool \<Rightarrow> 'ki codec \<Rightarrow> ('f, 'ct, 'ki, 'co, 'ag, 'ps, 'sk, 'r) keygen_lib \<Rightarrow> 'ct FrostDkgSession
      \<Rightarrow> Round1Package list \<Rightarrow> 'ag outcome" where
  "aggregate_keygen_inputs oc B K self round1_packages =
     rbind (try_for (add_round1_input oc B K) round1_packages
              (coordinator_new K (ucast (fds_t self)) (ucast (fds_n self)))) (\<lambda>coordinator.
     ok_or (finish K coordinator) (Err (Protocol ''coordinator missing round1 inputs'')))"

text \<open>
  The new round 1 map is stored before the inputs are aggregated, so a set that fails
  there is stored too.
\<close>

definition fds_round2 ::
    "bool \<Rightarrow> ('f, 'ki, 'ps, 'sk, 'nn, 'sg) bincode_lib
      \<Rightarrow> ('f, 'ct, 'ki, 'co, 'ag, 'ps, 'sk, 'r) keygen_lib \<Rightarrow> 'ct FrostDkgSession \<Rightarrow> Round1Package list
      \<Rightarrow> 'ct FrostDkgSession \<times> Round2Package list outcome" where
  "fds_round2 oc B K self round1_packages =
     (case validate_round1_set self round1_packages of
        Inl e \<Rightarrow> (self, Inl (Err e))
      | Inr _ \<Rightarrow>
        (case fds_runtime self of
           None \<Rightarrow> (self, Inl (Err (Protocol ''round1 must be called before round2'')))
         | Some runtime \<Rightarrow>
             let runtime = runtime\<lparr>dr_round1_packages :=
                   btree_of (map (\<lambda>package. (r1_participant_id package, package)) round1_packages)\<rparr>;
                 self = self\<lparr>fds_runtime := Some runtime\<rparr> in
             (self, rbind (aggregate_keygen_inputs oc (bc_keygen_input B) K self round1_packages) (\<lambda>_.
                Inr (map (\<lambda>share. \<lparr>r2_sender = fds_id self, r2_recipient = pss_recipient share,
                                   r2_bytes = pss_bytes share\<rparr>) (dr_pending_secret_shares runtime))))))"

definition take_round2_share ::
    "'f codec \<Rightarrow> Round2Package \<Rightarrow> 'f list \<times> ParticipantId set \<Rightarrow> ('f list \<times> ParticipantId set) result" where
  "take_round2_share B package st =
     (let (shares_for_me, seen_senders) = st in
      rbind (ensure (r2_sender package \<notin> seen_senders) (DuplicateParticipantId (pid_val (r2_sender package)))) (\<lambda>_.
      rbind (decode_binary B (r2_bytes package)) (\<lambda>share.
      Inr (shares_for_me @ [share], insert (r2_sender package) seen_senders))))"

definition fds_finalize ::
    "bool \<Rightarrow> ('f::field, 'ki, 'ps, 'sk, 'nn, 'sg) bincode_lib
      \<Rightarrow> ('f, 'ct, 'ki, 'co, 'ag, 'ps, 'sk, 'r) keygen_lib \<Rightarrow> 'ct FrostDkgSession \<Rightarrow> Round2Package list
      \<Rightarrow> LocalKeyShare outcome" where
  "fds_finalize oc B K self round2_packages =
     rbind (ok_or (fds_runtime self) (Err (Protocol ''round1 and round2 must be called before finalize''))) (\<lambda>runtime.
     rbind (ensure (length (dr_round1_packages runtime) = usize_of (fds_n self))
              (Err (Protocol (fmt [''missing round1 packages: have '', show_nat (length (dr_round1_packages runtime)),
                 '', need '', show_u16 (fds_n self)])))) (\<lambda>_.
     rbind (lift_err (try_for (take_round2_share (bc_scalar B))
              (filter (\<lambda>package. r2_recipient package = fds_id self) round2_packages) ([], {}))) (\<lambda>(shares_for_me, _).
     rbind (ensure (length shares_for_me = usize_of (fds_n self))
              (Err (Protocol (fmt [''missing round2 shares for participant '', show_u16 (pid_val (fds_id self)),
                 '': have '', show_nat (length shares_for_me), '', need '', show_u16 (fds_n self)])))) (\<lambda>_.
     rbind (aggregate_keygen_inputs oc (bc_keygen_input B) K self (map snd (dr_round1_packages runtime))) (\<lambda>agg_input.
     rbind (participant_share_index (fds_id self)) (\<lambda>my_share_index.
     rbind (map_protocol_err ''share verification failed: ''
              (receive_secret_share K agg_input (collect_secret_inputs K my_share_index shares_for_me))) (\<lambda>paired_share.
     rbind (ok_or (share_non_zero K paired_share) (Err (Protocol ''paired share is zero''))) (\<lambda>paired_share.
     rbind (ok_or (key_non_zero K (agg_shared_key K agg_input)) (Err (Protocol ''shared key is zero''))) (\<lambda>shared_key.
     rbind (lift_err (encode_binary (bc_shared_key B) (key_into_xonly K shared_key))) (\<lambda>verification_key_bytes.
     rbind (lift_err (encode_binary (bc_paired_share B) (share_into_xonly K paired_share))) (\<lambda>secret_share_bytes.
     Inr \<lparr>lks_participant_id = fds_id self,
          lks_group_key = \<lparr>gk_xonly_public_key = key_xonly_bytes K (key_into_xonly K shared_key),
                           gk_verification_key_bytes = verification_key_bytes\<rparr>,
          lks_secret_share_bytes = secret_share_bytes\<rparr>)))))))))))"

section \<open>The signing session\<close>

text \<open>The nonce map is its list of bindings, in the order of insertion.\<close>

definition insert_nonce ::
    "'nn codec \<Rightarrow> SigningRequest \<Rightarrow> NoncePackage \<Rightarrow> ('f::field \<times> 'nn) list \<Rightarrow> ('f \<times> 'nn) list outcome" where
  "insert_nonce B request nonce map' =
     rbind (ensure (np_signing_session_id nonce = sr_session_id request) (Err (Protocol ''nonce session mismatch''))) (\<lambda>_.
     rbind (ensure (np_participant_id nonce \<in> set (sr_signer_set request))
              (Err (Protocol (fmt [''nonce participant '', show_u16 (pid_val (np_participant_id nonce)), '' is not in signer set''])))) (\<lambda>_.
     rbind (lift_err (decode_binary B (np_public_nonce_bytes nonce))) (\<lambda>public_nonce.
     rbind (participant_share_index (np_participant_id nonce)) (\<lambda>index.
     rbind (ensure (map_of map' index = None) (Err (DuplicateParticipantId (pid_val (np_participant_id nonce))))) (\<lambda>_.
     Inr (map' @ [(index, public_nonce)]))))))"

definition nonces_to_map ::
    "'nn codec \<Rightarrow> NoncePackage list \<Rightarrow> SigningRequest \<Rightarrow> ('f::field \<times> 'nn) list outcome" where
  "nonces_to_map B nonces request =
     rbind (try_for (insert_nonce B request) nonces []) (\<lambda>map'.
     rbind (ensure (length map' = length (sr_signer_set request))
              (Err (Protocol (fmt [''nonce set mismatch: have '', show_nat (length map'), '', need '',
                 show_nat (length (sr_signer_set request))])))) (\<lambda>_.
     Inr map'))"

definition check_signature_share ::
    "SigningRequest \<Rightarrow> SignatureSharePackage \<Rightarrow> ParticipantId set \<Rightarrow> ParticipantId set result" where
  "check_signature_share request share seen =
     rbind (ensure (ssp_signing_session_id share = sr_session_id request)
              (Protocol ''signature share session mismatch'')) (\<lambda>_.
     rbind (ensure (ssp_participant_id share \<in> set (sr_signer_set request))
              (Protocol (fmt [''signature share participant '', show_u16 (pid_val (ssp_participant_id share)),
                 '' is not in signer set'']))) (\<lambda>_.
     rbind (ensure (ssp_participant_id share \<notin> seen) (DuplicateParticipantId (pid_val (ssp_participant_id share)))) (\<lambda>_.
     Inr (insert (ssp_participant_id share) seen))))"

definition validate_signature_share_set :: "SignatureSharePackage list \<Rightarrow> SigningRequest \<Rightarrow> unit result" where
  "validate_signature_share_set shares request =
     rbind (try_for (check_signature_share request) shares {}) (\<lambda>seen.
     ensure (card seen = length (sr_signer_set request))
       (Protocol (fmt [''signature share set mismatch: have '', show_nat (card seen), '', need '',
          show_nat (length (sr_signer_set request))])))"

record 'nk FrostSigningSession =
  fss_request :: SigningRequest
  fss_nonce_runtime :: "'nk option"

definition FrostSigningSession_new :: "SigningRequest \<Rightarrow> 'nk FrostSigningSession" where
  "FrostSigningSession_new request = \<lparr>fss_request = request, fss_nonce_runtime = None\<rparr>"

definition fss_nonce ::
    "('f, 'ki, 'ps, 'sk, 'nn, 'sg) bincode_lib \<Rightarrow> ('f, 'p, 'ps, 'sk, 'nk, 'nn, 'cs, 'pt, 'sg, 'r) signing_lib
      \<Rightarrow> 'r \<Rightarrow> 'nk FrostSigningSession \<Rightarrow> LocalKeyShare \<Rightarrow> 'nk FrostSigningSession \<times> NoncePackage outcome" where
  "fss_nonce B S rng self local_share =
     (case rbind (ensure (lks_group_key local_share = sr_group_key (fss_request self))
              (Protocol ''local share group key does not match signing request'')) (\<lambda>_.
           rbind (decode_binary (bc_paired_share B) (lks_secret_share_bytes local_share)) (\<lambda>paired_share.
           let nonce_rng = seed_nonce_rng S rng paired_share (as_bytes (session_str (sr_session_id (fss_request self))));
               nonce = gen_nonce S nonce_rng in
           rbind (encode_binary (bc_nonce B) (nonce_public S nonce)) (\<lambda>bytes.
           Inr (\<lparr>np_participant_id = lks_participant_id local_share,
                 np_signing_session_id = sr_session_id (fss_request self), np_public_nonce_bytes = bytes\<rparr>, nonce))))
      of Inl e \<Rightarrow> (self, Inl (Err e))
       | Inr (package, nonce) \<Rightarrow> (self\<lparr>fss_nonce_runtime := Some nonce\<rparr>, Inr package))"

text \<open>What \<open>sign_share\<close> does with the nonce once it has taken it out of the session.\<close>

definition sign_with_nonce ::
    "('f::field, 'ki, 'ps, 'sk, 'nn, 'sg) bincode_lib \<Rightarrow> ('f, 'p, 'ps, 'sk, 'nk, 'nn, 'cs, 'pt, 'sg, 'r) signing_lib
      \<Rightarrow> SigningRequest \<Rightarrow> LocalKeyShare \<Rightarrow> NoncePackage list \<Rightarrow> 'nk \<Rightarrow> SignatureSharePackage outcome" where
  "sign_with_nonce B S request local_share nonces nonce =
     rbind (ok_or (find (\<lambda>package. np_participant_id package = lks_participant_id local_share) nonces)
              (Err (Protocol ''missing local public nonce''))) (\<lambda>own.
     rbind (lift_err (decode_binary (bc_paired_share B) (lks_secret_share_bytes local_share))) (\<lambda>paired_share.
     rbind (lift_err (decode_binary (bc_shared_key B) (gk_verification_key_bytes (sr_group_key request)))) (\<lambda>shared_key.
     rbind (nonces_to_map (bc_nonce B) nonces request) (\<lambda>nonces_map.
     let message = frost_message (sr_message_digest request) in
     rbind (or_panic (coordinator_sign_session S shared_key (map_of nonces_map) message)) (\<lambda>coord_session.
     let sign_session = party_sign_session S (shared_public_key S shared_key) (session_parties S coord_session)
           (session_agg_binonce S coord_session) message in
     rbind (or_panic (party_sign S sign_session paired_share nonce)) (\<lambda>sig_share.
     rbind (lift_err (encode_binary (bc_scalar B) sig_share)) (\<lambda>bytes.
     Inr \<lparr>ssp_participant_id = lks_participant_id local_share, ssp_signing_session_id = sr_session_id request,
          ssp_public_nonce_bytes = np_public_nonce_bytes own, ssp_signature_share_bytes = bytes\<rparr>)))))))"

definition fss_sign_share ::
    "('f::field, 'ki, 'ps, 'sk, 'nn, 'sg) bincode_lib \<Rightarrow> ('f, 'p, 'ps, 'sk, 'nk, 'nn, 'cs, 'pt, 'sg, 'r) signing_lib
      \<Rightarrow> 'nk FrostSigningSession \<Rightarrow> LocalKeyShare \<Rightarrow> NoncePackage list
      \<Rightarrow> 'nk FrostSigningSession \<times> SignatureSharePackage outcome" where
  "fss_sign_share B S self local_share nonces =
     (if lks_group_key local_share \<noteq> sr_group_key (fss_request self)
      then (self, Inl (Err (Protocol ''local share group key does not match signing request'')))
      else if lks_participant_id local_share \<notin> set (sr_signer_set (fss_request self))
      then (self, Inl (Err (Protocol (fmt [''participant '', show_u16 (pid_val (lks_participant_id local_share)),
              '' is not in signer set'']))))
      else case fss_nonce_runtime self of
          None \<Rightarrow> (self, Inl (Err (Protocol ''nonce must be generated before sign_share'')))
        | Some nonce \<Rightarrow> (self\<lparr>fss_nonce_runtime := None\<rparr>,
                          sign_with_nonce B S (fss_request self) local_share nonces nonce))"

definition insert_signature_share ::
    "'f codec \<Rightarrow> SignatureSharePackage \<Rightarrow> ('f::field \<rightharpoonup> 'f) \<Rightarrow> ('f \<rightharpoonup> 'f) outcome" where
  "insert_signature_share B share sig_shares =
     rbind (lift_err (decode_binary B (ssp_signature_share_bytes share))) (\<lambda>sig_share.
     rbind (participant_share_index (ssp_participant_id share)) (\<lambda>index.
     Inr (sig_shares(index \<mapsto> sig_share))))"

definition fss_aggregate ::
    "('f::field, 'ki, 'ps, 'sk, 'nn, 'sg) bincode_lib \<Rightarrow> ('f, 'p, 'ps, 'sk, 'nk, 'nn, 'cs, 'pt, 'sg, 'r) signing_lib
      \<Rightarrow> 'nk FrostSigningSession \<Rightarrow> SignatureSharePackage list \<Rightarrow> AggregateSignature outcome" where
  "fss_aggregate B S self shares =
     (let request = fss_request self in
     rbind (lift_err (validate_signature_share_set shares request)) (\<lambda>_.
     rbind (lift_err (decode_binary (bc_shared_key B) (gk_verification_key_bytes (sr_group_key request)))) (\<lambda>shared_key.
     let nonces = map (\<lambda>share. \<lparr>np_participant_id = ssp_participant_id share,
           np_signing_session_id = ssp_signing_session_id share,
           np_public_nonce_bytes = ssp_public_nonce_bytes share\<rparr>) shares in
     rbind (nonces_to_map (bc_nonce B) nonces request) (\<lambda>nonces_map.
     rbind (or_panic (coordinator_sign_session S shared_key (map_of nonces_map)
              (frost_message (sr_message_digest request)))) (\<lambda>coord_session.
     rbind (try_for (insert_signature_share (bc_scalar B)) shares Map.empty) (\<lambda>sig_shares.
     rbind (map_protocol_err ''signature share verification failed: ''
              (verify_and_combine S coord_session shared_key sig_shares)) (\<lambda>signature.
     rbind (lift_err (encode_binary (bc_signature B) signature)) (\<lambda>bytes.
     lift_err (AggregateSignature_new bytes)))))))))"

section \<open>Acceptance of a round 1 set\<close>

lemma validate_round1_set_iff:
  "validate_round1_set s pkgs = Inr u \<longleftrightarrow> length pkgs = unat (fds_n s)
     \<and> (\<forall>p\<in>set pkgs. pid_val (r1_participant_id p) \<le> fds_n s) \<and> distinct (map r1_participant_id pkgs)"
proof -
  have step: "check_round1_package n p seen = Inr seen' \<longleftrightarrow> pid_val (r1_participant_id p) \<le> n
      \<and> r1_participant_id p \<notin> seen \<and> seen' = insert (r1_participant_id p) seen" for n p seen seen'
    by (auto simp: check_round1_package_def Let_def rbind_Inr_iff ensure_Inr_iff not_less)
  show ?thesis
    by (auto simp: validate_round1_set_def rbind_Inr_iff ensure_Inr_iff
        try_for_distinct_iff [where f = "check_round1_package (fds_n s)" and key = r1_participant_id, OF step])
qed

lemma u16_interval_card: "card {i :: u16. 0 < i \<and> i \<le> n} = unat n"
proof -
  have "{i :: u16. 0 < i \<and> i \<le> n} = word_of_nat ` {1..unat n}"
  proof (intro set_eqI iffI)
    fix i :: u16
    assume "i \<in> {i. 0 < i \<and> i \<le> n}"
    then have "unat i \<in> {1..unat n}" by (auto simp: word_less_nat_alt word_le_nat_alt)
    moreover have "i = word_of_nat (unat i)" by simp
    ultimately show "i \<in> word_of_nat ` {1..unat n}" by (rule rev_image_eqI)
  next
    fix i :: u16
    assume "i \<in> word_of_nat ` {1..unat n}"
    then obtain k where k: "i = word_of_nat k" "1 \<le> k" "k \<le> unat n" by auto
    then have "unat i = k" using unat_u16_le [of n] by (simp add: unat_of_nat)
    with k show "i \<in> {i. 0 < i \<and> i \<le> n}" by (simp add: word_less_nat_alt word_le_nat_alt)
  qed
  moreover have "inj_on (word_of_nat :: nat \<Rightarrow> u16) {1..unat n}"
  proof (rule inj_onI)
    fix a b
    assume ab: "a \<in> {1..unat n}" "b \<in> {1..unat n}" "(word_of_nat a :: u16) = word_of_nat b"
    then have "as_u16 a = as_u16 b" by (simp add: as_u16_def)
    moreover have "unat (as_u16 a) = a" "unat (as_u16 b) = b"
      using ab(1,2) unat_u16_le [of n] by (simp_all add: as_u16_id)
    ultimately show "a = b" by metis
  qed
  ultimately show ?thesis by (simp add: card_image)
qed

text \<open>With proper identifiers, an accepted set has one package of each participant \<open>1..n\<close>.\<close>

lemma round1_set_complete:
  assumes ok: "validate_round1_set s pkgs = Inr ()" and nz: "\<forall>p\<in>set pkgs. pid_val (r1_participant_id p) \<noteq> 0"
  shows "(\<lambda>p. pid_val (r1_participant_id p)) ` set pkgs = {i. 0 < i \<and> i \<le> fds_n s}"
proof (rule card_subset_eq)
  let ?f = "\<lambda>p. pid_val (r1_participant_id p)"
  have acc: "length pkgs = unat (fds_n s)" "\<forall>p\<in>set pkgs. ?f p \<le> fds_n s" "distinct (map r1_participant_id pkgs)"
    using ok by (simp_all add: validate_round1_set_iff)
  show "finite {i :: u16. 0 < i \<and> i \<le> fds_n s}" by simp
  show "?f ` set pkgs \<subseteq> {i. 0 < i \<and> i \<le> fds_n s}"
    using acc(2) nz by (auto simp: word_neq_0_conv)
  have "distinct (map ?f pkgs)" using acc(3) ParticipantId.expand by (auto simp: distinct_map inj_on_def)
  then have "card (?f ` set pkgs) = length pkgs" by (metis distinct_card length_map set_map)
  then show "card (?f ` set pkgs) = card {i :: u16. 0 < i \<and> i \<le> fds_n s}"
    by (simp add: u16_interval_card acc(1))
qed

text \<open>Round 2 hands out the pending shares unchanged, and its errors leave them in place.\<close>

lemma fds_round2_packages:
  assumes "fds_round2 oc B K s pkgs = (s', Inr out)"
  shows "\<exists>runtime. fds_runtime s = Some runtime \<and> validate_round1_set s pkgs = Inr ()
    \<and> map r2_recipient out = map pss_recipient (dr_pending_secret_shares runtime)
    \<and> map r2_bytes out = map pss_bytes (dr_pending_secret_shares runtime) \<and> (\<forall>k\<in>set out. r2_sender k = fds_id s)
    \<and> (\<exists>runtime'. fds_runtime s' = Some runtime' \<and> mset (map snd (dr_round1_packages runtime')) = mset pkgs)"
proof -
  let ?kvs = "map (\<lambda>p. (r1_participant_id p, p)) pkgs"
  from assms obtain rt where v: "validate_round1_set s pkgs = Inr ()" and rt: "fds_runtime s = Some rt"
    and s': "s' = s\<lparr>fds_runtime := Some (rt\<lparr>dr_round1_packages := btree_of ?kvs\<rparr>)\<rparr>"
    and out: "out = map (\<lambda>share. \<lparr>r2_sender = fds_id s, r2_recipient = pss_recipient share, r2_bytes = pss_bytes share\<rparr>)
        (dr_pending_secret_shares rt)"
    by (auto simp: fds_round2_def Let_def rbind_Inr_iff split: sum.splits option.splits)
  have "distinct (map fst ?kvs)" using v by (simp add: validate_round1_set_iff o_def)
  then have "mset (map snd (btree_of ?kvs)) = mset pkgs" by (simp add: btree_of_mset multiset.map_comp o_def)
  with v rt s' out show ?thesis by (auto simp: o_def)
qed

section \<open>The nonce set of a signing session\<close>

lemma scalar_of_u16_zero [simp]: "scalar_of_u16 0 = (0 :: 'f::field)"
  unfolding scalar_of_u16_eq by simp

lemma participant_share_index_Inr_iff:
  assumes "big_characteristic TYPE('f::field)"
  shows "participant_share_index i = Inr (x :: 'f) \<longleftrightarrow> pid_val i \<noteq> 0 \<and> x = scalar_of_u16 (pid_val i)"
proof -
  have "(scalar_of_u16 (pid_val i) :: 'f) = 0 \<longleftrightarrow> pid_val i = 0"
    using scalar_of_u16_inj [OF assms, of "pid_val i" 0] scalar_of_u16_zero by metis
  then show ?thesis by (auto simp: participant_share_index_def expect_def non_zero_def ok_or_Inr_iff split: if_splits)
qed

lemma participant_share_index_zero:
  "participant_share_index (ParticipantId 0) = (Inl (Panic ''participant index cannot be zero'') :: 'f::field outcome)"
  by (simp only: participant_share_index_def expect_def non_zero_def ParticipantId.sel scalar_of_u16_zero) simp

text \<open>What one nonce package needs to be taken into the map.\<close>

definition nonce_ok :: "'nn codec \<Rightarrow> SigningRequest \<Rightarrow> NoncePackage \<Rightarrow> bool" where
  "nonce_ok B request nonce \<longleftrightarrow> np_signing_session_id nonce = sr_session_id request
     \<and> np_participant_id nonce \<in> set (sr_signer_set request) \<and> is_ok (decode_binary B (np_public_nonce_bytes nonce))
     \<and> pid_val (np_participant_id nonce) \<noteq> 0"

definition nonce_entry :: "'nn codec \<Rightarrow> NoncePackage \<Rightarrow> 'f::field \<times> 'nn" where
  "nonce_entry B nonce = (scalar_of_u16 (pid_val (np_participant_id nonce)),
     projr (decode_binary B (np_public_nonce_bytes nonce)))"

lemma insert_nonce_iff:
  assumes "big_characteristic TYPE('f::field)"
  shows "insert_nonce B request nonce (m :: ('f \<times> 'nn) list) = Inr m' \<longleftrightarrow> nonce_ok B request nonce
    \<and> fst (nonce_entry B nonce :: 'f \<times> 'nn) \<notin> fst ` set m \<and> m' = m @ [nonce_entry B nonce]"
  by (auto simp: insert_nonce_def nonce_ok_def nonce_entry_def rbind_Inr_iff ensure_Inr_iff lift_err_Inr_iff is_ok_iff
      participant_share_index_Inr_iff [OF assms] map_of_eq_None_iff)

lemma insert_nonces_iff:
  assumes big: "big_characteristic TYPE('f::field)"
  shows "try_for (insert_nonce B request) nonces (m :: ('f \<times> 'nn) list) = Inr m' \<longleftrightarrow>
    (\<forall>n\<in>set nonces. nonce_ok B request n) \<and> distinct (map np_participant_id nonces)
    \<and> (\<forall>n\<in>set nonces. fst (nonce_entry B n :: 'f \<times> 'nn) \<notin> fst ` set m) \<and> m' = m @ map (nonce_entry B) nonces"
proof (induction nonces arbitrary: m)
  case (Cons n ns)
  have inj: "fst (nonce_entry B a :: 'f \<times> 'nn) = fst (nonce_entry B b :: 'f \<times> 'nn)
      \<longleftrightarrow> np_participant_id a = np_participant_id b" for a b
    using scalar_of_u16_inj [OF big] by (auto simp: nonce_entry_def ParticipantId.expand)
  show ?case
    by (simp add: rbind_Inr_iff insert_nonce_iff [OF big] Cons.IH image_iff inj) (auto simp: inj)
qed auto

text \<open>
  A nonce set is accepted exactly when it has one decodable nonce of this session for each
  signer; the map then binds each signer's index to the signer's nonce.
\<close>

lemma nonces_to_map_iff:
  assumes big: "big_characteristic TYPE('f::field)" and d: "distinct (sr_signer_set request)"
  shows "nonces_to_map B nonces request = Inr (m :: ('f \<times> 'nn) list) \<longleftrightarrow>
    (\<forall>n\<in>set nonces. nonce_ok B request n) \<and> mset (map np_participant_id nonces) = mset (sr_signer_set request)
    \<and> m = map (nonce_entry B) nonces"
proof -
  have "distinct (map np_participant_id nonces) \<and> length nonces = length (sr_signer_set request) \<longleftrightarrow>
      mset (map np_participant_id nonces) = mset (sr_signer_set request)"
    if "\<forall>n\<in>set nonces. nonce_ok B request n"
  proof
    assume "distinct (map np_participant_id nonces) \<and> length nonces = length (sr_signer_set request)"
    moreover have "set (map np_participant_id nonces) \<subseteq> set (sr_signer_set request)"
      using that by (auto simp: nonce_ok_def)
    ultimately show "mset (map np_participant_id nonces) = mset (sr_signer_set request)"
      by (intro distinct_perm_mset) auto
  next
    assume eq: "mset (map np_participant_id nonces) = mset (sr_signer_set request)"
    then show "distinct (map np_participant_id nonces) \<and> length nonces = length (sr_signer_set request)"
      using d mset_eq_imp_distinct_iff [OF eq] mset_eq_length [OF eq] by simp
  qed
  then show ?thesis
    by (auto simp: nonces_to_map_def rbind_Inr_iff ensure_Inr_iff insert_nonces_iff [OF big])
qed

section \<open>Participant 0\<close>

text \<open>A signer set with participant 0 passes validation; no signature share is ever made for it.\<close>

lemma zero_signer_never_signs:
  assumes big: "big_characteristic TYPE('f::field)" and d: "distinct (sr_signer_set (fss_request s))"
    and z: "ParticipantId 0 \<in> set (sr_signer_set (fss_request s))"
  shows "snd (fss_sign_share (B :: ('f, 'ki, 'ps, 'sk, 'nn, 'sg) bincode_lib) S s share nonces) \<noteq> Inr pkg"
proof
  assume "snd (fss_sign_share B S s share nonces) = Inr pkg"
  then obtain m :: "('f \<times> 'nn) list" where "nonces_to_map (bc_nonce B) nonces (fss_request s) = Inr m"
    by (auto simp: fss_sign_share_def sign_with_nonce_def rbind_Inr_iff Let_def split: if_splits option.splits)
  then have ok: "\<forall>n\<in>set nonces. nonce_ok (bc_nonce B) (fss_request s) n"
    and eq: "mset (map np_participant_id nonces) = mset (sr_signer_set (fss_request s))"
    by (simp_all add: nonces_to_map_iff [OF big d])
  from eq z have "ParticipantId 0 \<in> set (map np_participant_id nonces)" by (metis mset_eq_setD)
  then obtain n where "n \<in> set nonces" "pid_val (np_participant_id n) = 0" by (auto dest: sym)
  with ok show False by (auto simp: nonce_ok_def)
qed

text \<open>A round 1 set that starts with participant 0 passes validation and round 2 panics on it in a checked build.\<close>

lemma zero_round1_panics:
  assumes v: "validate_round1_set s (p # pkgs) = Inr ()" and rt: "fds_runtime s = Some runtime"
    and z: "pid_val (r1_participant_id p) = 0" and dec: "is_ok (decode_binary (bc_keygen_input B) (r1_bytes p))"
  shows "snd (fds_round2 True B K s (p # pkgs)) = Inl (Panic ''attempt to subtract with overflow'')"
proof -
  from dec obtain ki where "decode_binary (bc_keygen_input B) (r1_bytes p) = Inr ki" by (auto simp: is_ok_iff)
  with v rt z show ?thesis
    by (simp add: fds_round2_def Let_def aggregate_keygen_inputs_def add_round1_input_def key_index_def)
qed

section \<open>A nonce is used once\<close>

datatype signing_event = NonceCall "NoncePackage outcome" | ShareCall "SignatureSharePackage outcome"

text \<open>
  The sessions that calls of \<open>nonce\<close> and \<open>sign_share\<close> can reach, in any order and with any
  arguments, with what the calls returned, the latest call first.
\<close>

inductive signing_run ::
    "('f::field, 'ki, 'ps, 'sk, 'nn, 'sg) bincode_lib \<Rightarrow> ('f, 'p, 'ps, 'sk, 'nk, 'nn, 'cs, 'pt, 'sg, 'r) signing_lib
      \<Rightarrow> SigningRequest \<Rightarrow> 'nk FrostSigningSession \<Rightarrow> signing_event list \<Rightarrow> bool"
  for B S request where
  start: "signing_run B S request (FrostSigningSession_new request) []"
| nonce: "signing_run B S request s evs \<Longrightarrow> fss_nonce B S rng s share = (s', r) \<Longrightarrow>
    signing_run B S request s' (NonceCall r # evs)"
| sign_share: "signing_run B S request s evs \<Longrightarrow> fss_sign_share B S s share nonces = (s', r) \<Longrightarrow>
    signing_run B S request s' (ShareCall r # evs)"

inductive_simps signing_run_Nil: "signing_run B S request s []"
inductive_cases signing_run_NonceE: "signing_run B S request s (NonceCall r # evs)"
inductive_cases signing_run_ShareE: "signing_run B S request s (ShareCall r # evs)"

lemma fss_nonce_cases:
  "fss_nonce B S rng s share = (s', r) \<Longrightarrow> s' = s \<and> (\<exists>f. r = Inl f)
     \<or> (\<exists>pkg nk. r = Inr pkg \<and> s' = s\<lparr>fss_nonce_runtime := Some nk\<rparr>
          \<and> encode_binary (bc_nonce B) (nonce_public S nk) = Inr (np_public_nonce_bytes pkg))"
  by (auto simp: fss_nonce_def Let_def rbind_Inr_iff split: sum.splits prod.splits)

lemma fss_sign_share_cases:
  "fss_sign_share B S s share nonces = (s', r) \<Longrightarrow> s' = s \<and> (\<exists>f. r = Inl f)
     \<or> (\<exists>nk. fss_nonce_runtime s = Some nk \<and> s' = s\<lparr>fss_nonce_runtime := None\<rparr>
          \<and> r = sign_with_nonce B S (fss_request s) share nonces nk)"
  by (auto simp: fss_sign_share_def split: if_splits option.splits)

text \<open>A session that holds a nonce issued it after its last signature share.\<close>

lemma held_nonce_is_fresh:
  assumes "signing_run B S request s evs" "fss_nonce_runtime s = Some nk"
  shows "\<exists>post pkg pre. evs = post @ NonceCall (Inr pkg) # pre \<and> (\<forall>sh. ShareCall (Inr sh) \<notin> set post)
    \<and> encode_binary (bc_nonce B) (nonce_public S nk) = Inr (np_public_nonce_bytes pkg)"
  using assms
proof (induction arbitrary: nk)
  case start
  then show ?case by (simp add: FrostSigningSession_new_def)
next
  case (nonce s evs rng share s' r)
  from fss_nonce_cases [OF nonce.hyps(2)] show ?case
  proof (elim disjE exE conjE)
    fix f assume "s' = s" "r = Inl f"
    with nonce obtain post pkg pre where "evs = post @ NonceCall (Inr pkg) # pre" "\<forall>sh. ShareCall (Inr sh) \<notin> set post"
      "encode_binary (bc_nonce B) (nonce_public S nk) = Inr (np_public_nonce_bytes pkg)" by blast
    then show ?thesis by (intro exI [of _ "NonceCall r # post"] exI [of _ pkg] exI [of _ pre]) simp
  next
    fix pkg nk' assume "r = Inr pkg" "s' = s\<lparr>fss_nonce_runtime := Some nk'\<rparr>"
      "encode_binary (bc_nonce B) (nonce_public S nk') = Inr (np_public_nonce_bytes pkg)"
    with nonce.prems show ?thesis by (intro exI [of _ "[]"] exI [of _ pkg] exI [of _ evs]) simp
  qed
next
  case (sign_share s evs share nonces s' r)
  from fss_sign_share_cases [OF sign_share.hyps(2)] sign_share.prems obtain f where s': "s' = s" "r = Inl f" by auto
  with sign_share obtain post pkg pre where "evs = post @ NonceCall (Inr pkg) # pre" "\<forall>sh. ShareCall (Inr sh) \<notin> set post"
    "encode_binary (bc_nonce B) (nonce_public S nk) = Inr (np_public_nonce_bytes pkg)" by blast
  with s' show ?case by (intro exI [of _ "ShareCall r # post"] exI [of _ pkg] exI [of _ pre]) simp
qed

lemma signing_run_suffix: "signing_run B S request s (xs @ ys) \<Longrightarrow> \<exists>s'. signing_run B S request s' ys"
proof (induction xs arbitrary: s)
  case (Cons x xs)
  then show ?case by (cases x) (auto elim: signing_run_NonceE signing_run_ShareE)
qed auto

text \<open>Between two signature shares of a session there is a new nonce.\<close>

lemma nonce_used_once:
  assumes run: "signing_run B S request s (post @ ShareCall (Inr sh2) # mid @ ShareCall (Inr sh1) # pre)"
  shows "\<exists>pkg. NonceCall (Inr pkg) \<in> set mid"
proof -
  from signing_run_suffix [OF run] obtain s2
    where "signing_run B S request s2 (ShareCall (Inr sh2) # mid @ ShareCall (Inr sh1) # pre)" by blast
  then obtain s1 share nonces where s1: "signing_run B S request s1 (mid @ ShareCall (Inr sh1) # pre)"
    "fss_sign_share B S s1 share nonces = (s2, Inr sh2)" by (auto elim: signing_run_ShareE)
  from fss_sign_share_cases [OF s1(2)] obtain nk where "fss_nonce_runtime s1 = Some nk" by auto
  from held_nonce_is_fresh [OF s1(1) this] obtain p pkg q
    where pq: "mid @ ShareCall (Inr sh1) # pre = p @ NonceCall (Inr pkg) # q" "\<forall>sh. ShareCall (Inr sh) \<notin> set p" by blast
  show ?thesis
  proof (rule ccontr)
    assume no: "\<not> ?thesis"
    from pq(1) consider us where "mid = p @ us" "us @ ShareCall (Inr sh1) # pre = NonceCall (Inr pkg) # q"
      | us where "p = mid @ us" "ShareCall (Inr sh1) # pre = us @ NonceCall (Inr pkg) # q"
      by (auto simp: append_eq_append_conv2)
    then show False using no pq(2) by cases (auto simp: Cons_eq_append_conv append_eq_Cons_conv)
  qed
qed

end
