(* ===== verification/Sdk.thy ===== *)
theory Sdk
  imports Transport Frost_Sessions
begin

text \<open>
  \<open>dkgkit-sdk/src/lib.rs\<close>: the session builder, the HTSS DKG service, the coordinator that
  moves packages over a transport, and the two local runs of FROST. A coordinator is its
  transport's state; every operation returns the coordinator it leaves behind.
\<close>

section \<open>The session builder\<close>

record DkgKitSessionBuilder =
  sb_session_id :: "string option"
  sb_threshold :: "u16 option"
  sb_participant_count :: "u16 option"
  sb_participants :: "Participant list"
  sb_local_participant_id :: "u16 option"

definition sb_new :: DkgKitSessionBuilder where
  "sb_new = \<lparr>sb_session_id = None, sb_threshold = None, sb_participant_count = None, sb_participants = [],
     sb_local_participant_id = None\<rparr>"

definition sb_set_session_id :: "string \<Rightarrow> DkgKitSessionBuilder \<Rightarrow> DkgKitSessionBuilder" where
  "sb_set_session_id v self = self\<lparr>sb_session_id := Some v\<rparr>"

definition sb_set_threshold :: "u16 \<Rightarrow> u16 \<Rightarrow> DkgKitSessionBuilder \<Rightarrow> DkgKitSessionBuilder" where
  "sb_set_threshold threshold participant_count self =
     self\<lparr>sb_threshold := Some threshold, sb_participant_count := Some participant_count\<rparr>"

definition sb_participant :: "u16 \<Rightarrow> string option \<Rightarrow> DkgKitSessionBuilder \<Rightarrow> DkgKitSessionBuilder result" where
  "sb_participant i label self =
     rbind (Participant_new i label) (\<lambda>p. Inr (self\<lparr>sb_participants := sb_participants self @ [p]\<rparr>))"

definition sb_local_participant :: "u16 \<Rightarrow> DkgKitSessionBuilder \<Rightarrow> DkgKitSessionBuilder" where
  "sb_local_participant i self = self\<lparr>sb_local_participant_id := Some i\<rparr>"

definition unwrap_or :: "'a \<Rightarrow> 'a option \<Rightarrow> 'a" where
  "unwrap_or d x = (case x of None \<Rightarrow> d | Some v \<Rightarrow> v)"

definition build_manifest :: "DkgKitSessionBuilder \<Rightarrow> SessionManifest result" where
  "build_manifest self =
     rbind (SessionConfig_new (unwrap_or ''default'' (sb_session_id self)) (unwrap_or 0 (sb_threshold self))
              (unwrap_or 0 (sb_participant_count self)) (sb_participants self)) (\<lambda>config.
     Inr (SessionManifest_frost_v1 config))"

definition build_frost_session :: "DkgKitSessionBuilder \<Rightarrow> 'ct FrostDkgSession result" where
  "build_frost_session self =
     rbind (ParticipantId_new (unwrap_or 0 (sb_local_participant_id self))) (\<lambda>local_participant_id.
     rbind (build_manifest self) (\<lambda>manifest.
     Inr (FrostDkgSession_new \<lparr>dsc_session_id = sc_session_id (sm_config manifest),
            dsc_threshold = sc_threshold (sm_config manifest), dsc_participant_id = local_participant_id\<rparr>)))"

definition create_frost_session :: "string \<Rightarrow> u16 \<Rightarrow> u16 \<Rightarrow> u16 \<Rightarrow> 'ct FrostDkgSession result" where
  "create_frost_session session_id threshold participants participant_id =
     rbind (SessionId_new session_id) (\<lambda>sid.
     rbind (ThresholdConfig_new threshold participants) (\<lambda>tc.
     rbind (ParticipantId_new participant_id) (\<lambda>pid.
     Inr (FrostDkgSession_new \<lparr>dsc_session_id = sid, dsc_threshold = tc, dsc_participant_id = pid\<rparr>))))"

section \<open>The HTSS DKG service\<close>

record HtssDkgService =
  svc_session_id :: SessionId
  svc_config :: HierarchicalThresholdConfig

definition HtssDkgService_new :: "string \<Rightarrow> HierarchicalThresholdConfig \<Rightarrow> HtssDkgService result" where
  "HtssDkgService_new session_id config =
     rbind (SessionId_new session_id) (\<lambda>sid. Inr \<lparr>svc_session_id = sid, svc_config = config\<rparr>)"

definition svc_begin_round1 ::
    "('f::field, 'p) secp \<Rightarrow> (nat \<Rightarrow> 'f) \<Rightarrow> HtssDkgService \<Rightarrow> ParticipantId \<Rightarrow> HtssDkgRound1State result" where
  "svc_begin_round1 C rnd self participant_id = htss_dkg_round1 C rnd participant_id (svc_config self)"

definition svc_round1_message ::
    "HtssDkgRound1Package codec \<Rightarrow> HtssDkgService \<Rightarrow> HtssDkgRound1Package \<Rightarrow> ProtocolMessage result" where
  "svc_round1_message J self package = HtssDkgRound1Package_to_protocol_message J package (svc_session_id self)"

definition svc_create_round2_packages ::
    "('f::field, 'p) secp \<Rightarrow> HtssDkgService \<Rightarrow> HtssDkgRound1State \<Rightarrow> HtssDkgRound1Package list
      \<Rightarrow> HtssDkgRound2Package list result" where
  "svc_create_round2_packages C self state round1_packages = htss_dkg_round2 C state round1_packages (svc_config self)"

definition svc_round2_message ::
    "HtssDkgRound2Package codec \<Rightarrow> HtssDkgService \<Rightarrow> HtssDkgRound2Package \<Rightarrow> ProtocolMessage result" where
  "svc_round2_message J self package = HtssDkgRound2Package_to_protocol_message J package (svc_session_id self)"

definition svc_finalize_participant ::
    "('f::field, 'p::ab_group_add) secp \<Rightarrow> HtssDkgService \<Rightarrow> ParticipantId \<Rightarrow> HtssDkgRound1Package list
      \<Rightarrow> HtssDkgRound2Package list \<Rightarrow> (GroupKey \<times> HtssLocalKeyShare) result" where
  "svc_finalize_participant C self participant_id round1_packages round2_packages =
     finalize_htss_dkg C participant_id round1_packages round2_packages (svc_config self)"

definition svc_run_local_rehearsal ::
    "('f::field, 'p::ab_group_add) secp \<Rightarrow> (nat \<Rightarrow> nat \<Rightarrow> 'f) \<Rightarrow> HtssDkgService \<Rightarrow> HtssLocalKeySet result" where
  "svc_run_local_rehearsal C rnd self = run_distributed_htss_keygen C rnd (svc_config self)"

section \<open>The coordinator\<close>

record 's FrostCoordinator =
  fc_transport :: 's

definition FrostCoordinator_new :: "'s \<Rightarrow> 's FrostCoordinator" where
  "FrostCoordinator_new transport = \<lparr>fc_transport = transport\<rparr>"

definition fc_into_inner :: "'s FrostCoordinator \<Rightarrow> 's" where
  "fc_into_inner self = fc_transport self"

definition fc_connect :: "'s Transport \<Rightarrow> 's FrostCoordinator \<Rightarrow> 's FrostCoordinator \<times> unit result" where
  "fc_connect T self = (case tr_connect T (fc_transport self) of (t, r) \<Rightarrow> (self\<lparr>fc_transport := t\<rparr>, r))"

definition fc_disconnect :: "'s Transport \<Rightarrow> 's FrostCoordinator \<Rightarrow> 's FrostCoordinator \<times> unit result" where
  "fc_disconnect T self = (case tr_disconnect T (fc_transport self) of (t, r) \<Rightarrow> (self\<lparr>fc_transport := t\<rparr>, r))"

text \<open>\<open>self.transport.publish(message?)\<close>.\<close>

definition fc_publish ::
    "'s Transport \<Rightarrow> 's FrostCoordinator \<Rightarrow> ProtocolMessage result \<Rightarrow> 's FrostCoordinator \<times> unit result" where
  "fc_publish T self message =
     (case message of
        Inl e \<Rightarrow> (self, Inl e)
      | Inr m \<Rightarrow> (case tr_publish T (fc_transport self) m of (t, r) \<Rightarrow> (self\<lparr>fc_transport := t\<rparr>, r)))"

definition publish_round1 where
  "publish_round1 T J self session_id package = fc_publish T self (Round1Package_to_protocol_message J package session_id)"

definition publish_round2 where
  "publish_round2 T J self session_id package = fc_publish T self (Round2Package_to_protocol_message J package session_id)"

definition publish_htss_dkg_round1 where
  "publish_htss_dkg_round1 T J self session_id package =
     fc_publish T self (HtssDkgRound1Package_to_protocol_message J package session_id)"

definition publish_htss_dkg_round2 where
  "publish_htss_dkg_round2 T J self session_id package =
     fc_publish T self (HtssDkgRound2Package_to_protocol_message J package session_id)"

definition publish_nonce where
  "publish_nonce T J self package = fc_publish T self (NoncePackage_to_protocol_message J package)"

definition publish_signature_share where
  "publish_signature_share T J self package = fc_publish T self (SignatureSharePackage_to_protocol_message J package)"

definition publish_htss_nonce where
  "publish_htss_nonce T J self package = fc_publish T self (HtssNoncePackage_to_protocol_message J package)"

definition publish_htss_signature_share where
  "publish_htss_signature_share T J self package =
     fc_publish T self (HtssSignatureSharePackage_to_protocol_message J package)"

text \<open>\<open>drain_matching(..)?\<close>, then \<open>map(from_protocol_message).collect()\<close>.\<close>

definition fc_drain ::
    "'s Transport \<Rightarrow> 's FrostCoordinator \<Rightarrow> SessionId \<Rightarrow> (ProtocolMessage \<Rightarrow> bool) \<Rightarrow> (ProtocolMessage \<Rightarrow> 'a result)
      \<Rightarrow> 's FrostCoordinator \<times> 'a list result" where
  "fc_drain T self session_id predicate from_message =
     (case tr_drain_matching T (fc_transport self) session_id predicate of
        (t, messages) \<Rightarrow> (self\<lparr>fc_transport := t\<rparr>, rbind messages (collect from_message)))"

definition drain_round1 where
  "drain_round1 T J self session_id =
     fc_drain T self session_id (\<lambda>message. pm_kind message = FrostDkgRound1) (Round1Package_from_protocol_message J)"

definition drain_round2_for where
  "drain_round2_for T J self session_id recipient =
     fc_drain T self session_id (\<lambda>message. pm_kind message = FrostDkgRound2 \<and> is_for message recipient)
       (Round2Package_from_protocol_message J)"

definition drain_htss_dkg_round1 where
  "drain_htss_dkg_round1 T J self session_id =
     fc_drain T self session_id (\<lambda>message. pm_kind message = HtssDkgRound1) (HtssDkgRound1Package_from_protocol_message J)"

definition drain_htss_dkg_round2_for where
  "drain_htss_dkg_round2_for T J self session_id recipient =
     fc_drain T self session_id (\<lambda>message. pm_kind message = HtssDkgRound2 \<and> is_for message recipient)
       (HtssDkgRound2Package_from_protocol_message J)"

definition drain_nonces where
  "drain_nonces T J self signing_session_id =
     fc_drain T self signing_session_id (\<lambda>message. pm_kind message = FrostSigningNonce) (NoncePackage_from_protocol_message J)"

definition drain_signature_shares where
  "drain_signature_shares T J self signing_session_id =
     fc_drain T self signing_session_id (\<lambda>message. pm_kind message = FrostSignatureShare)
       (SignatureSharePackage_from_protocol_message J)"

definition drain_htss_nonces where
  "drain_htss_nonces T J self signing_session_id =
     fc_drain T self signing_session_id (\<lambda>message. pm_kind message = HtssSigningNonce) (HtssNoncePackage_from_protocol_message J)"

definition drain_htss_signature_shares where
  "drain_htss_signature_shares T J self signing_session_id =
     fc_drain T self signing_session_id (\<lambda>message. pm_kind message = HtssSignatureShare)
       (HtssSignatureSharePackage_from_protocol_message J)"

section \<open>Local FROST runs\<close>

text \<open>One call on a session: its result with the session it leaves behind; a fault ends the run.\<close>

definition call :: "'s \<times> 'a outcome \<Rightarrow> ('s \<times> 'a) outcome" where
  "call sr = (case sr of (s, r) \<Rightarrow> rbind r (\<lambda>x. Inr (s, x)))"

definition run_local_frost_dkg ::
    "bool \<Rightarrow> ('f::field, 'p) secp \<Rightarrow> ('f, 'ki, 'ps, 'sk, 'nn, 'sg) bincode_lib
      \<Rightarrow> ('f, 'ct, 'ki, 'co, 'ag, 'ps, 'sk, 'r) keygen_lib \<Rightarrow> (nat \<Rightarrow> 'r) \<Rightarrow> string \<Rightarrow> u16 \<Rightarrow> u16
      \<Rightarrow> LocalKeyShare list outcome" where
  "run_local_frost_dkg oc C B K rng session_id threshold participants =
     rbind (lift_err (collect (\<lambda>participant_id. create_frost_session session_id threshold participants (as_u16 participant_id))
              [1..<Suc (unat participants)])) (\<lambda>sessions.
     rbind (collect (\<lambda>(i, session). call (fds_round1 oc C B K (rng i) session)) (enumerate 0 sessions)) (\<lambda>after1.
     let round1 = map snd after1 in
     rbind (collect (\<lambda>session. call (fds_round2 oc B K session round1)) (map fst after1)) (\<lambda>after2.
     let round2 = concat (map snd after2) in
     collect (\<lambda>session. fds_finalize oc B K session round2) (map fst after2))))"

text \<open>\<open>local_shares.iter().find(..).cloned().ok_or_else(..)\<close>.\<close>

definition select_share :: "LocalKeyShare list \<Rightarrow> ParticipantId \<Rightarrow> LocalKeyShare result" where
  "select_share local_shares participant_id =
     ok_or (find (\<lambda>share. lks_participant_id share = participant_id) local_shares)
       (Protocol (fmt [''missing local share for signer '', show_u16 (pid_val participant_id)]))"

text \<open>The common tail of the two signing helpers: one session per share, nonces, shares, aggregation.\<close>

definition sign_request_with_shares ::
    "('f::field, 'ki, 'ps, 'sk, 'nn, 'sg) bincode_lib \<Rightarrow> ('f, 'p, 'ps, 'sk, 'nk, 'nn, 'cs, 'pt, 'sg, 'r) signing_lib
      \<Rightarrow> (nat \<Rightarrow> 'r) \<Rightarrow> SigningRequest \<Rightarrow> LocalKeyShare list \<Rightarrow> ParticipantId list \<Rightarrow> AggregateSignature outcome" where
  "sign_request_with_shares B S rng request local_shares signer_set =
     rbind (lift_err (collect (select_share local_shares) signer_set)) (\<lambda>selected_shares.
     let signing_sessions = map (\<lambda>_. FrostSigningSession_new request) selected_shares in
     rbind (collect (\<lambda>(i, session, share). call (fss_nonce B S (rng i) session share))
              (enumerate 0 (zip signing_sessions selected_shares))) (\<lambda>after_nonce.
     let nonces = map snd after_nonce in
     rbind (collect (\<lambda>(session, share). call (fss_sign_share B S session share nonces))
              (zip (map fst after_nonce) selected_shares)) (\<lambda>after_sign.
     fss_aggregate B S (FrostSigningSession_new request) (map snd after_sign))))"

definition sign_digest_with_shares ::
    "('f::field, 'ki, 'ps, 'sk, 'nn, 'sg) bincode_lib \<Rightarrow> ('f, 'p, 'ps, 'sk, 'nk, 'nn, 'cs, 'pt, 'sg, 'r) signing_lib
      \<Rightarrow> (nat \<Rightarrow> 'r) \<Rightarrow> string \<Rightarrow> ThresholdConfig \<Rightarrow> GroupKey \<Rightarrow> bytes \<Rightarrow> LocalKeyShare list \<Rightarrow> ParticipantId list
      \<Rightarrow> AggregateSignature outcome" where
  "sign_digest_with_shares B S rng signing_session_id threshold group_key digest local_shares signer_set =
     rbind (lift_err (validate_signer_set signer_set threshold)) (\<lambda>_.
     rbind (lift_err (SessionId_new signing_session_id)) (\<lambda>signing_session_id.
     rbind (lift_err (SigningRequest_new signing_session_id group_key digest signer_set threshold)) (\<lambda>request.
     sign_request_with_shares B S rng request local_shares signer_set)))"

definition sign_digest_with_shares_and_policy ::
    "('f::field, 'ki, 'ps, 'sk, 'nn, 'sg) bincode_lib \<Rightarrow> ('f, 'p, 'ps, 'sk, 'nk, 'nn, 'cs, 'pt, 'sg, 'r) signing_lib
      \<Rightarrow> (nat \<Rightarrow> 'r) \<Rightarrow> string \<Rightarrow> SigningPolicy \<Rightarrow> GroupKey \<Rightarrow> bytes \<Rightarrow> LocalKeyShare list \<Rightarrow> ParticipantId list
      \<Rightarrow> AggregateSignature outcome" where
  "sign_digest_with_shares_and_policy B S rng signing_session_id policy group_key digest local_shares signer_set =
     rbind (lift_err (validate_signer_set_with_policy signer_set policy)) (\<lambda>_.
     rbind (lift_err (SessionId_new signing_session_id)) (\<lambda>signing_session_id.
     rbind (lift_err (SigningRequest_new_with_policy signing_session_id group_key digest signer_set policy)) (\<lambda>request.
     sign_request_with_shares B S rng request local_shares signer_set)))"

section \<open>Delivery over a coordinator\<close>

context drain_queue
begin

lemma fc_drain_exact:
  assumes "ok (fc_transport c)"
  shows "\<exists>c'. fc_drain T c sid P from_message =
      (c', collect from_message (filter (\<lambda>m. pm_session_id m = sid \<and> P m) (pending (fc_transport c))))
    \<and> ok (fc_transport c') \<and> pending (fc_transport c') = filter (\<lambda>m. \<not> (pm_session_id m = sid \<and> P m)) (pending (fc_transport c))"
  using drain [OF assms, of sid P] by (auto simp: fc_drain_def)

text \<open>Draining what was published for it: the packages asked for in order, nothing else is taken.\<close>

lemma fc_drain_packages:
  assumes ok: "ok (fc_transport c)" and ms: "pending (fc_transport c) = map g ks"
    and from_g: "\<And>k. k \<in> set ks \<Longrightarrow> from_message (g k) = Inr k"
    and sid: "\<And>k. k \<in> set ks \<Longrightarrow> pm_session_id (g k) = sid" and P: "\<And>k. k \<in> set ks \<Longrightarrow> P (g k) \<longleftrightarrow> Q k"
  shows "\<exists>c'. fc_drain T c sid P from_message = (c', Inr (filter Q ks))
    \<and> ok (fc_transport c') \<and> pending (fc_transport c') = map g (filter (\<lambda>k. \<not> Q k) ks)"
proof -
  have f: "filter (\<lambda>m. pm_session_id m = sid \<and> P m) (map g ks) = map g (filter Q ks)"
    "filter (\<lambda>m. \<not> (pm_session_id m = sid \<and> P m)) (map g ks) = map g (filter (\<lambda>k. \<not> Q k) ks)"
    using sid P by (auto simp: filter_map o_def intro!: arg_cong [where f = "map g"] filter_cong)
  moreover have "collect from_message (map g (filter Q ks)) = Inr (map id (filter Q ks))"
    unfolding collect_map by (rule collect_map_Inr) (simp add: from_g)
  ultimately show ?thesis using fc_drain_exact [OF ok, of sid P from_message] by (auto simp: ms)
qed

text \<open>One message that cannot be read: the drain fails and the whole batch is gone.\<close>

lemma fc_drain_loses_batch:
  assumes "ok (fc_transport c)" "m \<in> set (pending (fc_transport c))" "pm_session_id m = sid" "P m"
    and "from_message m = Inl e"
  shows "\<exists>c' e'. fc_drain T c sid P from_message = (c', Inl e') \<and> snd (fc_drain T c' sid P from_message) = Inr []"
proof -
  let ?Q = "\<lambda>m. pm_session_id m = sid \<and> P m"
  from fc_drain_exact [OF assms(1), of sid P from_message] obtain c' where c':
    "fc_drain T c sid P from_message = (c', collect from_message (filter ?Q (pending (fc_transport c))))"
    "ok (fc_transport c')" "pending (fc_transport c') = filter (\<lambda>m. \<not> ?Q m) (pending (fc_transport c))" by blast
  have "m \<in> set (filter ?Q (pending (fc_transport c)))" using assms by simp
  then have "\<exists>e'. collect from_message (filter ?Q (pending (fc_transport c))) = Inl e'" by (rule collect_error) fact
  moreover have "filter ?Q (pending (fc_transport c')) = []" unfolding c'(3) by (simp add: filter_empty_conv)
  with fc_drain_exact [OF c'(2), of sid P from_message] have "snd (fc_drain T c' sid P from_message) = Inr []" by auto
  ultimately show ?thesis using c'(1) by auto
qed

end

text \<open>
  Packages of one kind, published in a list and drained by kind and recipient, arrive in
  order. The predicate of the drain looks at the kind and the recipient only.
\<close>

context message_queue
begin

lemma fc_publish_step:
  assumes "ok (fc_transport c)" "r = Inr m" "deliverable m"
  shows "\<exists>c'. fc_publish T c r = (c', Inr ()) \<and> ok (fc_transport c') \<and> pending (fc_transport c') = pending (fc_transport c) @ [m]"
  using publish [OF assms(1,3)] assms(2) by (auto simp: fc_publish_def)

lemma fc_publish_all:
  assumes "ok (fc_transport c)" "list_all2 (\<lambda>k m. to_message k = Inr m \<and> deliverable m) ks ms"
  shows "let c' = fold (\<lambda>k c. fst (fc_publish T c (to_message k))) ks c
    in ok (fc_transport c') \<and> pending (fc_transport c') = pending (fc_transport c) @ ms"
  using assms(2,1)
proof (induction arbitrary: c rule: list_all2_induct)
  case (Cons k ks m ms)
  from fc_publish_step [of c "to_message k" m] Cons obtain c' where c': "fc_publish T c (to_message k) = (c', Inr ())"
    "ok (fc_transport c')" "pending (fc_transport c') = pending (fc_transport c) @ [m]" by auto
  with Cons.IH [of c'] show ?case by (simp add: Let_def)
qed simp

text \<open>The round trip, for packages whose codec meets the contract.\<close>

lemma fc_roundtrip:
  assumes pm: "package_message to_message from_message J kind sender recipient session valid"
    and J: "codec_ok J" and ok: "ok (fc_transport c)"
    and ks: "\<forall>k\<in>set ks. valid k \<and> (session k = None \<or> session k = Some sid)"
    and del: "\<forall>k\<in>set ks. \<forall>m. to_message sid k = Inr m \<longrightarrow> deliverable m"
    and P: "\<And>m. P m \<longleftrightarrow> pm_kind m = kind \<and> A (pm_recipient m)"
    and none: "\<forall>m\<in>set (pending (fc_transport c)). \<not> (pm_session_id m = sid \<and> P m)"
  shows "snd (fc_drain T (fold (\<lambda>k c. fst (fc_publish T c (to_message sid k))) ks c) sid P from_message)
    = Inr (filter (\<lambda>k. A (recipient k)) ks)"
proof -
  let ?g = "\<lambda>k. projr (to_message sid k)" and ?Q = "\<lambda>m. pm_session_id m = sid \<and> P m"
  let ?c = "fold (\<lambda>k c. fst (fc_publish T c (to_message sid k))) ks c"
  have g: "to_message sid k = Inr (?g k) \<and> from_message (?g k) = Inr k \<and> (?Q (?g k) \<longleftrightarrow> A (recipient k))"
    if "k \<in> set ks" for k
    using package_message.message_of [OF pm J, of k sid] ks that by (auto simp: P)
  have "list_all2 (\<lambda>k m. to_message sid k = Inr m \<and> deliverable m) ks (map ?g ks)"
    using g del by (auto simp: list_all2_map2 intro!: list_all2_same [THEN iffD2])
  from fc_publish_all [OF ok this] have c': "ok (fc_transport ?c)" "pending (fc_transport ?c) = pending (fc_transport c) @ map ?g ks"
    by (auto simp: Let_def)
  have "filter ?Q (pending (fc_transport ?c)) = map ?g (filter (\<lambda>k. A (recipient k)) ks)"
    using none g unfolding c'(2) by (simp add: filter_empty_conv filter_map o_def cong: filter_cong)
  moreover have "collect from_message (map ?g (filter (\<lambda>k. A (recipient k)) ks)) = Inr (map id (filter (\<lambda>k. A (recipient k)) ks))"
    unfolding collect_map by (rule collect_map_Inr) (use g in auto)
  ultimately show ?thesis using fc_drain_exact [OF c'(1), of sid P from_message] by auto
qed

end

end
