(* ===== verification/Bitcoin.thy ===== *)
theory Bitcoin
  imports Packages
begin

text \<open>
  \<open>dkgkit-bitcoin/src/lib.rs\<close>: authorisation messages, Taproot addresses and the key
  tweaks that connect them to the group key, signature verification, and key-path spends.
  The crates \<open>bitcoin\<close>, \<open>secp256k1\<close>, \<open>sha2\<close> and \<open>hex\<close> are parameters (\<open>btc_lib\<close>,
  \<open>tx_lib\<close>); \<open>btc_laws\<close> states what BIP32, BIP340 and BIP341 say of them. An x-only public
  key is its point with even y-coordinate. An \<open>anyhow\<close> error is its text.
\<close>

type_synonym 'a anyhow = "string + 'a"

text \<open>\<open>map_err(|err| anyhow!("..{err}"))\<close>, \<open>map_err(|_| anyhow!(".."))\<close> and \<open>context(..)\<close>.\<close>

definition anyhow_err :: "string \<Rightarrow> string + 'a \<Rightarrow> 'a anyhow" where
  "anyhow_err what r = (case r of Inl e \<Rightarrow> Inl (fmt [what, e]) | Inr x \<Rightarrow> Inr x)"

definition with_context :: "string \<Rightarrow> string + 'a \<Rightarrow> 'a anyhow" where
  "with_context what r = (case r of Inl e \<Rightarrow> Inl what | Inr x \<Rightarrow> Inr x)"

lemma anyhow_err_Inr_iff [result_simps]: "anyhow_err what r = Inr x \<longleftrightarrow> r = Inr x"
  by (auto simp: anyhow_err_def split: sum.splits)

lemma with_context_Inr_iff [result_simps]: "with_context what r = Inr x \<longleftrightarrow> r = Inr x"
  by (auto simp: with_context_def split: sum.splits)

section \<open>Authorisation messages\<close>

record BitcoinAuthorizationMessage =
  bam_network :: string
  bam_action :: string
  bam_recipient :: "string option"
  bam_amount_sats :: "u64 option"
  bam_memo :: "string option"
  bam_nonce :: string

definition opt_str :: "string option \<Rightarrow> string" where
  "opt_str s = (case s of None \<Rightarrow> [] | Some v \<Rightarrow> v)"

abbreviation newline :: string where
  "newline \<equiv> [CHR 0x0A]"

definition canonical_text :: "BitcoinAuthorizationMessage \<Rightarrow> string" where
  "canonical_text self =
     fmt [''DKGKit Bitcoin Authorization'', newline, ''network='', bam_network self, newline, ''action='', bam_action self,
       newline, ''recipient='', opt_str (bam_recipient self),
       newline, ''amount_sats='', opt_str (map_option (\<lambda>v. show_nat (unat v)) (bam_amount_sats self)),
       newline, ''memo='', opt_str (bam_memo self), newline, ''nonce='', bam_nonce self]"

section \<open>Keys, paths, descriptors\<close>

record BitcoinDerivationPath =
  bdp_purpose :: u32
  bdp_coin_type :: u32
  bdp_account :: u32
  bdp_change :: u32
  bdp_address_index :: u32

record BitcoinAccountKey =
  bak_group_key :: GroupKey
  bak_chain_code :: bytes

definition BitcoinAccountKey_new :: "GroupKey \<Rightarrow> bytes \<Rightarrow> BitcoinAccountKey" where
  "BitcoinAccountKey_new group_key chain_code = \<lparr>bak_group_key = group_key, bak_chain_code = chain_code\<rparr>"

definition bip86 :: "u32 \<Rightarrow> u32 \<Rightarrow> u32 \<Rightarrow> BitcoinDerivationPath" where
  "bip86 account change address_index = \<lparr>bdp_purpose = 86, bdp_coin_type = 0, bdp_account = account,
     bdp_change = change, bdp_address_index = address_index\<rparr>"

definition bip44 :: "u32 \<Rightarrow> u32 \<Rightarrow> u32 \<Rightarrow> BitcoinDerivationPath" where
  "bip44 account change address_index = \<lparr>bdp_purpose = 44, bdp_coin_type = 0, bdp_account = account,
     bdp_change = change, bdp_address_index = address_index\<rparr>"

definition display_path :: "BitcoinDerivationPath \<Rightarrow> string" where
  "display_path self =
     fmt [''m/'', show_nat (unat (bdp_purpose self)), [CHR 0x27, CHR 0x2F], show_nat (unat (bdp_coin_type self)),
       [CHR 0x27, CHR 0x2F], show_nat (unat (bdp_account self)), [CHR 0x27, CHR 0x2F], show_nat (unat (bdp_change self)),
       ''/'', show_nat (unat (bdp_address_index self))]"

record BitcoinAddressDescriptor =
  bad_path :: BitcoinDerivationPath
  bad_network :: string
  bad_address :: string
  bad_account_xonly_public_key_hex :: string
  bad_internal_xonly_public_key_hex :: string
  bad_xonly_public_key_hex :: string
  bad_chain_code_hex :: string

record TaprootKeyTweak =
  tkt_output_xonly :: bytes
  tkt_tweak :: bytes
  tkt_negate_key :: bool

section \<open>The libraries\<close>

datatype Network = Bitcoin | Testnet | Testnet4 | Signet | Regtest

datatype NetworkKind = Main | Test

datatype ChildNumber = Normal u32 | Hardened u32

record 'p Xpub =
  xp_network :: NetworkKind
  xp_depth :: u8
  xp_parent_fingerprint :: bytes
  xp_child_number :: ChildNumber
  xp_public_key :: 'p
  xp_chain_code :: bytes

record ('f, 'p, 'ad) btc_lib =
  xonly_from_slice :: "bytes \<Rightarrow> string + 'p"
  xonly_serialize :: "'p \<Rightarrow> bytes"
  x_only_public_key :: "'p \<Rightarrow> 'p \<times> bool"            \<comment> \<open>the flag is \<open>Parity::Odd\<close>\<close>
  pubkey_serialize :: "'p \<Rightarrow> bytes"
  add_exp_tweak :: "'p \<Rightarrow> 'f \<Rightarrow> string + 'p"
  secp_scalar_from_be_bytes :: "bytes \<Rightarrow> string + 'f"
  secret_from_slice :: "bytes \<Rightarrow> string + 'f"
  secret_add_tweak :: "'f \<Rightarrow> 'f \<Rightarrow> string + 'f"
  secret_negate :: "'f \<Rightarrow> 'f"
  secret_bytes :: "'f \<Rightarrow> bytes"
  network_kind :: "Network \<Rightarrow> NetworkKind"
  from_hardened_idx :: "u32 \<Rightarrow> string + ChildNumber"
  from_normal_idx :: "u32 \<Rightarrow> string + ChildNumber"
  ckd_pub :: "'p Xpub \<Rightarrow> ChildNumber \<Rightarrow> string + 'p Xpub"
  hmac_sha512 :: "bytes \<Rightarrow> bytes \<Rightarrow> bytes"               \<comment> \<open>key, message\<close>
  tap_tweak_hash :: "'p \<Rightarrow> 'f"                         \<comment> \<open>\<open>TapTweakHash::from_key_and_tweak(_, None).to_scalar()\<close>\<close>
  tap_tweak :: "'p \<Rightarrow> 'p \<times> bool"                     \<comment> \<open>\<open>tap_tweak(_, None)\<close>\<close>
  p2tr_tweaked :: "'p \<Rightarrow> Network \<Rightarrow> 'ad"
  address_to_string :: "'ad \<Rightarrow> string"
  xonly_to_string :: "'p \<Rightarrow> string"
  verify_schnorr :: "bytes \<Rightarrow> bytes \<Rightarrow> 'p \<Rightarrow> bool"
  signature_from_slice :: "bytes \<Rightarrow> string + bytes"
  sha256_digest :: "bytes \<Rightarrow> bytes"
  hex_encode :: "bytes \<Rightarrow> string"
  hex_decode :: "string \<Rightarrow> string + bytes"

definition sha256 :: "('f, 'p, 'ad) btc_lib \<Rightarrow> bytes \<Rightarrow> bytes" where
  "sha256 L bytes = sha256_digest L bytes"

definition bam_digest :: "('f, 'p, 'ad) btc_lib \<Rightarrow> BitcoinAuthorizationMessage \<Rightarrow> bytes" where
  "bam_digest L self = sha256 L (as_bytes (canonical_text self))"

text \<open>\<open>Vec<u8>::try_into::<[u8; n]>()\<close>.\<close>

definition try_into_array :: "nat \<Rightarrow> string \<Rightarrow> bytes \<Rightarrow> bytes anyhow" where
  "try_into_array n message bytes = rbind (ensure (length bytes = n) message) (\<lambda>_. Inr bytes)"

definition parse_xonly_public_key_hex :: "('f, 'p, 'ad) btc_lib \<Rightarrow> string \<Rightarrow> bytes anyhow" where
  "parse_xonly_public_key_hex L hex_text =
     rbind (with_context ''x-only public key must be hex'' (hex_decode L hex_text)) (\<lambda>bytes.
     try_into_array 32 ''x-only public key must be exactly 32 bytes'' bytes)"

definition parse_network :: "string \<Rightarrow> Network anyhow" where
  "parse_network network =
     (if network = ''bitcoin'' \<or> network = ''mainnet'' then Inr Bitcoin
      else if network = ''testnet'' then Inr Testnet
      else if network = ''testnet4'' then Inr Testnet4
      else if network = ''signet'' then Inr Signet
      else if network = ''regtest'' then Inr Regtest
      else Inl (fmt [''unsupported Bitcoin network: '', network]))"

text \<open>\<open>format!("{network:?}")\<close>.\<close>

primrec network_debug :: "Network \<Rightarrow> string" where
  "network_debug Bitcoin = ''Bitcoin''"
| "network_debug Testnet = ''Testnet''"
| "network_debug Testnet4 = ''Testnet4''"
| "network_debug Signet = ''Signet''"
| "network_debug Regtest = ''Regtest''"

section \<open>Addresses\<close>

definition taproot_address :: "('f, 'p, 'ad) btc_lib \<Rightarrow> GroupKey \<Rightarrow> Network \<Rightarrow> 'ad anyhow" where
  "taproot_address L group_key network =
     rbind (anyhow_err ''invalid x-only public key: '' (xonly_from_slice L (gk_xonly_public_key group_key))) (\<lambda>xonly.
     Inr (p2tr_tweaked L xonly network))"

definition taproot_address_descriptor ::
    "('f, 'p, 'ad) btc_lib \<Rightarrow> GroupKey \<Rightarrow> Network \<Rightarrow> BitcoinDerivationPath \<Rightarrow> BitcoinAddressDescriptor anyhow" where
  "taproot_address_descriptor L group_key network path =
     rbind (taproot_address L group_key network) (\<lambda>address.
     Inr \<lparr>bad_path = path, bad_network = network_debug network, bad_address = address_to_string L address,
          bad_account_xonly_public_key_hex = hex_encode L (gk_xonly_public_key group_key),
          bad_internal_xonly_public_key_hex = hex_encode L (gk_xonly_public_key group_key),
          bad_xonly_public_key_hex = hex_encode L (gk_xonly_public_key group_key), bad_chain_code_hex = []\<rparr>)"

definition taproot_address_descriptor_for_network ::
    "('f, 'p, 'ad) btc_lib \<Rightarrow> GroupKey \<Rightarrow> string \<Rightarrow> BitcoinDerivationPath \<Rightarrow> BitcoinAddressDescriptor anyhow" where
  "taproot_address_descriptor_for_network L group_key network path =
     rbind (parse_network network) (\<lambda>network. taproot_address_descriptor L group_key network path)"

definition taproot_address_from_xonly_hex :: "('f, 'p, 'ad) btc_lib \<Rightarrow> string \<Rightarrow> Network \<Rightarrow> 'ad anyhow" where
  "taproot_address_from_xonly_hex L xonly_hex network =
     rbind (parse_xonly_public_key_hex L xonly_hex) (\<lambda>key.
     taproot_address L \<lparr>gk_xonly_public_key = key, gk_verification_key_bytes = []\<rparr> network)"

text \<open>
  The account level as an extended key and the two public derivation steps below it: the
  same statements open \<open>taproot_child_address_descriptor\<close> and \<open>taproot_child_key_tweak\<close>.
\<close>

definition account_xpub ::
    "('f, 'p, 'ad) btc_lib \<Rightarrow> BitcoinAccountKey \<Rightarrow> Network \<Rightarrow> BitcoinDerivationPath \<Rightarrow> 'p Xpub anyhow" where
  "account_xpub L account_key network path =
     rbind (anyhow_err ''invalid account x-only public key: ''
              (xonly_from_slice L (gk_xonly_public_key (bak_group_key account_key)))) (\<lambda>account_public_key.
     rbind (anyhow_err ''invalid account index: '' (from_hardened_idx L (bdp_account path))) (\<lambda>child_number.
     Inr \<lparr>xp_network = network_kind L network, xp_depth = 3, xp_parent_fingerprint = [0, 0, 0, 0],
          xp_child_number = child_number, xp_public_key = account_public_key,
          xp_chain_code = bak_chain_code account_key\<rparr>))"

definition derive_child :: "('f, 'p, 'ad) btc_lib \<Rightarrow> u32 \<Rightarrow> 'p Xpub \<Rightarrow> 'p Xpub anyhow" where
  "derive_child L index xpub =
     rbind (anyhow_err ''invalid child index: '' (from_normal_idx L index)) (\<lambda>child_number.
     anyhow_err ''failed to derive public child key: '' (ckd_pub L xpub child_number))"

definition child_xpub ::
    "('f, 'p, 'ad) btc_lib \<Rightarrow> BitcoinAccountKey \<Rightarrow> Network \<Rightarrow> BitcoinDerivationPath \<Rightarrow> 'p Xpub anyhow" where
  "child_xpub L account_key network path =
     rbind (account_xpub L account_key network path)
       (try_for (derive_child L) [bdp_change path, bdp_address_index path])"

definition taproot_child_address_descriptor ::
    "('f, 'p, 'ad) btc_lib \<Rightarrow> BitcoinAccountKey \<Rightarrow> Network \<Rightarrow> BitcoinDerivationPath \<Rightarrow> BitcoinAddressDescriptor anyhow" where
  "taproot_child_address_descriptor L account_key network path =
     rbind (child_xpub L account_key network path) (\<lambda>xpub.
     let internal_xonly = fst (x_only_public_key L (xp_public_key xpub));
         (output_key, _) = tap_tweak L internal_xonly in
     Inr \<lparr>bad_path = path, bad_network = network_debug network,
          bad_address = address_to_string L (p2tr_tweaked L output_key network),
          bad_account_xonly_public_key_hex = hex_encode L (gk_xonly_public_key (bak_group_key account_key)),
          bad_internal_xonly_public_key_hex = xonly_to_string L internal_xonly,
          bad_xonly_public_key_hex = xonly_to_string L output_key,
          bad_chain_code_hex = hex_encode L (xp_chain_code xpub)\<rparr>)"

definition taproot_child_address_descriptor_for_network ::
    "('f, 'p, 'ad) btc_lib \<Rightarrow> BitcoinAccountKey \<Rightarrow> string \<Rightarrow> BitcoinDerivationPath \<Rightarrow> BitcoinAddressDescriptor anyhow" where
  "taproot_child_address_descriptor_for_network L account_key network path =
     rbind (parse_network network) (\<lambda>network. taproot_child_address_descriptor L account_key network path)"

section \<open>Key tweaks\<close>

definition u32_to_be_bytes :: "u32 \<Rightarrow> bytes" where
  "u32_to_be_bytes w = [ucast (drop_bit 24 w), ucast (drop_bit 16 w), ucast (drop_bit 8 w), ucast w]"

text \<open>One step of the recomputation of the BIP32 tweak: chain code, parent point, accumulated tweak.\<close>

definition bip32_step ::
    "('f, 'p, 'ad) btc_lib \<Rightarrow> u32 \<Rightarrow> bytes \<times> 'p \<times> 'f option \<Rightarrow> (bytes \<times> 'p \<times> 'f option) anyhow" where
  "bip32_step L index st =
     (let (chain_code, parent, bip32_tweak) = st;
          i = hmac_sha512 L chain_code (pubkey_serialize L parent @ u32_to_be_bytes index);
          il = take 32 i in
      rbind (anyhow_err ''invalid BIP32 tweak: '' (secp_scalar_from_be_bytes L il)) (\<lambda>il_scalar.
      rbind (anyhow_err ''BIP32 point derivation failed: '' (add_exp_tweak L parent il_scalar)) (\<lambda>parent.
      rbind (case bip32_tweak of
               None \<Rightarrow> anyhow_err ''invalid BIP32 tweak: '' (secret_from_slice L il)
             | Some acc \<Rightarrow> anyhow_err ''BIP32 tweak accumulation failed: '' (secret_add_tweak L acc il_scalar)) (\<lambda>acc.
      Inr (drop 32 i, parent, Some acc)))))"

text \<open>
  The BIP341 tweak on top of an internal key whose secret is the group secret plus
  \<open>key_tweak\<close>: the closing statements of \<open>taproot_child_key_tweak\<close> and
  \<open>silent_payment_output_tweak\<close>.
\<close>

definition output_tweak :: "('f, 'p, 'ad) btc_lib \<Rightarrow> 'p \<Rightarrow> bool \<Rightarrow> 'f \<Rightarrow> TaprootKeyTweak anyhow" where
  "output_tweak L internal_xonly internal_was_odd key_tweak =
     (let tap_tweak_scalar = tap_tweak_hash L internal_xonly;
          (output_key, output_was_odd) = tap_tweak L internal_xonly;
          inner = (if internal_was_odd then secret_negate L key_tweak else key_tweak) in
      rbind (anyhow_err ''taproot tweak accumulation failed: '' (secret_add_tweak L inner tap_tweak_scalar)) (\<lambda>inner.
      Inr \<lparr>tkt_output_xonly = xonly_serialize L output_key,
           tkt_tweak = secret_bytes L (if output_was_odd then secret_negate L inner else inner),
           tkt_negate_key = (internal_was_odd \<noteq> output_was_odd)\<rparr>))"

definition taproot_child_key_tweak ::
    "('f, 'p, 'ad) btc_lib \<Rightarrow> BitcoinAccountKey \<Rightarrow> string \<Rightarrow> BitcoinDerivationPath \<Rightarrow> TaprootKeyTweak anyhow" where
  "taproot_child_key_tweak L account_key network path =
     rbind (parse_network network) (\<lambda>network.
     rbind (account_xpub L account_key network path) (\<lambda>account.
     rbind (try_for (derive_child L) [bdp_change path, bdp_address_index path] account) (\<lambda>xpub.
     let (internal_xonly, child_was_odd) = x_only_public_key L (xp_public_key xpub) in
     rbind (try_for (bip32_step L) [bdp_change path, bdp_address_index path]
              (bak_chain_code account_key, xp_public_key account, None)) (\<lambda>(_, parent, bip32_tweak).
     rbind (ok_or bip32_tweak ''empty derivation path'') (\<lambda>bip32_tweak.
     rbind (ensure (parent = xp_public_key xpub) ''recomputed BIP32 child does not match the Xpub derivation'') (\<lambda>_.
     output_tweak L internal_xonly child_was_odd bip32_tweak))))))"

definition silent_payment_point ::
    "('f, 'p, 'ad) btc_lib \<Rightarrow> GroupKey \<Rightarrow> bytes \<Rightarrow> ('f \<times> 'p) anyhow" where
  "silent_payment_point L group_key k =
     rbind (anyhow_err ''invalid group x-only public key: '' (xonly_from_slice L (gk_xonly_public_key group_key))) (\<lambda>p_even.
     rbind (anyhow_err ''invalid silent-payment tweak scalar: '' (secret_from_slice L k)) (\<lambda>k_secret.
     rbind (anyhow_err ''invalid silent-payment tweak scalar: '' (secp_scalar_from_be_bytes L k)) (\<lambda>k_scalar.
     rbind (anyhow_err ''silent-payment point derivation failed: '' (add_exp_tweak L p_even k_scalar)) (\<lambda>point.
     Inr (k_secret, point)))))"

definition silent_payment_output_tweak ::
    "('f, 'p, 'ad) btc_lib \<Rightarrow> GroupKey \<Rightarrow> bytes \<Rightarrow> TaprootKeyTweak anyhow" where
  "silent_payment_output_tweak L group_key k =
     rbind (silent_payment_point L group_key k) (\<lambda>(k_secret, internal_point).
     let (internal_xonly, internal_was_odd) = x_only_public_key L internal_point in
     output_tweak L internal_xonly internal_was_odd k_secret)"

definition silent_payment_leaf_tweak ::
    "('f, 'p, 'ad) btc_lib \<Rightarrow> GroupKey \<Rightarrow> bytes \<Rightarrow> TaprootKeyTweak anyhow" where
  "silent_payment_leaf_tweak L group_key k =
     rbind (silent_payment_point L group_key k) (\<lambda>(k_secret, p_point).
     let (p_xonly, p_was_odd) = x_only_public_key L p_point in
     Inr \<lparr>tkt_output_xonly = xonly_serialize L p_xonly,
          tkt_tweak = secret_bytes L (if p_was_odd then secret_negate L k_secret else k_secret),
          tkt_negate_key = p_was_odd\<rparr>)"

section \<open>Verification\<close>

definition verify_schnorr_digest :: "('f, 'p, 'ad) btc_lib \<Rightarrow> bytes \<Rightarrow> bytes \<Rightarrow> bytes \<Rightarrow> bool anyhow" where
  "verify_schnorr_digest L xonly_public_key digest signature =
     rbind (anyhow_err ''invalid x-only public key: '' (xonly_from_slice L xonly_public_key)) (\<lambda>public_key.
     rbind (anyhow_err ''invalid Schnorr signature: '' (signature_from_slice L signature)) (\<lambda>signature.
     Inr (verify_schnorr L signature digest public_key)))"

definition verify_aggregate_signature_digest ::
    "('f, 'p, 'ad) btc_lib \<Rightarrow> GroupKey \<Rightarrow> bytes \<Rightarrow> AggregateSignature \<Rightarrow> bool anyhow" where
  "verify_aggregate_signature_digest L group_key digest signature =
     rbind (try_into_array 64 ''aggregate signature must be exactly 64 bytes'' (as_signature_bytes signature)) (\<lambda>signature_bytes.
     verify_schnorr_digest L (gk_xonly_public_key group_key) digest signature_bytes)"

definition verify_schnorr_digest_hex ::
    "('f, 'p, 'ad) btc_lib \<Rightarrow> string \<Rightarrow> string \<Rightarrow> string \<Rightarrow> bool anyhow" where
  "verify_schnorr_digest_hex L xonly_public_key_hex digest_hex signature_hex =
     rbind (parse_xonly_public_key_hex L xonly_public_key_hex) (\<lambda>public_key.
     rbind (with_context ''digest must be hex'' (hex_decode L digest_hex)) (\<lambda>digest.
     rbind (try_into_array 32 ''digest must be exactly 32 bytes'' digest) (\<lambda>digest.
     rbind (with_context ''signature must be hex'' (hex_decode L signature_hex)) (\<lambda>signature.
     rbind (try_into_array 64 ''signature must be exactly 64 bytes'' signature) (\<lambda>signature.
     verify_schnorr_digest L public_key digest signature)))))"

section \<open>Key-path spends\<close>

record TaprootSpendInput =
  tsi_txid :: string
  tsi_vout :: u32
  tsi_value_sats :: u64

record TaprootSpendOutput =
  tso_address :: string
  tso_value_sats :: u64

text \<open>The public structs of the \<open>bitcoin\<close> crate the code fills in; \<open>'id\<close> is \<open>Txid\<close>, \<open>'sc\<close> \<open>ScriptBuf\<close>.\<close>

record ('id, 'sc) TxIn =
  ti_previous_output :: "'id \<times> u32"
  ti_script_sig :: 'sc
  ti_sequence :: u32
  ti_witness :: "bytes list"

record 'sc TxOut =
  to_value :: u64
  to_script_pubkey :: 'sc

record ('id, 'sc) Transaction =
  tx_version :: nat
  tx_lock_time :: u32
  tx_input :: "('id, 'sc) TxIn list"
  tx_output :: "'sc TxOut list"

record ('id, 'sc, 'ua, 'ad) tx_lib =
  address_from_str :: "string \<Rightarrow> string + 'ua"
  require_network :: "'ua \<Rightarrow> Network \<Rightarrow> string + 'ad"
  script_pubkey :: "'ad \<Rightarrow> 'sc"
  script_new :: 'sc
  txid_from_str :: "string \<Rightarrow> string + 'id"
  txid_to_string :: "'id \<Rightarrow> string"
  enable_rbf_no_locktime :: u32
  key_spend_sighash :: "('id, 'sc) Transaction \<Rightarrow> nat \<Rightarrow> 'sc TxOut list \<Rightarrow> string + bytes"
  serialize_hex :: "('id, 'sc) Transaction \<Rightarrow> string"
  deserialize_hex :: "string \<Rightarrow> string + ('id, 'sc) Transaction"
  compute_txid :: "('id, 'sc) Transaction \<Rightarrow> 'id"

definition checked_script ::
    "('id, 'sc, 'ua, 'ad) tx_lib \<Rightarrow> string \<Rightarrow> string \<Rightarrow> Network \<Rightarrow> string \<Rightarrow> 'sc anyhow" where
  "checked_script X invalid mismatch net address =
     rbind (anyhow_err invalid (address_from_str X address)) (\<lambda>unchecked.
     rbind (anyhow_err mismatch (require_network X unchecked net)) (\<lambda>checked.
     Inr (script_pubkey X checked)))"

definition spend_input :: "('id, 'sc, 'ua, 'ad) tx_lib \<Rightarrow> TaprootSpendInput \<Rightarrow> ('id, 'sc) TxIn anyhow" where
  "spend_input X i =
     rbind (anyhow_err ''invalid input txid: '' (txid_from_str X (tsi_txid i))) (\<lambda>txid.
     Inr \<lparr>ti_previous_output = (txid, tsi_vout i), ti_script_sig = script_new X,
          ti_sequence = enable_rbf_no_locktime X, ti_witness = []\<rparr>)"

definition spend_output ::
    "('id, 'sc, 'ua, 'ad) tx_lib \<Rightarrow> Network \<Rightarrow> TaprootSpendOutput \<Rightarrow> 'sc TxOut anyhow" where
  "spend_output X net out =
     rbind (checked_script X ''invalid output address: '' ''output address network mismatch: '' net (tso_address out)) (\<lambda>script.
     Inr \<lparr>to_value = tso_value_sats out, to_script_pubkey = script\<rparr>)"

definition taproot_keyspend_sighashes ::
    "('id, 'sc, 'ua, 'ad) tx_lib \<Rightarrow> string \<Rightarrow> string \<Rightarrow> TaprootSpendInput list \<Rightarrow> TaprootSpendOutput list
      \<Rightarrow> (string \<times> bytes list) anyhow" where
  "taproot_keyspend_sighashes X network vault_address inputs outputs =
     rbind (ensure (inputs \<noteq> []) ''a spend needs at least one input'') (\<lambda>_.
     rbind (ensure (outputs \<noteq> []) ''a spend needs at least one output'') (\<lambda>_.
     rbind (parse_network network) (\<lambda>net.
     rbind (checked_script X ''invalid vault address: '' ''vault address network mismatch: '' net vault_address) (\<lambda>vault_script.
     rbind (collect (spend_input X) inputs) (\<lambda>tx_inputs.
     rbind (collect (spend_output X net) outputs) (\<lambda>tx_outputs.
     let unsigned = \<lparr>tx_version = 2, tx_lock_time = 0, tx_input = tx_inputs, tx_output = tx_outputs\<rparr>;
         prevouts = map (\<lambda>i. \<lparr>to_value = tsi_value_sats i, to_script_pubkey = vault_script\<rparr>) inputs in
     rbind (collect (\<lambda>index. anyhow_err ''taproot sighash failed: '' (key_spend_sighash X unsigned index prevouts))
              [0..<length inputs]) (\<lambda>sighashes.
     Inr (serialize_hex X unsigned, sighashes))))))))"

definition finalize_taproot_keyspend ::
    "('id, 'sc, 'ua, 'ad) tx_lib \<Rightarrow> string \<Rightarrow> bytes list \<Rightarrow> (string \<times> string) anyhow" where
  "finalize_taproot_keyspend X unsigned_tx_hex signatures =
     rbind (anyhow_err ''invalid unsigned transaction: '' (deserialize_hex X unsigned_tx_hex)) (\<lambda>tx.
     rbind (ensure (length (tx_input tx) = length signatures)
              (fmt [''expected '', show_nat (length (tx_input tx)), '' signatures, got '', show_nat (length signatures)])) (\<lambda>_.
     let tx = tx\<lparr>tx_input := map (\<lambda>(i, signature). i\<lparr>ti_witness := [signature]\<rparr>) (zip (tx_input tx) signatures)\<rparr> in
     Inr (serialize_hex X tx, txid_to_string X (compute_txid X tx))))"

section \<open>What the libraries are relied on for\<close>

text \<open>
  The crates \<open>secp256k1\<close> and \<open>secp256kfun\<close> implement one curve: x-only keys and scalars have
  the same encodings, secret keys are the nonzero scalars, and adding a tweak fails only
  at the neutral element.
\<close>

definition curve_agrees :: "('f::field, 'p::ab_group_add) secp \<Rightarrow> ('f, 'p, 'ad) btc_lib \<Rightarrow> bool" where
  "curve_agrees C L \<longleftrightarrow>
     (\<forall>b P. xonly_from_slice L b = Inr P \<longleftrightarrow> from_xonly_bytes C b = Some P)
     \<and> (\<forall>P. xonly_serialize L P = to_xonly_bytes C P)
     \<and> (\<forall>P. P \<noteq> 0 \<longrightarrow> x_only_public_key L P = even_y C P)
     \<and> (\<forall>P t Q. add_exp_tweak L P t = Inr Q \<longleftrightarrow> Q = P + g_mul C t (base_point C) \<and> Q \<noteq> 0)
     \<and> (\<forall>b s. secp_scalar_from_be_bytes L b = Inr s \<longleftrightarrow> scalar_from_bytes C b = Some s)
     \<and> (\<forall>b s. secret_from_slice L b = Inr s \<longleftrightarrow> scalar_from_bytes C b = Some s \<and> s \<noteq> 0)
     \<and> (\<forall>a t s. secret_add_tweak L a t = Inr s \<longleftrightarrow> s = a + t \<and> s \<noteq> 0)
     \<and> (\<forall>a. secret_negate L a = - a)
     \<and> (\<forall>a. secret_bytes L a = scalar_to_bytes C a)"

text \<open>
  BIP341: the output key is the internal key plus its tag hash times \<open>G\<close>, in x-only form.
  \<open>tap_tweak\<close> is not defined where that sum is the neutral element, which its documentation
  calls unreachable.
\<close>

definition bip341_ok :: "('f::field, 'p::ab_group_add) secp \<Rightarrow> ('f, 'p, 'ad) btc_lib \<Rightarrow> bool" where
  "bip341_ok C L \<longleftrightarrow> (\<forall>P. P \<noteq> 0 \<and> \<not> snd (even_y C P) \<longrightarrow>
     P + g_mul C (tap_tweak_hash L P) (base_point C) \<noteq> 0
     \<and> tap_tweak L P = even_y C (P + g_mul C (tap_tweak_hash L P) (base_point C)))"

text \<open>
  BIP32, public derivation of a normal child: with \<open>I\<close> the HMAC of the parent, its left half
  is a nonzero scalar that tweaks the parent key, its right half the chain code.
\<close>

definition bip32_ok :: "('f::field, 'p::ab_group_add) secp \<Rightarrow> ('f, 'p, 'ad) btc_lib \<Rightarrow> bool" where
  "bip32_ok C L \<longleftrightarrow>
     (\<forall>i c. from_normal_idx L i = Inr c \<longrightarrow> c = Normal i)
     \<and> (\<forall>x i x'. ckd_pub L x (Normal i) = Inr x' \<longrightarrow>
          (let I = hmac_sha512 L (xp_chain_code x) (pubkey_serialize L (xp_public_key x) @ u32_to_be_bytes i) in
           \<exists>t. scalar_from_bytes C (take 32 I) = Some t \<and> t \<noteq> 0
             \<and> xp_public_key x' = xp_public_key x + g_mul C t (base_point C) \<and> xp_public_key x' \<noteq> 0
             \<and> xp_chain_code x' = drop 32 I))"

text \<open>BIP340 verification is the one of \<open>schnorr_fun\<close>, on the 64 bytes of a signature.\<close>

definition bip340_ok :: "('f::field, 'p::ab_group_add) secp \<Rightarrow> ('f, 'p, 'ad) btc_lib \<Rightarrow> bool" where
  "bip340_ok C L \<longleftrightarrow>
     (\<forall>b. length b = 64 \<longrightarrow> signature_from_slice L b = Inr b)
     \<and> (\<forall>X m sig. X \<noteq> 0 \<and> \<not> snd (even_y C X) \<longrightarrow>
          (verify_schnorr L (signature_to_bytes C sig) m X \<longleftrightarrow> schnorr_verify C X m sig))"

definition btc_laws :: "('f::field, 'p::ab_group_add) secp \<Rightarrow> ('f, 'p, 'ad) btc_lib \<Rightarrow> bool" where
  "btc_laws C L \<longleftrightarrow> curve_agrees C L \<and> bip341_ok C L \<and> bip32_ok C L \<and> bip340_ok C L"

lemma btc_lawsD:
  assumes "btc_laws C L"
  shows "curve_agrees C L" "bip341_ok C L" "bip32_ok C L" "bip340_ok C L"
  using assms by (simp_all add: btc_laws_def)

lemma curve_agreesD:
  assumes "curve_agrees C L"
  shows xonly_from_slice_iff: "xonly_from_slice L b = Inr P \<longleftrightarrow> from_xonly_bytes C b = Some P"
    and xonly_serialize_eq: "xonly_serialize L P = to_xonly_bytes C P"
    and x_only_public_key_eq: "P \<noteq> 0 \<Longrightarrow> x_only_public_key L P = even_y C P"
    and add_exp_tweak_iff: "add_exp_tweak L P t = Inr Q \<longleftrightarrow> Q = P + g_mul C t (base_point C) \<and> Q \<noteq> 0"
    and secp_scalar_iff: "secp_scalar_from_be_bytes L b = Inr s \<longleftrightarrow> scalar_from_bytes C b = Some s"
    and secret_from_slice_iff: "secret_from_slice L b = Inr s \<longleftrightarrow> scalar_from_bytes C b = Some s \<and> s \<noteq> 0"
    and secret_add_tweak_iff: "secret_add_tweak L a t = Inr s \<longleftrightarrow> s = a + t \<and> s \<noteq> 0"
    and secret_negate_eq: "secret_negate L a = - a"
    and secret_bytes_eq: "secret_bytes L a = scalar_to_bytes C a"
  using assms by (simp_all add: curve_agrees_def)

lemmas curve_simps = xonly_from_slice_iff add_exp_tweak_iff secp_scalar_iff secret_from_slice_iff
  secret_add_tweak_iff secret_negate_eq secret_bytes_eq xonly_serialize_eq

section \<open>The tweaks are right\<close>

text \<open>
  What a signer needs of a tweak for the group key \<open>P\<close>: with \<open>A = - 1\<close> or \<open>1\<close> as the flag
  says and \<open>B\<close> the decoded tweak, the output key is \<open>A P + B G\<close>.
\<close>

definition spends :: "('f::field, 'p::ab_group_add) secp \<Rightarrow> 'p \<Rightarrow> TaprootKeyTweak \<Rightarrow> bool" where
  "spends C P tw \<longleftrightarrow> (\<exists>b. scalar_from_bytes C (tkt_tweak tw) = Some b
     \<and> from_xonly_bytes C (tkt_output_xonly tw)
         = Some ((if tkt_negate_key tw then - P else P) + g_mul C b (base_point C)))"

lemma even_point_tweak:
  assumes C: "secp_laws C" and K: "K \<noteq> 0" and K_eq: "K = (if neg then - P else P) + g_mul C t (base_point C)"
  shows "fst (even_y C K) = (if neg \<noteq> snd (even_y C K) then - P else P)
      + g_mul C (if snd (even_y C K) then - t else t) (base_point C)"
    and "from_xonly_bytes C (to_xonly_bytes C (fst (even_y C K))) = Some (fst (even_y C K))"
proof -
  note laws = secp_lawsD [OF C]
  show "fst (even_y C K) = (if neg \<noteq> snd (even_y C K) then - P else P)
      + g_mul C (if snd (even_y C K) then - t else t) (base_point C)"
    using even_y_fst [OF laws(4) K] by (auto simp: K_eq g_mul_minus [OF laws(2)])
  show "from_xonly_bytes C (to_xonly_bytes C (fst (even_y C K))) = Some (fst (even_y C K))"
    using from_to_xonly [OF laws(4) even_y_fst_nonzero [OF laws(4) K]] even_y_idem [OF laws(4) K] by simp
qed

lemma output_tweak_Inr:
  assumes L: "curve_agrees C L" and tw: "output_tweak L I ngt t = Inr tw" and out: "tap_tweak L I = (K, flip)"
  shows "tw = \<lparr>tkt_output_xonly = to_xonly_bytes C K,
    tkt_tweak = scalar_to_bytes C (conditional_negate flip (conditional_negate ngt t + tap_tweak_hash L I)),
    tkt_negate_key = (ngt \<noteq> flip)\<rparr>"
  using tw
  by (auto simp: output_tweak_def out rbind_Inr_iff anyhow_err_Inr_iff secret_add_tweak_iff [OF L] secret_negate_eq [OF L]
      secret_bytes_eq [OF L] xonly_serialize_eq [OF L] conditional_negate_def)

lemma output_tweak_spends:
  assumes C: "secp_laws C" and L: "curve_agrees C L" "bip341_ok C L"
    and K: "K \<noteq> 0" "K = P + g_mul C t (base_point C)" and ev: "even_y C K = (I, ngt)"
    and tw: "output_tweak L I ngt t = Inr tw"
  shows "spends C P tw" and "tkt_output_xonly tw = to_xonly_bytes C (fst (tap_tweak L I))"
proof -
  note laws = secp_lawsD [OF C]
  let ?h = "tap_tweak_hash L I"
  let ?O = "I + g_mul C ?h (base_point C)"
  obtain Q flip where Q: "even_y C ?O = (Q, flip)" by (cases "even_y C ?O")
  have "I \<noteq> 0" "\<not> snd (even_y C I)"
    using even_y_fst_nonzero [OF laws(4) K(1)] even_y_idem [OF laws(4) K(1)] ev by auto
  then have O: "?O \<noteq> 0" "tap_tweak L I = (Q, flip)" using L(2) Q unfolding bip341_ok_def by auto
  have "I = (if ngt then - P else P) + g_mul C (conditional_negate ngt t) (base_point C)"
    using even_point_tweak(1) [OF C K(1), of False P t] K(2) ev by (simp add: conditional_negate_def)
  then have "?O = (if ngt then - P else P) + g_mul C (conditional_negate ngt t + ?h) (base_point C)"
    by (simp only: g_mul_add [OF laws(2)] add.assoc)
  from even_point_tweak [OF C O(1) this] Q
  have "Q = (if ngt \<noteq> flip then - P else P) + g_mul C (conditional_negate flip (conditional_negate ngt t + ?h)) (base_point C)"
    "from_xonly_bytes C (to_xonly_bytes C Q) = Some Q"
    by (simp_all add: conditional_negate_def)
  moreover have tw_eq: "tw = \<lparr>tkt_output_xonly = to_xonly_bytes C Q,
      tkt_tweak = scalar_to_bytes C (conditional_negate flip (conditional_negate ngt t + ?h)), tkt_negate_key = (ngt \<noteq> flip)\<rparr>"
    by (rule output_tweak_Inr [OF L(1) tw O(2)])
  ultimately show "spends C P tw" unfolding spends_def tw_eq by (auto simp: scalar_codecD [OF laws(1)])
  show "tkt_output_xonly tw = to_xonly_bytes C (fst (tap_tweak L I))" by (simp add: tw_eq O(2))
qed

lemma output_key_from_to:
  assumes C: "secp_laws C" and L: "bip341_ok C L" and K: "K \<noteq> 0" "even_y C K = (I, ngt)" "tap_tweak L I = (Q, flip)"
  shows "from_xonly_bytes C (to_xonly_bytes C Q) = Some Q"
proof -
  note laws = secp_lawsD [OF C]
  let ?O = "I + g_mul C (tap_tweak_hash L I) (base_point C)"
  have "I \<noteq> 0" "\<not> snd (even_y C I)"
    using even_y_fst_nonzero [OF laws(4) K(1)] even_y_idem [OF laws(4) K(1)] K(2) by auto
  then have "?O \<noteq> 0" "even_y C ?O = (Q, flip)" using L K(3) unfolding bip341_ok_def by auto
  with even_point_tweak(2) [OF C, of ?O False ?O 0] show ?thesis by (simp add: g_mul_zero [OF laws(2)])
qed

text \<open>The recomputation follows the extended key step by step.\<close>

lemma derive_child_step:
  assumes L: "curve_agrees C L" "bip32_ok C L" and x: "derive_child L i x = Inr x'"
  obtains t where "t \<noteq> 0" "xp_public_key x' = xp_public_key x + g_mul C t (base_point C)" "xp_public_key x' \<noteq> 0"
    and "bip32_step L i (xp_chain_code x, xp_public_key x, acc) =
      rbind (case acc of None \<Rightarrow> Inr t | Some a \<Rightarrow> anyhow_err ''BIP32 tweak accumulation failed: '' (secret_add_tweak L a t))
        (\<lambda>a. Inr (xp_chain_code x', xp_public_key x', Some a))"
proof -
  let ?I = "hmac_sha512 L (xp_chain_code x) (pubkey_serialize L (xp_public_key x) @ u32_to_be_bytes i)"
  from x L(2) have "ckd_pub L x (Normal i) = Inr x'"
    by (auto simp: derive_child_def rbind_Inr_iff anyhow_err_Inr_iff bip32_ok_def)
  with L(2) obtain t where t: "scalar_from_bytes C (take 32 ?I) = Some t" "t \<noteq> 0"
    "xp_public_key x' = xp_public_key x + g_mul C t (base_point C)" "xp_public_key x' \<noteq> 0" "xp_chain_code x' = drop 32 ?I"
    unfolding bip32_ok_def Let_def by blast
  then have "secp_scalar_from_be_bytes L (take 32 ?I) = Inr t" "secret_from_slice L (take 32 ?I) = Inr t"
    "add_exp_tweak L (xp_public_key x) t = Inr (xp_public_key x')"
    by (simp_all add: secp_scalar_iff [OF L(1)] secret_from_slice_iff [OF L(1)] add_exp_tweak_iff [OF L(1)])
  with t that show ?thesis by (simp add: bip32_step_def anyhow_err_def split: option.splits)
qed

lemma bip32_two_steps:
  assumes C: "secp_laws C" and L: "curve_agrees C L" "bip32_ok C L"
    and x: "try_for (derive_child L) [i, j] x = Inr x''"
  obtains t u where "xp_public_key x'' = xp_public_key x + g_mul C (t + u) (base_point C)" "xp_public_key x'' \<noteq> 0"
    and "try_for (bip32_step L) [i, j] (xp_chain_code x, xp_public_key x, None) =
      rbind (anyhow_err ''BIP32 tweak accumulation failed: '' (secret_add_tweak L t u))
        (\<lambda>a. Inr (xp_chain_code x'', xp_public_key x'', Some a))"
proof -
  from x obtain x' where x': "derive_child L i x = Inr x'" "derive_child L j x' = Inr x''" by (auto simp: rbind_Inr_iff)
  from derive_child_step [OF L x'(1), of None] obtain t where t: "xp_public_key x' = xp_public_key x + g_mul C t (base_point C)"
    "bip32_step L i (xp_chain_code x, xp_public_key x, None) = Inr (xp_chain_code x', xp_public_key x', Some t)" by auto
  from derive_child_step [OF L x'(2), of "Some t"] obtain u where u:
    "xp_public_key x'' = xp_public_key x' + g_mul C u (base_point C)" "xp_public_key x'' \<noteq> 0"
    "bip32_step L j (xp_chain_code x', xp_public_key x', Some t) =
      rbind (anyhow_err ''BIP32 tweak accumulation failed: '' (secret_add_tweak L t u))
        (\<lambda>a. Inr (xp_chain_code x'', xp_public_key x'', Some a))" by auto
  show ?thesis
  proof (rule that)
    show "xp_public_key x'' = xp_public_key x + g_mul C (t + u) (base_point C)"
      using t(1) u(1) by (simp add: g_mul_add [OF secp_lawsD(2) [OF C]] add.assoc)
    show "xp_public_key x'' \<noteq> 0" by fact
    show "try_for (bip32_step L) [i, j] (xp_chain_code x, xp_public_key x, None) =
      rbind (anyhow_err ''BIP32 tweak accumulation failed: '' (secret_add_tweak L t u))
        (\<lambda>a. Inr (xp_chain_code x'', xp_public_key x'', Some a))"
      using t(2) u(3) by (cases "secret_add_tweak L t u") (simp_all add: anyhow_err_def)
  qed
qed

text \<open>
  The tweak of a child address: the output key it names is the group key tweaked as the
  signers tweak it, and it is the key the address of the descriptor commits to.
\<close>

lemma child_key_tweak_spends:
  assumes C: "secp_laws C" and L: "btc_laws C L"
    and P: "from_xonly_bytes C (gk_xonly_public_key (bak_group_key ak)) = Some P"
    and tw: "taproot_child_key_tweak L ak network path = Inr tw"
  shows "spends C P tw \<and> (\<exists>d Q net. parse_network network = Inr net
    \<and> from_xonly_bytes C (tkt_output_xonly tw) = Some Q
    \<and> taproot_child_address_descriptor_for_network L ak network path = Inr d
    \<and> bad_address d = address_to_string L (p2tr_tweaked L Q net) \<and> bad_xonly_public_key_hex d = xonly_to_string L Q)"
proof -
  note LL = btc_lawsD [OF L] and laws = secp_lawsD [OF C]
  from tw obtain net acct x where net: "parse_network network = Inr net" and acct: "account_xpub L ak net path = Inr acct"
    and x: "try_for (derive_child L) [bdp_change path, bdp_address_index path] acct = Inr x"
    unfolding taproot_child_key_tweak_def rbind_Inr_iff by blast
  from acct P have acct_eq: "xp_public_key acct = P" "xp_chain_code acct = bak_chain_code ak"
    by (auto simp: account_xpub_def rbind_Inr_iff anyhow_err_Inr_iff xonly_from_slice_iff [OF LL(1)])
  from bip32_two_steps [OF C LL(1,3) x] obtain t u where K: "xp_public_key x = P + g_mul C (t + u) (base_point C)"
    "xp_public_key x \<noteq> 0" and steps: "try_for (bip32_step L) [bdp_change path, bdp_address_index path]
        (bak_chain_code ak, P, None) =
      rbind (anyhow_err ''BIP32 tweak accumulation failed: '' (secret_add_tweak L t u))
        (\<lambda>a. Inr (xp_chain_code x, xp_public_key x, Some a))"
    unfolding acct_eq by blast
  obtain I ngt where ev: "even_y C (xp_public_key x) = (I, ngt)" by (cases "even_y C (xp_public_key x)")
  have xo: "x_only_public_key L (xp_public_key x) = (I, ngt)" using x_only_public_key_eq [OF LL(1) K(2)] ev by simp
  from tw have "output_tweak L I ngt (t + u) = Inr tw"
    by (auto simp: taproot_child_key_tweak_def net acct x xo steps acct_eq(1) rbind_Inr_iff anyhow_err_Inr_iff
        secret_add_tweak_iff [OF LL(1)] simp del: try_for.simps)
  from output_tweak_spends [OF C LL(1,2) K(2,1) ev this]
  have sp: "spends C P tw" "tkt_output_xonly tw = to_xonly_bytes C (fst (tap_tweak L I))" .
  obtain Q flip where Q: "tap_tweak L I = (Q, flip)" by (cases "tap_tweak L I")
  from sp(1) obtain Q' where Q': "from_xonly_bytes C (tkt_output_xonly tw) = Some Q'" by (auto simp: spends_def)
  have "Q = Q'"
    using output_key_from_to [OF C LL(2)] ev K(2) Q Q' sp(2) by (metis fst_conv option.inject)
  then show ?thesis using sp(1) Q' net acct x xo Q
    by (auto simp: taproot_child_address_descriptor_for_network_def taproot_child_address_descriptor_def child_xpub_def
        simp del: try_for.simps)
qed

lemma silent_payment_point_Inr:
  assumes L: "curve_agrees C L" and P: "from_xonly_bytes C (gk_xonly_public_key gk) = Some P"
    and r: "silent_payment_point L gk k = Inr (t, K)"
  shows "K \<noteq> 0" "K = P + g_mul C t (base_point C)" "x_only_public_key L K = even_y C K"
  using r P x_only_public_key_eq [OF L]
  by (auto simp: silent_payment_point_def rbind_Inr_iff anyhow_err_Inr_iff curve_simps [OF L])

lemma silent_payment_output_spends:
  assumes C: "secp_laws C" and L: "btc_laws C L"
    and P: "from_xonly_bytes C (gk_xonly_public_key gk) = Some P" and tw: "silent_payment_output_tweak L gk k = Inr tw"
  shows "spends C P tw"
proof -
  note LL = btc_lawsD [OF L]
  from tw obtain t K where tK: "silent_payment_point L gk k = Inr (t, K)"
    and tw': "(let (I, ngt) = x_only_public_key L K in output_tweak L I ngt t) = Inr tw"
    by (auto simp: silent_payment_output_tweak_def rbind_Inr_iff)
  note K = silent_payment_point_Inr [OF LL(1) P tK]
  obtain I ngt where ev: "even_y C K = (I, ngt)" by (cases "even_y C K")
  with tw' K(3) have "output_tweak L I ngt t = Inr tw" by simp
  from output_tweak_spends(1) [OF C LL(1,2) K(1,2) ev this] show ?thesis .
qed

lemma silent_payment_leaf_spends:
  assumes C: "secp_laws C" and L: "btc_laws C L"
    and P: "from_xonly_bytes C (gk_xonly_public_key gk) = Some P" and tw: "silent_payment_leaf_tweak L gk k = Inr tw"
  shows "spends C P tw"
proof -
  note LL = btc_lawsD [OF L] and laws = secp_lawsD [OF C]
  from tw obtain t K where tK: "silent_payment_point L gk k = Inr (t, K)"
    and tw': "(let (p_xonly, p_was_odd) = x_only_public_key L K in
       Inr \<lparr>tkt_output_xonly = xonly_serialize L p_xonly, tkt_tweak = secret_bytes L (if p_was_odd then secret_negate L t else t),
          tkt_negate_key = p_was_odd\<rparr>) = (Inr tw :: TaprootKeyTweak anyhow)"
    by (auto simp: silent_payment_leaf_tweak_def rbind_Inr_iff)
  note K = silent_payment_point_Inr [OF LL(1) P tK]
  obtain I ngt where ev: "even_y C K = (I, ngt)" by (cases "even_y C K")
  have tw_eq: "tw = \<lparr>tkt_output_xonly = to_xonly_bytes C I, tkt_tweak = scalar_to_bytes C (if ngt then - t else t), tkt_negate_key = ngt\<rparr>"
    using tw' K(3) ev
    by (simp add: xonly_serialize_eq [OF LL(1)] secret_bytes_eq [OF LL(1)] secret_negate_eq [OF LL(1)] split: if_splits)
  from even_point_tweak [OF C K(1), of False P t] K(2) ev
  have "I = (if ngt then - P else P) + g_mul C (if ngt then - t else t) (base_point C)"
    "from_xonly_bytes C (to_xonly_bytes C I) = Some I" by simp_all
  then show ?thesis unfolding spends_def tw_eq by (auto simp: scalar_codecD [OF laws(1)])
qed

text \<open>A signature the signers call valid is accepted by the verifier of this crate.\<close>

lemma valid_signature_verifies:
  assumes C: "secp_laws C" and L: "btc_laws C L" and v: "valid_signature C (gk_xonly_public_key gk) digest sig"
  shows "verify_aggregate_signature_digest L gk digest sig = Inr True"
proof -
  note LL = btc_lawsD [OF L] and laws = secp_lawsD [OF C]
  from v obtain X s where X: "from_xonly_bytes C (gk_xonly_public_key gk) = Some X"
    and s: "schnorr_verify C X digest s" "as_signature_bytes sig = signature_to_bytes C s"
    unfolding valid_signature_def frost_message_def by blast
  have l: "length (signature_to_bytes C s) = 64" using laws(5) unfolding schnorr_ok_def by blast
  have "xonly_from_slice L (gk_xonly_public_key gk) = Inr X" using X by (simp add: xonly_from_slice_iff [OF LL(1)])
  moreover have "signature_from_slice L (signature_to_bytes C s) = Inr (signature_to_bytes C s)"
    using LL(4) l unfolding bip340_ok_def by blast
  moreover have "verify_schnorr L (signature_to_bytes C s) digest X"
    using LL(4) s(1) from_xonlyD [OF laws(4) X] unfolding bip340_ok_def by blast
  ultimately show ?thesis
    by (simp add: verify_aggregate_signature_digest_def verify_schnorr_digest_def try_into_array_def anyhow_err_def s(2) l)
qed

section \<open>What the canonical text determines\<close>

lemma split_at_newline:
  "a @ CHR 0x0A # b = a' @ CHR 0x0A # b' \<Longrightarrow> CHR 0x0A \<notin> set a \<Longrightarrow> CHR 0x0A \<notin> set a' \<Longrightarrow> a = a' \<and> b = b'"
  by (auto simp: append_eq_append_conv2 append_eq_Cons_conv Cons_eq_append_conv)

definition one_line :: "string \<Rightarrow> bool" where
  "one_line s \<longleftrightarrow> CHR 0x0A \<notin> set s"

lemma show_nat_one_line: "one_line (show_nat n)"
  using show_nat_digits [of "CHR 0x0A" n] by (auto simp: one_line_def)

text \<open>
  When the first five fields have no line break, the text determines the message, up to
  an absent text field and an empty one.
\<close>

definition single_line_fields :: "BitcoinAuthorizationMessage \<Rightarrow> bool" where
  "single_line_fields m \<longleftrightarrow> one_line (bam_network m) \<and> one_line (bam_action m) \<and> one_line (opt_str (bam_recipient m))
     \<and> one_line (opt_str (bam_memo m))"

lemma amount_text_inj:
  "opt_str (map_option (\<lambda>v. show_nat (unat (v :: u64))) a) = opt_str (map_option (\<lambda>v. show_nat (unat v)) b) \<Longrightarrow> a = b"
  by (cases a; cases b) (auto simp: opt_str_def word_unat_eq_iff dest: sym)

fun join_lines :: "string list \<Rightarrow> string" where
  "join_lines [] = []"
| "join_lines [l] = l"
| "join_lines (l # l' # ls) = l @ CHR 0x0A # join_lines (l' # ls)"

lemma join_lines_inj:
  assumes "length xs = length ys" "join_lines xs = join_lines ys" "\<forall>l\<in>set (butlast xs) \<union> set (butlast ys). one_line l"
  shows "xs = ys"
  using assms
proof (induction xs arbitrary: ys rule: join_lines.induct)
  case (2 l)
  then show ?case by (cases ys) auto
next
  case (3 l l' ls)
  then obtain m m' ms where ys: "ys = m # m' # ms" by (cases ys; cases "tl ys") auto
  have "l @ CHR 0x0A # join_lines (l' # ls) = m @ CHR 0x0A # join_lines (m' # ms)" using 3 ys by simp
  from split_at_newline [OF this] have "l = m" "join_lines (l' # ls) = join_lines (m' # ms)"
    using 3 ys by (auto simp: one_line_def)
  moreover from this(2) have "l' # ls = m' # ms" using 3 ys by (intro "3.IH") auto
  ultimately show ?case by (simp add: ys)
qed simp

text \<open>The seven lines of the text.\<close>

definition text_lines :: "BitcoinAuthorizationMessage \<Rightarrow> string list" where
  "text_lines m = [''DKGKit Bitcoin Authorization'', ''network='' @ bam_network m, ''action='' @ bam_action m,
     ''recipient='' @ opt_str (bam_recipient m),
     ''amount_sats='' @ opt_str (map_option (\<lambda>v. show_nat (unat v)) (bam_amount_sats m)),
     ''memo='' @ opt_str (bam_memo m), ''nonce='' @ bam_nonce m]"

lemma canonical_text_lines: "canonical_text m = join_lines (text_lines m)"
  by (simp add: canonical_text_def text_lines_def fmt_def)

lemma text_lines_one_line: "single_line_fields m \<Longrightarrow> \<forall>l\<in>set (butlast (text_lines m)). one_line l"
  using show_nat_one_line
  by (auto simp: text_lines_def single_line_fields_def one_line_def opt_str_def split: option.splits)

lemma canonical_text_determines:
  assumes "canonical_text m = canonical_text m'" "single_line_fields m" "single_line_fields m'"
  shows "bam_network m = bam_network m' \<and> bam_action m = bam_action m' \<and> opt_str (bam_recipient m) = opt_str (bam_recipient m')
    \<and> bam_amount_sats m = bam_amount_sats m' \<and> opt_str (bam_memo m) = opt_str (bam_memo m') \<and> bam_nonce m = bam_nonce m'"
proof -
  have "length (text_lines m) = length (text_lines m')" by (simp add: text_lines_def)
  with assms text_lines_one_line have "text_lines m = text_lines m'"
    by (intro join_lines_inj) (auto simp: canonical_text_lines)
  then show ?thesis using amount_text_inj by (simp add: text_lines_def)
qed

text \<open>A line break in the recipient forges the lines after it.\<close>

lemma canonical_text_forged:
  "canonical_text \<lparr>bam_network = n, bam_action = a, bam_recipient = Some (r @ newline @ ''amount_sats='' @ show_nat (unat v)
        @ newline @ ''memo=''), bam_amount_sats = None, bam_memo = None, bam_nonce = k\<rparr>
   = canonical_text \<lparr>bam_network = n, bam_action = a, bam_recipient = Some r, bam_amount_sats = Some v,
        bam_memo = Some (newline @ ''amount_sats='' @ newline @ ''memo=''), bam_nonce = k\<rparr>"
  by (simp add: canonical_text_def fmt_def opt_str_def)

section \<open>Finalised spends\<close>

text \<open>What consensus encoding is relied on for: it reads back, and the txid ignores witnesses.\<close>

definition strip_witness :: "('id, 'sc) Transaction \<Rightarrow> ('id, 'sc) Transaction" where
  "strip_witness tx = tx\<lparr>tx_input := map (\<lambda>i. i\<lparr>ti_witness := []\<rparr>) (tx_input tx)\<rparr>"

definition tx_laws :: "('id, 'sc, 'ua, 'ad) tx_lib \<Rightarrow> bool" where
  "tx_laws X \<longleftrightarrow> (\<forall>tx. deserialize_hex X (serialize_hex X tx) = Inr tx)
     \<and> (\<forall>tx tx'. strip_witness tx = strip_witness tx' \<longrightarrow> compute_txid X tx = compute_txid X tx')"

definition attach_signatures :: "bytes list \<Rightarrow> ('id, 'sc) Transaction \<Rightarrow> ('id, 'sc) Transaction" where
  "attach_signatures signatures tx =
     tx\<lparr>tx_input := map (\<lambda>(i, signature). i\<lparr>ti_witness := [signature]\<rparr>) (zip (tx_input tx) signatures)\<rparr>"

lemma attached_witnesses:
  "length signatures = length (tx_input tx) \<Longrightarrow> map ti_witness (tx_input (attach_signatures signatures tx)) = map (\<lambda>s. [s]) signatures"
  by (intro nth_equalityI) (simp_all add: attach_signatures_def)

lemma strip_attached:
  assumes "length signatures = length (tx_input tx)"
  shows "strip_witness (attach_signatures signatures tx) = strip_witness tx"
proof -
  have "map (\<lambda>i. i\<lparr>ti_witness := []\<rparr>) (map (\<lambda>(i, s). i\<lparr>ti_witness := [s]\<rparr>) (zip is ss)) = map (\<lambda>i. i\<lparr>ti_witness := []\<rparr>) is"
    if "length ss = length is" for ss and "is" :: "('a, 'b) TxIn list"
    using that by (induction ss "is" rule: list_induct2) simp_all
  from this [OF assms] show ?thesis by (simp add: strip_witness_def attach_signatures_def)
qed

lemma spend_inputs_unsigned:
  assumes "collect (spend_input X) inputs = Inr ins"
  shows "map (\<lambda>i. i\<lparr>ti_witness := []\<rparr>) ins = ins"
  using assms by (induction inputs arbitrary: ins) (auto simp: rbind_Inr_iff spend_input_def)

lemma finalize_serialized:
  assumes "tx_laws X" "strip_witness tx = tx"
  shows "length signatures = length (tx_input tx) \<Longrightarrow> finalize_taproot_keyspend X (serialize_hex X tx) signatures =
      Inr (serialize_hex X (attach_signatures signatures tx), txid_to_string X (compute_txid X tx))"
    and "length signatures \<noteq> length (tx_input tx) \<Longrightarrow> \<exists>e. finalize_taproot_keyspend X (serialize_hex X tx) signatures = Inl e"
proof -
  have dec: "deserialize_hex X (serialize_hex X tx) = Inr tx" using assms(1) by (simp add: tx_laws_def)
  show "\<exists>e. finalize_taproot_keyspend X (serialize_hex X tx) signatures = Inl e" if "length signatures \<noteq> length (tx_input tx)"
    using that by (simp add: finalize_taproot_keyspend_def dec anyhow_err_def ensure_def)
  assume l: "length signatures = length (tx_input tx)"
  have "compute_txid X (attach_signatures signatures tx) = compute_txid X tx"
    using assms(1) strip_attached [OF l] unfolding tx_laws_def by blast
  then show "finalize_taproot_keyspend X (serialize_hex X tx) signatures =
      Inr (serialize_hex X (attach_signatures signatures tx), txid_to_string X (compute_txid X tx))"
    using l by (simp add: finalize_taproot_keyspend_def dec anyhow_err_def ensure_def attach_signatures_def)
qed

text \<open>What \<open>taproot_keyspend_sighashes\<close> builds.\<close>

lemma keyspend_Inr:
  assumes "taproot_keyspend_sighashes X network vault inputs outputs = Inr (hex, sighashes)"
  shows "\<exists>tx. hex = serialize_hex X tx \<and> strip_witness tx = tx \<and> length (tx_input tx) = length inputs
    \<and> length sighashes = length inputs \<and> map to_value (tx_output tx) = map tso_value_sats outputs"
proof -
  from assms obtain net ins outs where ins: "collect (spend_input X) inputs = Inr ins"
    and outs: "collect (spend_output X net) outputs = Inr outs"
    and hex: "hex = serialize_hex X \<lparr>tx_version = 2, tx_lock_time = 0, tx_input = ins, tx_output = outs\<rparr>"
    and n: "length sighashes = length inputs"
    unfolding taproot_keyspend_sighashes_def rbind_Inr_iff Let_def by (auto dest: collect_Inr_length)
  have "map to_value outs = map tso_value_sats outputs"
    using outs by (rule collect_Inr_map) (auto simp: spend_output_def rbind_Inr_iff)
  with n hex collect_Inr_length [OF ins] spend_inputs_unsigned [OF ins] show ?thesis
    by (intro exI [of _ "\<lparr>tx_version = 2, tx_lock_time = 0, tx_input = ins, tx_output = outs\<rparr>"]) (simp add: strip_witness_def)
qed

section \<open>Threshold spends\<close>

text \<open>A quorum of the group key signs under any output key a tweak is right for.\<close>

lemma spends_signable:
  fixes C :: "('f::field, 'p::ab_group_add) secp"
  assumes C: "secp_laws C" and L: "btc_laws C L" and wf: "hc_wf c" and d: "htss_dealt C c p ks" and q: "regular_quorum C c signers"
    and rnd: "\<And>i. rnd i \<noteq> 0" "(\<Sum>i<length signers. rnd i) \<noteq> 0"
    and P: "from_xonly_bytes C (gk_xonly_public_key (ks_group_key ks)) = Some P" and tw: "spends C P tw"
  shows "\<exists>sig. sign_digest_with_local_htss_threshold_shares_for_output C rnd gk digest (tkt_output_xonly tw) (tkt_tweak tw)
      (tkt_negate_key tw) (ks_shares ks) signers c = Inr sig
    \<and> verify_schnorr_digest L (tkt_output_xonly tw) digest (as_signature_bytes sig) = Inr True"
proof -
  from dealt_from_xonly [OF C d] P have P_eq: "P = g_mul C (p ! 0) (base_point C)" by simp
  from tw obtain b where b: "scalar_from_bytes C (tkt_tweak tw) = Some b"
    "from_xonly_bytes C (tkt_output_xonly tw) = Some ((if tkt_negate_key tw then - P else P) + g_mul C b (base_point C))"
    by (auto simp: spends_def)
  have out: "from_xonly_bytes C (tkt_output_xonly tw)
      = Some (g_mul C (conditional_negate (tkt_negate_key tw) (p ! 0) + b) (base_point C))"
    using b(2) secp_lawsD(2) [OF C] by (simp add: P_eq g_mul_add g_mul_minus conditional_negate_def)
  from sign_digest_local_threshold_for_output [OF C wf d q rnd out b(1), of gk digest] obtain sig where
    "sign_digest_with_local_htss_threshold_shares_for_output C rnd gk digest (tkt_output_xonly tw) (tkt_tweak tw)
      (tkt_negate_key tw) (ks_shares ks) signers c = Inr sig" "valid_signature C (tkt_output_xonly tw) digest sig" by blast
  moreover from valid_signature_verifies [OF C L, of "\<lparr>gk_xonly_public_key = tkt_output_xonly tw, gk_verification_key_bytes = []\<rparr>"] this(2)
  have "verify_schnorr_digest L (tkt_output_xonly tw) digest (as_signature_bytes sig) = Inr True"
    by (auto simp: verify_aggregate_signature_digest_def try_into_array_def rbind_Inr_iff)
  ultimately show ?thesis by blast
qed

end
