(* ===== verification/Vault.thy ===== *)
theory Vault
  imports Nostr Sdk Bitcoin
begin

text \<open>
  \<open>examples/vault-service\<close>: the service that ties the crates together. A vault runs the
  HTSS key generation of all its participants over the local Nostr transport, derives
  receive addresses and signs authorisations with a signer set. The methods take
  \<open>&mut self\<close>: they return the vault they leave behind, on errors too.
\<close>

section \<open>Methods with state\<close>

text \<open>\<open>?\<close> and a loop with \<open>?\<close> in its body, on a state that survives the error.\<close>

fun sbind :: "'s \<times> ('e + 'a) \<Rightarrow> ('s \<Rightarrow> 'a \<Rightarrow> 's \<times> ('e + 'b)) \<Rightarrow> 's \<times> ('e + 'b)" where
  "sbind (s, Inl e) f = (s, Inl e)"
| "sbind (s, Inr x) f = f s x"

primrec sfor :: "('a \<Rightarrow> 's \<Rightarrow> 's \<times> ('e + unit)) \<Rightarrow> 'a list \<Rightarrow> 's \<Rightarrow> 's \<times> ('e + unit)" where
  "sfor f [] s = (s, Inr ())"
| "sfor f (x # xs) s = sbind (f x s) (\<lambda>s _. sfor f xs s)"

text \<open>The rule for a loop that does not fail: an invariant of the elements done and the state.\<close>

lemma sfor_invariant:
  assumes step: "\<And>ys x zs s. xs = ys @ x # zs \<Longrightarrow> I ys s \<Longrightarrow> \<exists>s'. f x s = (s', Inr ()) \<and> I (ys @ [x]) s'"
    and init: "I [] s"
  shows "\<exists>s'. sfor f xs s = (s', Inr ()) \<and> I xs s'"
proof -
  have "\<exists>s'. sfor f zs s = (s', Inr ()) \<and> I xs s'" if "xs = ys @ zs" "I ys s" for ys zs s
    using that
  proof (induction zs arbitrary: ys s)
    case (Cons x zs)
    from step [OF Cons.prems] obtain s' where s': "f x s = (s', Inr ())" "I (ys @ [x]) s'" by blast
    with Cons.IH [of "ys @ [x]" s'] Cons.prems(1) show ?case by simp
  qed simp
  from this [of "[]" xs s] init show ?thesis by simp
qed

section \<open>The service\<close>

record InMemoryVaultService =
  vs_vault_id :: string
  vs_network :: string
  vs_chain_code :: bytes
  vs_grouped_config :: GroupedThresholdConfig
  vs_dkg :: HtssDkgService
  vs_coordinator :: "LocalNostrEventTransport FrostCoordinator"
  vs_round1_states :: "(ParticipantId \<times> HtssDkgRound1State) list"
  vs_local_shares :: "(ParticipantId \<times> HtssLocalKeyShare) list"
  vs_group_key :: "GroupKey option"

text \<open>\<open>serde_json\<close> at the types the service serialises: envelopes and packages.\<close>

record vault_codecs =
  vc_message :: "ProtocolMessage codec"
  vc_round1 :: "HtssDkgRound1Package codec"
  vc_round2 :: "HtssDkgRound2Package codec"
  vc_nonce :: "HtssNoncePackage codec"
  vc_share :: "HtssSignatureSharePackage codec"

abbreviation vault_transport :: "vault_codecs \<Rightarrow> LocalNostrEventTransport Transport" where
  "vault_transport V \<equiv> local_nostr_ops (vc_message V)"

definition vault_new ::
    "string \<Rightarrow> string \<Rightarrow> string \<Rightarrow> bytes \<Rightarrow> GroupedThresholdConfig \<Rightarrow> InMemoryVaultService result" where
  "vault_new vault_id dkg_session_id network chain_code grouped_config =
     rbind (hierarchical_config_from_grouped_threshold grouped_config) (\<lambda>htss_config.
     rbind (HtssDkgService_new dkg_session_id htss_config) (\<lambda>dkg.
     Inr \<lparr>vs_vault_id = vault_id, vs_network = network, vs_chain_code = chain_code,
          vs_grouped_config = grouped_config, vs_dkg = dkg,
          vs_coordinator = FrostCoordinator_new LocalNostrEventTransport_default,
          vs_round1_states = [], vs_local_shares = [], vs_group_key = None\<rparr>))"

text \<open>A call on \<open>self.coordinator\<close>.\<close>

definition on_coordinator ::
    "(LocalNostrEventTransport FrostCoordinator \<Rightarrow> LocalNostrEventTransport FrostCoordinator \<times> 'a)
      \<Rightarrow> InMemoryVaultService \<Rightarrow> InMemoryVaultService \<times> 'a" where
  "on_coordinator f self = (case f (vs_coordinator self) of (c, r) \<Rightarrow> (self\<lparr>vs_coordinator := c\<rparr>, r))"

definition connect_transport :: "vault_codecs \<Rightarrow> InMemoryVaultService \<Rightarrow> InMemoryVaultService \<times> unit result" where
  "connect_transport V self = on_coordinator (fc_connect (vault_transport V)) self"

section \<open>Key generation\<close>

text \<open>The bodies of the three loops of \<open>run_htss_dkg\<close>; \<open>rnd i\<close> are the draws of the \<open>i\<close>-th participant.\<close>

definition vault_round1 ::
    "vault_codecs \<Rightarrow> ('f::field, 'p) secp \<Rightarrow> (nat \<Rightarrow> nat \<Rightarrow> 'f) \<Rightarrow> nat \<times> RankedParticipant \<Rightarrow> InMemoryVaultService
      \<Rightarrow> InMemoryVaultService \<times> unit result" where
  "vault_round1 V C rnd iq self =
     (let (i, participant) = iq in
      sbind (self, svc_begin_round1 C (rnd i) (vs_dkg self) (rp_id participant)) (\<lambda>self state.
      sbind (on_coordinator (\<lambda>c. publish_htss_dkg_round1 (vault_transport V) (vc_round1 V) c
               (svc_session_id (vs_dkg self)) (hds_package state)) self) (\<lambda>self _.
      (self\<lparr>vs_round1_states := btree_insert (rp_id participant) state (vs_round1_states self)\<rparr>, Inr ()))))"

definition vault_round2 ::
    "vault_codecs \<Rightarrow> ('f::field, 'p) secp \<Rightarrow> HtssDkgRound1Package list \<Rightarrow> HtssDkgRound1State \<Rightarrow> InMemoryVaultService
      \<Rightarrow> InMemoryVaultService \<times> unit result" where
  "vault_round2 V C round1_packages state self =
     sbind (self, svc_create_round2_packages C (vs_dkg self) state round1_packages) (\<lambda>self packages.
     sfor (\<lambda>package self. on_coordinator (\<lambda>c. publish_htss_dkg_round2 (vault_transport V) (vc_round2 V) c
               (svc_session_id (vs_dkg self)) package) self) packages self)"

definition vault_finalize ::
    "vault_codecs \<Rightarrow> ('f::field, 'p::ab_group_add) secp \<Rightarrow> HtssDkgRound1Package list \<Rightarrow> RankedParticipant
      \<Rightarrow> InMemoryVaultService \<Rightarrow> InMemoryVaultService \<times> unit result" where
  "vault_finalize V C round1_packages participant self =
     sbind (on_coordinator (\<lambda>c. drain_htss_dkg_round2_for (vault_transport V) (vc_round2 V) c
              (svc_session_id (vs_dkg self)) (rp_id participant)) self) (\<lambda>self round2_for_participant.
     sbind (self, svc_finalize_participant C (vs_dkg self) (rp_id participant) round1_packages round2_for_participant)
       (\<lambda>self (group_key, local_share).
     sbind (case vs_group_key self of
              Some existing \<Rightarrow>
                if gk_xonly_public_key existing \<noteq> gk_xonly_public_key group_key
                then (self, Inl (Protocol ''participants derived different group keys''))
                else (self, Inr ())
            | None \<Rightarrow> (self\<lparr>vs_group_key := Some group_key\<rparr>, Inr ())) (\<lambda>self _.
     (self\<lparr>vs_local_shares := btree_insert (rp_id participant) local_share (vs_local_shares self)\<rparr>, Inr ()))))"

definition run_htss_dkg ::
    "vault_codecs \<Rightarrow> ('f::field, 'p::ab_group_add) secp \<Rightarrow> (nat \<Rightarrow> nat \<Rightarrow> 'f) \<Rightarrow> InMemoryVaultService
      \<Rightarrow> InMemoryVaultService \<times> unit result" where
  "run_htss_dkg V C rnd self =
     (let participants = hc_participants (svc_config (vs_dkg self)) in
      sbind (sfor (vault_round1 V C rnd) (enumerate 0 participants) self) (\<lambda>self _.
      sbind (on_coordinator (\<lambda>c. drain_htss_dkg_round1 (vault_transport V) (vc_round1 V) c
               (svc_session_id (vs_dkg self))) self) (\<lambda>self round1_packages.
      sbind (sfor (vault_round2 V C round1_packages) (map snd (vs_round1_states self)) self) (\<lambda>self _.
      sfor (vault_finalize V C round1_packages) participants self))))"

section \<open>Addresses and signing\<close>

definition derive_receive_address ::
    "('f, 'p, 'ad) btc_lib \<Rightarrow> InMemoryVaultService \<Rightarrow> u32 \<Rightarrow> u32 \<Rightarrow> u32 \<Rightarrow> BitcoinAddressDescriptor anyhow" where
  "derive_receive_address L self account change address_index =
     rbind (ok_or (vs_group_key self) ''vault DKG is not finalized'') (\<lambda>group_key.
     let account_key = BitcoinAccountKey_new group_key (vs_chain_code self);
         path = bip86 account change address_index
     in taproot_child_address_descriptor_for_network L account_key (vs_network self) path)"

text \<open>\<open>anyhow::Error\<close>: an error of the crates or a message of the service.\<close>

datatype vault_error = FromDkg DkgKitError | Message string

definition from_dkg :: "'s \<times> 'a result \<Rightarrow> 's \<times> (vault_error + 'a)" where
  "from_dkg sr = (case sr of (s, r) \<Rightarrow> (s, case r of Inl e \<Rightarrow> Inl (FromDkg e) | Inr x \<Rightarrow> Inr x))"

definition from_text :: "'s \<times> 'a anyhow \<Rightarrow> 's \<times> (vault_error + 'a)" where
  "from_text sr = (case sr of (s, r) \<Rightarrow> (s, case r of Inl e \<Rightarrow> Inl (Message e) | Inr x \<Rightarrow> Inr x))"

definition vault_selected_shares ::
    "InMemoryVaultService \<Rightarrow> ParticipantId list \<Rightarrow> HtssLocalKeyShare list anyhow" where
  "vault_selected_shares self signer_set =
     collect (\<lambda>participant_id. ok_or (map_of (vs_local_shares self) participant_id)
       (fmt [''missing local share for signer '', show_u16 (pid_val participant_id)])) signer_set"

text \<open>The body of the signing loop.\<close>

definition vault_sign_share ::
    "vault_codecs \<Rightarrow> ('f::field, 'p::ab_group_add) secp \<Rightarrow> GroupKey \<Rightarrow> bytes \<Rightarrow> HtssNoncePackage list \<Rightarrow> ParticipantId list
      \<Rightarrow> HtssLocalKeyShare \<times> HtssLocalNonce \<Rightarrow> InMemoryVaultService \<Rightarrow> InMemoryVaultService \<times> (vault_error + unit)" where
  "vault_sign_share V C group_key digest public_nonces signer_set sn self =
     (let (share, nonce) = sn in
      sbind (from_dkg (self, htss_sign_share C group_key digest share nonce public_nonces signer_set (svc_config (vs_dkg self))))
        (\<lambda>self signature_share.
      from_dkg (on_coordinator (\<lambda>c. publish_htss_signature_share (vault_transport V) (vc_share V) c signature_share) self)))"

text \<open>\<open>rnd i\<close> is the nonce drawn for the \<open>i\<close>-th signer.\<close>

definition sign_authorization ::
    "vault_codecs \<Rightarrow> ('f::field, 'p::ab_group_add) secp \<Rightarrow> ('f, 'p, 'ad) btc_lib \<Rightarrow> (nat \<Rightarrow> 'f) \<Rightarrow> InMemoryVaultService
      \<Rightarrow> string \<Rightarrow> BitcoinAuthorizationMessage \<Rightarrow> ParticipantId list
      \<Rightarrow> InMemoryVaultService \<times> (vault_error + HtssSignatureSharePackage)" where
  "sign_authorization V C L rnd self signing_session_id authorization signer_set =
     sbind (from_dkg (self, validate_grouped_threshold_signer_set signer_set (vs_grouped_config self))) (\<lambda>self _.
     sbind (from_text (self, ok_or (vs_group_key self) ''vault DKG is not finalized'')) (\<lambda>self group_key.
     sbind (from_dkg (self, SessionId_new signing_session_id)) (\<lambda>self signing_session_id.
     let digest = bam_digest L authorization in
     sbind (from_text (self, vault_selected_shares self signer_set)) (\<lambda>self selected_shares.
     sbind (from_dkg (self, local_nonces C rnd signing_session_id selected_shares)) (\<lambda>self local_nonces.
     sbind (sfor (\<lambda>nonce self. from_dkg (on_coordinator (\<lambda>c. publish_htss_nonce (vault_transport V) (vc_nonce V) c
              (hln_package nonce)) self)) local_nonces self) (\<lambda>self _.
     sbind (from_dkg (on_coordinator (\<lambda>c. drain_htss_nonces (vault_transport V) (vc_nonce V) c signing_session_id) self))
       (\<lambda>self public_nonces.
     sbind (sfor (vault_sign_share V C group_key digest public_nonces signer_set) (zip selected_shares local_nonces) self) (\<lambda>self _.
     sbind (from_dkg (on_coordinator (\<lambda>c. drain_htss_signature_shares (vault_transport V) (vc_share V) c signing_session_id) self))
       (\<lambda>self signature_shares.
     sbind (from_dkg (self, aggregate_htss_signature_shares C group_key digest public_nonces signature_shares signer_set
              (svc_config (vs_dkg self)))) (\<lambda>self aggregate.
     sbind (from_text (self, verify_aggregate_signature_digest L group_key digest aggregate)) (\<lambda>self verified.
     sbind (from_text (self, ensure verified ''aggregate signature failed Bitcoin verification'')) (\<lambda>self _.
     from_text (self, case signature_shares of [] \<Rightarrow> Inl ''no signature shares produced'' | first # _ \<Rightarrow> Inr first)))))))))))))"

section \<open>Delivery between the loops\<close>

definition vault_codecs_ok :: "vault_codecs \<Rightarrow> bool" where
  "vault_codecs_ok V \<longleftrightarrow> json_ok (vc_message V) \<and> codec_ok (vc_round1 V) \<and> codec_ok (vc_round2 V)
     \<and> codec_ok (vc_nonce V) \<and> codec_ok (vc_share V)"

text \<open>The coordinator works and these messages are on the transport.\<close>

definition carries :: "vault_codecs \<Rightarrow> LocalNostrEventTransport FrostCoordinator \<Rightarrow> ProtocolMessage list \<Rightarrow> bool" where
  "carries V c ms \<longleftrightarrow> ln_ok (vc_message V) (fc_transport c) \<and> ln_pending (vc_message V) (fc_transport c) = ms"

lemma carries_publish:
  assumes "carries V c ms" "deliverable m"
  shows "\<exists>c'. fc_publish (vault_transport V) c (Inr m) = (c', Inr ()) \<and> carries V c' (ms @ [m])"
  using message_queue.fc_publish_step [OF local_nostr.message_queue_axioms [of "vc_message V"], of c "Inr m" m] assms by (auto simp: carries_def)

text \<open>A loop that publishes \<open>g k\<close> for every \<open>k\<close> and touches nothing else of the vault.\<close>

lemma publish_loop:
  assumes c: "carries V c ms" and g: "\<And>k. k \<in> set ks \<Longrightarrow> deliverable (g k)"
    and body: "\<And>k c c'. k \<in> set ks \<Longrightarrow> fc_publish (vault_transport V) c (Inr (g k)) = (c', Inr ()) \<Longrightarrow>
      body k (self\<lparr>vs_coordinator := c\<rparr>) = (self\<lparr>vs_coordinator := c'\<rparr>, Inr ())"
  shows "\<exists>c'. sfor body ks (self\<lparr>vs_coordinator := c\<rparr>) = (self\<lparr>vs_coordinator := c'\<rparr>, Inr ()) \<and> carries V c' (ms @ map g ks)"
proof -
  have "\<exists>s'. sfor body ks (self\<lparr>vs_coordinator := c\<rparr>) = (s', Inr ())
      \<and> (\<exists>c'. s' = self\<lparr>vs_coordinator := c'\<rparr> \<and> carries V c' (ms @ map g ks))"
  proof (rule sfor_invariant [where I = "\<lambda>done s. \<exists>c'. s = self\<lparr>vs_coordinator := c'\<rparr> \<and> carries V c' (ms @ map g done)"])
    show "\<exists>c'. self\<lparr>vs_coordinator := c\<rparr> = self\<lparr>vs_coordinator := c'\<rparr> \<and> carries V c' (ms @ map g [])" using c by auto
    fix ys k zs s
    assume ks: "ks = ys @ k # zs" and "\<exists>c'. s = self\<lparr>vs_coordinator := c'\<rparr> \<and> carries V c' (ms @ map g ys)"
    then obtain c' where c': "s = self\<lparr>vs_coordinator := c'\<rparr>" "carries V c' (ms @ map g ys)" by blast
    from carries_publish [OF c'(2) g [of k]] ks obtain c'' where "fc_publish (vault_transport V) c' (Inr (g k)) = (c'', Inr ())"
      "carries V c'' (ms @ map g (ys @ [k]))" by auto
    with body [of k c' c''] ks c'(1) show "\<exists>s'. body k s = (s', Inr ())
        \<and> (\<exists>c'. s' = self\<lparr>vs_coordinator := c'\<rparr> \<and> carries V c' (ms @ map g (ys @ [k])))" by auto
  qed
  then show ?thesis by blast
qed

text \<open>The message of a package, for the four package types of the service.\<close>

definition proper :: "SessionId \<Rightarrow> bool" where
  "proper sid \<longleftrightarrow> \<not> trim_is_empty (session_str sid)"

lemma SessionId_new_proper: "SessionId_new name = Inr sid \<Longrightarrow> proper sid"
  by (auto simp: SessionId_new_def proper_def split: if_splits)

definition named :: "ProtocolMessageKind \<Rightarrow> bool" where
  "named kind \<longleftrightarrow> \<not> trim_is_empty (kind_as_str kind)"

lemma package_delivered:
  assumes pm: "package_message to_message from_message J kind sender recipient session valid" and J: "codec_ok J"
    and k: "valid k" "session k = None \<or> session k = Some sid"
  shows "to_message sid k = Inr (projr (to_message sid k))" "from_message (projr (to_message sid k)) = Inr k"
    "pm_session_id (projr (to_message sid k)) = sid" "pm_kind (projr (to_message sid k)) = kind"
    "pm_recipient (projr (to_message sid k)) = recipient k"
    "proper sid \<Longrightarrow> named kind \<Longrightarrow> pid_val (sender k) \<noteq> 0 \<Longrightarrow>
      (\<forall>r. recipient k = Some r \<longrightarrow> pid_val r \<noteq> 0) \<Longrightarrow> deliverable (projr (to_message sid k))"
    "pm_sender (projr (to_message sid k)) = sender k"
proof -
  from package_message.message_of [OF pm J k] obtain m where m: "to_message sid k = Inr m" "from_message m = Inr k"
    "pm_session_id m = sid" "pm_kind m = kind" "pm_recipient m = recipient k" "pm_sender m = sender k" by blast
  show "to_message sid k = Inr (projr (to_message sid k))" "from_message (projr (to_message sid k)) = Inr k"
    "pm_session_id (projr (to_message sid k)) = sid" "pm_kind (projr (to_message sid k)) = kind"
    "pm_recipient (projr (to_message sid k)) = recipient k" "pm_sender (projr (to_message sid k)) = sender k"
    using m by simp_all
  show "deliverable (projr (to_message sid k))" if "proper sid" "named kind" "pid_val (sender k) \<noteq> 0"
    "\<forall>r. recipient k = Some r \<longrightarrow> pid_val r \<noteq> 0"
    using that m by (simp add: deliverable_def proper_def named_def)
qed

lemma kind_names [simp]: "named HtssDkgRound1" "named HtssDkgRound2" "named HtssSigningNonce" "named HtssSignatureShare"
  by (simp_all add: named_def white1_def white2_def white3_def)

definition round1_message where
  "round1_message V sid k = projr (HtssDkgRound1Package_to_protocol_message (vc_round1 V) k sid)"

definition round2_message where
  "round2_message V sid k = projr (HtssDkgRound2Package_to_protocol_message (vc_round2 V) k sid)"

definition nonce_message where
  "nonce_message V k = projr (HtssNoncePackage_to_protocol_message (vc_nonce V) k)"

definition share_message where
  "share_message V k = projr (HtssSignatureSharePackage_to_protocol_message (vc_share V) k)"

lemma vault_codecsD:
  assumes "vault_codecs_ok V"
  shows "json_ok (vc_message V)" "codec_ok (vc_round1 V)" "codec_ok (vc_round2 V)" "codec_ok (vc_nonce V)" "codec_ok (vc_share V)"
  using assms by (simp_all add: vault_codecs_ok_def)

lemmas round1_delivered = package_delivered [OF htss_round1.package_message_axioms vault_codecsD(2), folded round1_message_def, simplified]
lemmas round2_delivered = package_delivered [OF htss_round2.package_message_axioms vault_codecsD(3), folded round2_message_def, simplified]
lemmas nonce_delivered = package_delivered [OF htss_nonce.package_message_axioms vault_codecsD(4), folded nonce_message_def, simplified]
lemmas share_delivered = package_delivered [OF htss_signature_share.package_message_axioms vault_codecsD(5), folded share_message_def, simplified]

text \<open>Draining by kind what was published for it: the packages in order, nothing else is taken.\<close>

lemma drain_packages:
  assumes "carries V c (map g ks)" "\<And>k. k \<in> set ks \<Longrightarrow> from_message (g k) = Inr k"
    "\<And>k. k \<in> set ks \<Longrightarrow> pm_session_id (g k) = sid" "\<And>k. k \<in> set ks \<Longrightarrow> P (g k) \<longleftrightarrow> Q k"
  shows "\<exists>c'. fc_drain (vault_transport V) c sid P from_message = (c', Inr (filter Q ks))
    \<and> carries V c' (map g (filter (\<lambda>k. \<not> Q k) ks))"
  using drain_queue.fc_drain_packages [OF local_nostr.drain_queue_axioms [of "vc_message V"], of c g ks from_message sid P Q] assms
  by (auto simp: carries_def)

section \<open>Key generation over the transport\<close>

lemma sfor_map: "sfor f (map g xs) s = sfor (\<lambda>x. f (g x)) xs s"
  by (induction xs arbitrary: s) (auto intro: arg_cong2 [where f = sbind])

lemma btree_of_snoc: "btree_of (kvs @ [(k, v)]) = btree_insert k v (btree_of kvs)"
  by (simp add: btree_of_def)

text \<open>The draws of the participant at position \<open>i\<close>.\<close>

lemma begin_round1_drawn:
  assumes wf: "hc_wf c" and iq: "(i, q) \<in> set (enumerate 0 (hc_participants c))"
  shows "htss_dkg_round1 C (rnd i) (rp_id q) c = Inr (honest_state C q (drawn_poly c rnd (rp_id q)))"
proof -
  from iq have i: "i < length (hc_participants c)" "q = hc_participants c ! i" by (auto simp: in_set_enumerate_eq)
  show ?thesis
    using htss_dkg_round1_honest [OF wf nth_mem [OF i(1)], of C "rnd i"] drawn_poly_nth [OF wf i(1), of rnd]
    by (simp add: i(2))
qed

lemma vault_round1_loop:
  fixes rnd :: "nat \<Rightarrow> nat \<Rightarrow> 'f::field" and C :: "('f, 'p) secp"
  assumes V: "vault_codecs_ok V" and wf: "hc_wf c" and ids: "\<forall>q\<in>set (hc_participants c). pid_val (rp_id q) \<noteq> 0"
    and self: "svc_config (vs_dkg self) = c" "svc_session_id (vs_dkg self) = sid" "vs_round1_states self = []"
      "carries V (vs_coordinator self) []" and sid: "proper sid"
  defines "S \<equiv> \<lambda>q. honest_state C q (drawn_poly c rnd (rp_id q))"
  shows "\<exists>co. sfor (vault_round1 V C rnd) (enumerate 0 (hc_participants c)) self
      = (self\<lparr>vs_coordinator := co, vs_round1_states := btree_of (map (\<lambda>q. (rp_id q, S q)) (hc_participants c))\<rparr>, Inr ())
    \<and> carries V co (map (round1_message V sid) (honest_round1 C c (drawn_poly c rnd)))"
proof -
  let ?g = "\<lambda>q. round1_message V sid (hds_package (S q))"
  let ?st = "\<lambda>co done. self\<lparr>vs_coordinator := co, vs_round1_states := btree_of (map (\<lambda>(i, q). (rp_id q, S q)) done)\<rparr>"
  let ?I = "\<lambda>done s. \<exists>co. s = ?st co done \<and> carries V co (map (\<lambda>(i, q). ?g q) done)"
  have "\<exists>s'. sfor (vault_round1 V C rnd) (enumerate 0 (hc_participants c)) self = (s', Inr ()) \<and> ?I (enumerate 0 (hc_participants c)) s'"
  proof (rule sfor_invariant)
    show "?I [] self" using self(3,4) by (intro exI [of _ "vs_coordinator self"]) (simp add: btree_of_def)
    fix ys iq zs s
    assume "enumerate 0 (hc_participants c) = ys @ iq # zs" and "?I ys s"
    moreover obtain i q where iq: "iq = (i, q)" by (cases iq)
    ultimately have mem: "(i, q) \<in> set (enumerate 0 (hc_participants c))" by simp
    then have q: "q \<in> set (hc_participants c)" by (auto simp: in_set_enumerate_eq)
    from \<open>?I ys s\<close> obtain co where co: "s = ?st co ys" "carries V co (map (\<lambda>(i, q). ?g q) ys)" by blast
    have "deliverable (?g q)" by (rule round1_delivered(6) [OF V sid]) (use ids q in \<open>simp add: S_def\<close>)
    from carries_publish [OF co(2) this] obtain co' where "fc_publish (vault_transport V) co (Inr (?g q)) = (co', Inr ())"
      "carries V co' (map (\<lambda>(i, q). ?g q) (ys @ [iq]))" by (auto simp: iq)
    moreover from this(1) have "vault_round1 V C rnd iq s = (?st co' (ys @ [iq]), Inr ())"
      using begin_round1_drawn [OF wf mem, of C rnd] round1_delivered(1) [OF V, of "hds_package (S q)" sid]
      by (simp add: vault_round1_def iq co(1) svc_begin_round1_def self S_def on_coordinator_def publish_htss_dkg_round1_def
          btree_of_snoc)
    ultimately show "\<exists>s'. vault_round1 V C rnd iq s = (s', Inr ()) \<and> ?I (ys @ [iq]) s'" by blast
  qed
  then show ?thesis by (auto simp: honest_round1_def S_def o_def map_enumerate)
qed

text \<open>The packages of the senders \<open>qs\<close>, one for every participant.\<close>

definition dealt_packages ::
    "('f::field, 'p) secp \<Rightarrow> HierarchicalThresholdConfig \<Rightarrow> (ParticipantId \<Rightarrow> 'f list) \<Rightarrow> RankedParticipant list
      \<Rightarrow> HtssDkgRound2Package list" where
  "dealt_packages C c A qs = concat (map (\<lambda>q. map (honest_package C (A (rp_id q)) q) (hc_participants c)) qs)"

lemma vault_round2_loop:
  fixes A :: "ParticipantId \<Rightarrow> 'f::field list"
  assumes V: "vault_codecs_ok V" and L: "secp_laws C" and ids: "\<forall>q\<in>set (hc_participants c). pid_val (rp_id q) \<noteq> 0"
    and v: "validate_htss_dkg_round1_set C (honest_round1 C c A) c = Inr ()"
    and A: "\<And>q. q \<in> set (hc_participants c) \<Longrightarrow> length (A (rp_id q)) = unat (hc_threshold c)"
    and self: "svc_config (vs_dkg self) = c" "svc_session_id (vs_dkg self) = sid" and sid: "proper sid"
    and co: "carries V co []" and qs: "set qs \<subseteq> set (hc_participants c)"
  shows "\<exists>co'. sfor (vault_round2 V C (honest_round1 C c A)) (map (\<lambda>q. honest_state C q (A (rp_id q))) qs)
      (self\<lparr>vs_coordinator := co\<rparr>) = (self\<lparr>vs_coordinator := co'\<rparr>, Inr ())
    \<and> carries V co' (map (round2_message V sid) (dealt_packages C c A qs))"
proof -
  let ?g = "round2_message V sid"
  let ?I = "\<lambda>done s. \<exists>co'. s = self\<lparr>vs_coordinator := co'\<rparr> \<and> carries V co' (map ?g (dealt_packages C c A done))"
  have "\<exists>s'. sfor (\<lambda>q. vault_round2 V C (honest_round1 C c A) (honest_state C q (A (rp_id q)))) qs (self\<lparr>vs_coordinator := co\<rparr>)
      = (s', Inr ()) \<and> ?I qs s'"
  proof (rule sfor_invariant)
    show "?I [] (self\<lparr>vs_coordinator := co\<rparr>)" using co by (intro exI [of _ co]) (simp add: dealt_packages_def)
    fix ys q zs s
    assume "qs = ys @ q # zs" and "?I ys s"
    with qs have q: "q \<in> set (hc_participants c)" by auto
    from \<open>?I ys s\<close> obtain co' where s: "s = self\<lparr>vs_coordinator := co'\<rparr>"
      and co': "carries V co' (map ?g (dealt_packages C c A ys))" by blast
    let ?ks = "map (honest_package C (A (rp_id q)) q) (hc_participants c)"
    let ?body = "\<lambda>package self. on_coordinator (\<lambda>c. publish_htss_dkg_round2 (vault_transport V) (vc_round2 V) c
               (svc_session_id (vs_dkg self)) package) self"
    have "\<exists>co''. sfor ?body ?ks (self\<lparr>vs_coordinator := co'\<rparr>) = (self\<lparr>vs_coordinator := co''\<rparr>, Inr ())
        \<and> carries V co'' (map ?g (dealt_packages C c A ys) @ map ?g ?ks)"
    proof (rule publish_loop [OF co'])
      show "deliverable (?g k)" if "k \<in> set ?ks" for k
        by (rule round2_delivered(6) [OF V sid]) (use ids q that in auto)
      show "?body k (self\<lparr>vs_coordinator := c\<rparr>) = (self\<lparr>vs_coordinator := c'\<rparr>, Inr ())"
        if "fc_publish (vault_transport V) c (Inr (?g k)) = (c', Inr ())" for k c c'
        using that by (simp add: on_coordinator_def publish_htss_dkg_round2_def self round2_delivered(1) [OF V])
    qed
    then show "\<exists>s'. vault_round2 V C (honest_round1 C c A) (honest_state C q (A (rp_id q))) s = (s', Inr ()) \<and> ?I (ys @ [q]) s'"
      by (auto simp: vault_round2_def s svc_create_round2_packages_def self htss_dkg_round2_honest [OF L v q A [OF q]]
          dealt_packages_def)
  qed
  then show ?thesis by (auto simp: sfor_map)
qed

text \<open>Each participant takes its packages and leaves those of the others.\<close>

lemma group_key_kept:
  "vs_group_key s = k \<Longrightarrow> s\<lparr>vs_coordinator := a, vs_group_key := k, vs_local_shares := b\<rparr> = s\<lparr>vs_coordinator := a, vs_local_shares := b\<rparr>"
  by (cases s) simp

lemma vault_finalize_step:
  assumes V: "vault_codecs_ok V" and self: "svc_config (vs_dkg self) = c" "svc_session_id (vs_dkg self) = sid"
    and co: "carries V (vs_coordinator self) (map (round2_message V sid) ks)"
    and fin: "finalize_htss_dkg C (rp_id p) r1 (filter (\<lambda>k. hd2_recipient k = rp_id p) ks) c = Inr (gk, share)"
    and gk: "vs_group_key self \<in> {None, Some gk}"
  shows "\<exists>co'. vault_finalize V C r1 p self = (self\<lparr>vs_coordinator := co', vs_group_key := Some gk,
        vs_local_shares := btree_insert (rp_id p) share (vs_local_shares self)\<rparr>, Inr ())
    \<and> carries V co' (map (round2_message V sid) (filter (\<lambda>k. hd2_recipient k \<noteq> rp_id p) ks))"
proof -
  from drain_packages [OF co, where from_message = "HtssDkgRound2Package_from_protocol_message (vc_round2 V)" and sid = sid
      and P = "\<lambda>m. pm_kind m = HtssDkgRound2 \<and> is_for m (rp_id p)" and Q = "\<lambda>k. hd2_recipient k = rp_id p"]
  obtain co' where "drain_htss_dkg_round2_for (vault_transport V) (vc_round2 V) (vs_coordinator self) sid (rp_id p)
      = (co', Inr (filter (\<lambda>k. hd2_recipient k = rp_id p) ks))"
    "carries V co' (map (round2_message V sid) (filter (\<lambda>k. hd2_recipient k \<noteq> rp_id p) ks))"
    by (auto simp: round2_delivered [OF V] is_for_def drain_htss_dkg_round2_for_def)
  with fin gk show ?thesis
    by (intro exI [of _ co']) (auto simp: vault_finalize_def on_coordinator_def self svc_finalize_participant_def group_key_kept)
qed

lemma vault_finalize_loop:
  assumes V: "vault_codecs_ok V" and self: "svc_config (vs_dkg self) = c" "svc_session_id (vs_dkg self) = sid"
      "vs_local_shares self = []" "vs_group_key self = None"
    and co: "carries V (vs_coordinator self) (map (round2_message V sid) ks)"
    and dist: "distinct (map rp_id (hc_participants c))" and ne: "hc_participants c \<noteq> []"
    and fin: "\<And>p. p \<in> set (hc_participants c) \<Longrightarrow>
      finalize_htss_dkg C (rp_id p) r1 (filter (\<lambda>k. hd2_recipient k = rp_id p) ks) c = Inr (gk, share p)"
    and ks: "hd2_recipient ` set ks \<subseteq> rp_id ` set (hc_participants c)"
  shows "\<exists>co'. sfor (vault_finalize V C r1) (hc_participants c) self = (self\<lparr>vs_coordinator := co', vs_group_key := Some gk,
        vs_local_shares := btree_of (map (\<lambda>p. (rp_id p, share p)) (hc_participants c))\<rparr>, Inr ())
    \<and> carries V co' []"
proof -
  let ?rest = "\<lambda>done. filter (\<lambda>k. hd2_recipient k \<notin> rp_id ` set done) ks"
  let ?st = "\<lambda>co' done. self\<lparr>vs_coordinator := co', vs_group_key := (if done = [] then None else Some gk),
      vs_local_shares := btree_of (map (\<lambda>p. (rp_id p, share p)) done)\<rparr>"
  let ?I = "\<lambda>done s. \<exists>co'. s = ?st co' done \<and> carries V co' (map (round2_message V sid) (?rest done))"
  have "\<exists>s'. sfor (vault_finalize V C r1) (hc_participants c) self = (s', Inr ()) \<and> ?I (hc_participants c) s'"
  proof (rule sfor_invariant)
    show "?I [] self" using self co by (intro exI [of _ "vs_coordinator self"], cases self) (simp add: btree_of_def)
    fix ys p zs s
    assume ps: "hc_participants c = ys @ p # zs" and "?I ys s"
    then obtain co' where s: "s = ?st co' ys" and co': "carries V co' (map (round2_message V sid) (?rest ys))" by blast
    from ps dist have fresh: "rp_id p \<notin> rp_id ` set ys" by auto
    then have "filter (\<lambda>k. hd2_recipient k = rp_id p) (?rest ys) = filter (\<lambda>k. hd2_recipient k = rp_id p) ks"
      by (auto intro!: filter_cong) (metis image_eqI)
    then have "finalize_htss_dkg C (rp_id p) r1 (filter (\<lambda>k. hd2_recipient k = rp_id p) (?rest ys)) c = Inr (gk, share p)"
      using fin [of p] ps by simp
    then have "\<exists>co''. vault_finalize V C r1 p s = (s\<lparr>vs_coordinator := co'', vs_group_key := Some gk,
          vs_local_shares := btree_insert (rp_id p) (share p) (vs_local_shares s)\<rparr>, Inr ())
      \<and> carries V co'' (map (round2_message V sid) (filter (\<lambda>k. hd2_recipient k \<noteq> rp_id p) (?rest ys)))"
      by (rule vault_finalize_step [OF V, rotated 3]) (simp_all add: s self co')
    moreover have "filter (\<lambda>k. hd2_recipient k \<noteq> rp_id p) (?rest ys) = ?rest (ys @ [p])"
      by (auto intro!: filter_cong)
    ultimately obtain co'' where "vault_finalize V C r1 p s = (?st co'' (ys @ [p]), Inr ())"
      "carries V co'' (map (round2_message V sid) (?rest (ys @ [p])))"
      by (auto simp: s btree_of_snoc)
    then show "\<exists>s'. vault_finalize V C r1 p s = (s', Inr ()) \<and> ?I (ys @ [p]) s'" by blast
  qed
  moreover have "?rest (hc_participants c) = []" using ks by (auto simp: filter_empty_conv)
  ultimately show ?thesis using ne by auto
qed

text \<open>
  The whole run: it ends with the keys that \<open>run_distributed_htss_keygen\<close> computes from the
  same draws, each share under its participant, and nothing left on the transport.
\<close>

lemma finalize_no_verification_key:
  "finalize_htss_dkg C i r1 r2 c = Inr (gk, share) \<Longrightarrow> gk_verification_key_bytes gk = []"
  by (auto simp: finalize_htss_dkg_def rbind_Inr_iff Let_def)

lemma finalize_participant_Inr:
  assumes "finalize_participant C c r1 r2 p (gko, acc) = Inr (gko', acc')"
  shows "\<exists>k share. finalize_htss_dkg C (rp_id p) r1 (filter (\<lambda>k. hd2_recipient k = rp_id p) r2) c = Inr (k, share)
    \<and> gko' \<in> {gko, Some k}"
  using assms by (auto simp: finalize_participant_def rbind_Inr_iff Let_def split: option.splits if_splits)

lemma run_distributed_no_verification_key:
  assumes "run_distributed_htss_keygen C rnd c = Inr ks"
  shows "gk_verification_key_bytes (ks_group_key ks) = []"
proof -
  have loop: "gk_verification_key_bytes gk = []"
    if "try_for (finalize_participant C c r1 r2) ps (gko, acc) = Inr (Some gk, shares)"
      "\<forall>k. gko = Some k \<longrightarrow> gk_verification_key_bytes k = []" for r1 r2 ps gko acc gk shares
    using that
  proof (induction ps arbitrary: gko acc)
    case (Cons p ps)
    from Cons.prems(1) obtain gko' acc' where st: "finalize_participant C c r1 r2 p (gko, acc) = Inr (gko', acc')"
      "try_for (finalize_participant C c r1 r2) ps (gko', acc') = Inr (Some gk, shares)"
      unfolding try_for.simps rbind_Inr_iff by force
    from finalize_participant_Inr [OF st(1)] have "\<forall>k. gko' = Some k \<longrightarrow> gk_verification_key_bytes k = []"
      using finalize_no_verification_key Cons.prems(2) by blast
    with Cons.IH st(2) show ?case by blast
  qed simp
  from assms show ?thesis
    unfolding run_distributed_htss_keygen_def Let_def rbind_Inr_iff ok_or_Inr_iff
    by (auto simp: ok_or_Inr_iff rbind_Inr_iff dest: loop)
qed

lemma finalize_dealt:
  assumes L: "secp_laws C" and wf: "hc_wf c" and d: "htss_dealt C c (normal_poly C (dkg_sum c A)) ks"
    and A: "\<And>q. q \<in> set (hc_participants c) \<Longrightarrow> length (A (rp_id q)) = unat (hc_threshold c) \<and> (\<forall>x\<in>set (A (rp_id q)). x \<noteq> 0)"
    and key: "gk_verification_key_bytes (ks_group_key ks) = []"
    and nz: "dkg_sum c A ! 0 \<noteq> 0" and qs: "mset qs = mset (hc_participants c)" and p: "p \<in> set (hc_participants c)"
  shows "finalize_htss_dkg C (rp_id p) (honest_round1 C c A)
      (filter (\<lambda>k. hd2_recipient k = rp_id p) (dealt_packages C c A qs)) c
    = Inr (ks_group_key ks, deal_share C (normal_poly C (dkg_sum c A)) p)"
proof -
  have "filter (\<lambda>k. hd2_recipient k = rp_id p) (dealt_packages C c A qs) = map (\<lambda>q. honest_package C (A (rp_id q)) q p) qs"
    unfolding dealt_packages_def by (rule packages_for_participant) (use wf p in \<open>auto simp: hc_wf_def\<close>)
  then show ?thesis
    using finalize_honest [where A = A, OF L wf p qs A] nz d key by (simp add: dkg_output_def htss_dealt_def deal_share_def)
qed

lemma run_htss_dkg_keys:
  fixes rnd :: "nat \<Rightarrow> nat \<Rightarrow> 'f::field" and C :: "('f, 'p::ab_group_add) secp"
  assumes V: "vault_codecs_ok V" and L: "secp_laws C" and wf: "hc_wf c"
    and ids: "\<forall>q\<in>set (hc_participants c). pid_val (rp_id q) \<noteq> 0"
    and self: "svc_config (vs_dkg self) = c" "svc_session_id (vs_dkg self) = sid" "vs_round1_states self = []"
      "vs_local_shares self = []" "vs_group_key self = None" "carries V (vs_coordinator self) []" and sid: "proper sid"
    and rnd: "\<And>k j. rnd k j \<noteq> 0" and ks: "run_distributed_htss_keygen C rnd c = Inr ks"
  shows "\<exists>co states. run_htss_dkg V C rnd self = (self\<lparr>vs_coordinator := co, vs_round1_states := states,
        vs_group_key := Some (ks_group_key ks),
        vs_local_shares := btree_of (map (\<lambda>s. (hs_participant_id s, s)) (ks_shares ks))\<rparr>, Inr ())
    \<and> carries V co []"
proof -
  let ?ps = "hc_participants c" and ?A = "drawn_poly c rnd"
  let ?S = "\<lambda>q. honest_state C q (?A (rp_id q))" and ?r1 = "honest_round1 C c ?A"
  let ?p = "normal_poly C (dkg_sum c ?A)"
  have A: "length (?A (rp_id q)) = unat (hc_threshold c) \<and> (\<forall>x\<in>set (?A (rp_id q)). x \<noteq> 0)" for q
    using rnd by (simp add: drawn_poly_def)
  have ps: "distinct (map rp_id ?ps)" "?ps \<noteq> []" using wf by (auto simp: hc_wf_def)
  have nz: "dkg_sum c ?A ! 0 \<noteq> 0" and d: "htss_dealt C c ?p ks"
    using run_distributed_htss_keygen_dealt [where rnd = rnd, OF L wf rnd] ks by (auto simp: dkg_sum_drawn [OF wf])
  note r1 = honest_round1_valid [where A = ?A, OF L wf A]
  define states where "states = btree_of (map (\<lambda>q. (rp_id q, ?S q)) ?ps)"
  obtain co1 where loop1: "sfor (vault_round1 V C rnd) (enumerate 0 ?ps) self
      = (self\<lparr>vs_coordinator := co1, vs_round1_states := states\<rparr>, Inr ())" "carries V co1 (map (round1_message V sid) ?r1)"
    using vault_round1_loop [OF V wf ids self(1-3,6) sid, of C rnd] unfolding states_def by blast
  obtain co2 where drain1: "drain_htss_dkg_round1 (vault_transport V) (vc_round1 V) co1 sid = (co2, Inr ?r1)" "carries V co2 []"
    using drain_packages [OF loop1(2), where from_message = "HtssDkgRound1Package_from_protocol_message (vc_round1 V)" and sid = sid
      and P = "\<lambda>m. pm_kind m = HtssDkgRound1" and Q = "\<lambda>_. True"]
    by (auto simp: round1_delivered [OF V] drain_htss_dkg_round1_def)
  have "mset (map snd states) = mset (map ?S ?ps)"
    using ps(1) by (simp add: states_def btree_of_mset o_def multiset.map_comp)
  from mset_eq_map [OF this] obtain qs where qs: "map snd states = map ?S qs" "mset qs = mset ?ps" by blast
  from qs(2) have qs_sub: "set qs \<subseteq> set ?ps" by (auto dest: mset_eq_setD)
  let ?self2 = "self\<lparr>vs_round1_states := states\<rparr>"
  obtain co3 where loop2: "sfor (vault_round2 V C ?r1) (map ?S qs) (?self2\<lparr>vs_coordinator := co2\<rparr>)
      = (?self2\<lparr>vs_coordinator := co3\<rparr>, Inr ())" "carries V co3 (map (round2_message V sid) (dealt_packages C c ?A qs))"
    using vault_round2_loop [OF V L ids r1(1) _ _ _ sid drain1(2) qs_sub, of ?self2] A self(1,2) by auto
  have recips: "hd2_recipient ` set (dealt_packages C c ?A qs) \<subseteq> rp_id ` set ?ps" by (auto simp: dealt_packages_def)
  obtain co4 where loop3: "sfor (vault_finalize V C ?r1) ?ps (?self2\<lparr>vs_coordinator := co3\<rparr>)
      = (?self2\<lparr>vs_coordinator := co4, vs_group_key := Some (ks_group_key ks),
           vs_local_shares := btree_of (map (\<lambda>p. (rp_id p, deal_share C ?p p)) ?ps)\<rparr>, Inr ())" "carries V co4 []"
    using vault_finalize_loop [OF V _ _ _ _ _ ps finalize_dealt [where A = ?A, OF L wf d A run_distributed_no_verification_key [OF ks] nz qs(2)] recips,
      of "?self2\<lparr>vs_coordinator := co3\<rparr>"] self(1-5) loop2(2) by auto
  have shares: "map (\<lambda>s. (hs_participant_id s, s)) (ks_shares ks) = map (\<lambda>p. (rp_id p, deal_share C ?p p)) ?ps"
    using d by (simp add: htss_dealt_def o_def)
  show ?thesis
    using loop1(1) drain1(1) loop2(1) loop3 unfolding shares
    by (intro exI [of _ co4] exI [of _ states]) (simp add: run_htss_dkg_def Let_def self on_coordinator_def qs(1))
qed

section \<open>Signing over the transport\<close>

lemma from_dkg_simps [simp]:
  "from_dkg (s, Inr x) = (s, Inr x)" "from_dkg (s, Inl e) = (s, Inl (FromDkg e))"
  "from_text (s, Inr x) = (s, Inr x)" "from_text (s, Inl t) = (s, Inl (Message t))"
  by (simp_all add: from_dkg_def from_text_def)

lemma htss_sign_share_names:
  "htss_sign_share C gk digest s n ns signers c = Inr k \<Longrightarrow>
     hss_participant_id k = hs_participant_id s \<and> hss_signing_session_id k = hn_signing_session_id (hln_package n)"
  by (auto simp: htss_sign_share_def rbind_Inr_iff Let_def)

text \<open>The two phases of a signing session: everybody's packages are published, then drained.\<close>

lemma vault_nonce_phase:
  assumes V: "vault_codecs_ok V" and sid: "proper sid" and co: "carries V (vs_coordinator self) []"
    and nonces: "\<forall>n\<in>set nonces. hn_signing_session_id (hln_package n) = sid
      \<and> pid_val (hn_participant_id (hln_package n)) \<noteq> 0 \<and> length (hn_public_nonce_bytes (hln_package n)) = 33"
  shows "\<exists>co co'. sfor (\<lambda>nonce self. from_dkg (on_coordinator (\<lambda>c. publish_htss_nonce (vault_transport V) (vc_nonce V) c
              (hln_package nonce)) self)) nonces self = (self\<lparr>vs_coordinator := co\<rparr>, Inr ())
    \<and> drain_htss_nonces (vault_transport V) (vc_nonce V) co sid = (co', Inr (map hln_package nonces)) \<and> carries V co' []"
proof -
  let ?body = "\<lambda>nonce self. from_dkg (on_coordinator (\<lambda>c. publish_htss_nonce (vault_transport V) (vc_nonce V) c (hln_package nonce)) self)"
  let ?g = "\<lambda>n. nonce_message V (hln_package n)"
  note d = nonce_delivered [OF V, where sid = sid] and n = bspec [OF nonces]
  have "\<exists>co. sfor ?body nonces (self\<lparr>vs_coordinator := vs_coordinator self\<rparr>) = (self\<lparr>vs_coordinator := co\<rparr>, Inr ())
      \<and> carries V co ([] @ map ?g nonces)"
  proof (rule publish_loop [OF co])
    show "deliverable (?g k)" if "k \<in> set nonces" for k using d(6) [of "hln_package k"] n [OF that] sid by simp
    show "?body k (self\<lparr>vs_coordinator := c\<rparr>) = (self\<lparr>vs_coordinator := c'\<rparr>, Inr ())"
      if "k \<in> set nonces" "fc_publish (vault_transport V) c (Inr (?g k)) = (c', Inr ())" for k c c'
      using that(2) d(1) [of "hln_package k"] n [OF that(1)] by (simp add: on_coordinator_def publish_htss_nonce_def)
  qed
  then obtain co where co: "sfor ?body nonces self = (self\<lparr>vs_coordinator := co\<rparr>, Inr ())"
    "carries V co (map (nonce_message V) (map hln_package nonces))" by (auto simp: o_def)
  have "\<exists>co'. drain_htss_nonces (vault_transport V) (vc_nonce V) co sid = (co', Inr (filter (\<lambda>_. True) (map hln_package nonces)))
      \<and> carries V co' (map (nonce_message V) (filter (\<lambda>k. \<not> True) (map hln_package nonces)))"
    unfolding drain_htss_nonces_def by (rule drain_packages [OF co(2)]) (use n d in auto)
  with co(1) show ?thesis by auto
qed

lemma vault_share_phase:
  assumes V: "vault_codecs_ok V" and sid: "proper sid" and co: "carries V co0 []" and c: "svc_config (vs_dkg self) = c"
    and shares: "\<forall>x\<in>set signers. htss_sign_share C gk digest (ls x) (lno x) ns signers c = Inr (sh x)
      \<and> hss_participant_id (sh x) = x \<and> hss_signing_session_id (sh x) = sid \<and> pid_val x \<noteq> 0"
  shows "\<exists>co co'. sfor (vault_sign_share V C gk digest ns signers) (map (\<lambda>x. (ls x, lno x)) signers) (self\<lparr>vs_coordinator := co0\<rparr>)
        = (self\<lparr>vs_coordinator := co\<rparr>, Inr ())
    \<and> drain_htss_signature_shares (vault_transport V) (vc_share V) co sid = (co', Inr (map sh signers)) \<and> carries V co' []"
proof -
  let ?body = "\<lambda>x. vault_sign_share V C gk digest ns signers (ls x, lno x)" and ?g = "\<lambda>x. share_message V (sh x)"
  note d = share_delivered [OF V, where sid = sid] and sh = bspec [OF shares]
  have "\<exists>co. sfor ?body signers (self\<lparr>vs_coordinator := co0\<rparr>) = (self\<lparr>vs_coordinator := co\<rparr>, Inr ())
      \<and> carries V co ([] @ map ?g signers)"
  proof (rule publish_loop [OF co])
    show "deliverable (?g x)" if "x \<in> set signers" for x using d(6) [of "sh x"] sh [OF that] sid by simp
    show "?body x (self\<lparr>vs_coordinator := c\<rparr>) = (self\<lparr>vs_coordinator := c'\<rparr>, Inr ())"
      if "x \<in> set signers" "fc_publish (vault_transport V) c (Inr (?g x)) = (c', Inr ())" for x c c'
      using that(2) d(1) [of "sh x"] sh [OF that(1)]
      by (simp add: vault_sign_share_def on_coordinator_def publish_htss_signature_share_def c)
  qed
  then obtain co where co: "sfor (vault_sign_share V C gk digest ns signers) (map (\<lambda>x. (ls x, lno x)) signers) (self\<lparr>vs_coordinator := co0\<rparr>)
      = (self\<lparr>vs_coordinator := co\<rparr>, Inr ())"
    "carries V co (map (share_message V) (map sh signers))" by (auto simp: sfor_map o_def)
  have "\<exists>co'. drain_htss_signature_shares (vault_transport V) (vc_share V) co sid = (co', Inr (filter (\<lambda>_. True) (map sh signers)))
      \<and> carries V co' (map (share_message V) (filter (\<lambda>k. \<not> True) (map sh signers)))"
    unfolding drain_htss_signature_shares_def by (rule drain_packages [OF co(2)]) (use sh d in auto)
  with co(1) show ?thesis by auto
qed

lemma collect_Inr_projr:
  "collect f xs = Inr ys \<Longrightarrow> ys = map (\<lambda>x. projr (f x)) xs \<and> (\<forall>x\<in>set xs. f x = Inr (projr (f x)))"
  by (induction xs arbitrary: ys) (auto simp: rbind_Inr_iff)

text \<open>Every signer's share of a round with drawn nonces, and what they aggregate to.\<close>

lemma round_shares:
  fixes C :: "('f::field, 'p::ab_group_add) secp" and rnd :: "nat \<Rightarrow> 'f" and sid :: SessionId
  assumes C: "secp_laws C" and L: "btc_laws C L" and wf: "hc_wf c" and d: "htss_dealt C c p ks" and q: "regular_quorum C c signers"
    and rnd: "\<And>i. rnd i \<noteq> 0" "(\<Sum>i<length signers. rnd i) \<noteq> 0"
  defines "lno \<equiv> \<lambda>x. projr (htss_nonce C (drawn_nonce rnd signers x) sid (share_of ks x))"
  defines "ns \<equiv> map (\<lambda>x. hln_package (lno x)) signers"
  shows "\<exists>sh sig. (\<forall>x\<in>set signers. htss_sign_share C (ks_group_key ks) digest (share_of ks x) (lno x) ns signers c = Inr (sh x)
        \<and> hss_participant_id (sh x) = x \<and> hss_signing_session_id (sh x) = sid)
    \<and> aggregate_htss_signature_shares C (ks_group_key ks) digest ns (map sh signers) signers c = Inr sig
    \<and> verify_aggregate_signature_digest L (ks_group_key ks) digest sig = Inr True"
proof -
  let ?f = "\<lambda>x. htss_sign_share C (ks_group_key ks) digest (share_of ks x) (lno x) ns signers c"
  have hq: "hierarchical_quorum c signers" by (rule regular_quorum_quorum [OF wf q])
  from htss_signing_round [OF C wf d q local_honest_round [OF C wf d hq rnd], of digest sid] obtain shs
    where shs: "collect ?f signers = Inr shs" "\<exists>sig. aggregate_htss_signature_shares C (ks_group_key ks) digest ns shs signers c = Inr sig
        \<and> valid_signature C (gk_xonly_public_key (ks_group_key ks)) digest sig"
    unfolding lno_def ns_def o_def by blast
  note sh = collect_Inr_projr [OF shs(1)]
  have "hss_participant_id (projr (?f x)) = x \<and> hss_signing_session_id (projr (?f x)) = sid" if x: "x \<in> set signers" for x
  proof -
    from hq x have "x \<in> rp_id ` set (hc_participants c)" by (auto simp: hierarchical_quorum_def)
    then show ?thesis
      using htss_sign_share_names [OF bspec [OF conjunct2 [OF sh] x]] find_dealt_share(3) [OF wf d]
      by (simp add: lno_def htss_nonce_def)
  qed
  then show ?thesis
    using shs(2) sh valid_signature_verifies [OF C L] by (intro exI [of _ "\<lambda>x. projr (?f x)"]) auto
qed

lemma sign_authorization_succeeds:
  fixes C :: "('f::field, 'p::ab_group_add) secp" and rnd :: "nat \<Rightarrow> 'f"
  assumes V: "vault_codecs_ok V" and C: "secp_laws C" and L: "btc_laws C L" and wf: "hc_wf c" and d: "htss_dealt C c p ks"
    and ids: "\<forall>q\<in>set (hc_participants c). pid_val (rp_id q) \<noteq> 0"
    and self: "svc_config (vs_dkg self) = c" "vs_group_key self = Some (ks_group_key ks)" "carries V (vs_coordinator self) []"
      "\<And>x. map_of (vs_local_shares self) x = find (\<lambda>s. hs_participant_id s = x) (ks_shares ks)"
    and g: "validate_grouped_threshold_signer_set signers (vs_grouped_config self) = Inr ()" and q: "regular_quorum C c signers"
    and name: "SessionId_new name = Inr sid" and rnd: "\<And>i. rnd i \<noteq> 0" "(\<Sum>i<length signers. rnd i) \<noteq> 0"
  shows "\<exists>co share. sign_authorization V C L rnd self name auth signers = (self\<lparr>vs_coordinator := co\<rparr>, Inr share)
    \<and> carries V co [] \<and> hss_participant_id share = hd signers \<and> hss_signing_session_id share = sid"
proof -
  let ?gk = "ks_group_key ks" and ?digest = "bam_digest L auth" and ?ls = "share_of ks"
  let ?lno = "\<lambda>x. projr (htss_nonce C (drawn_nonce rnd signers x) sid (share_of ks x))"
  let ?ns = "map (\<lambda>x. hln_package (?lno x)) signers"
  have hq: "hierarchical_quorum c signers" by (rule regular_quorum_quorum [OF wf q])
  have sid: "proper sid" by (rule SessionId_new_proper [OF name])
  have mem: "x \<in> rp_id ` set (hc_participants c)" if "x \<in> set signers" for x
    using hq that by (auto simp: hierarchical_quorum_def)
  have x0: "pid_val x \<noteq> 0" if "x \<in> set signers" for x using mem [OF that] ids by auto
  have ne: "signers \<noteq> []" using hq wf by (auto simp: hierarchical_quorum_def hc_wf_def)
  note share = find_dealt_share [OF wf d mem]
  have sel: "vault_selected_shares self signers = Inr (map ?ls signers)"
    unfolding vault_selected_shares_def by (rule collect_map_Inr) (simp add: self(4) share(1))
  have nonce_ok: "\<forall>n\<in>set (map ?lno signers). hn_signing_session_id (hln_package n) = sid
      \<and> pid_val (hn_participant_id (hln_package n)) \<noteq> 0 \<and> length (hn_public_nonce_bytes (hln_package n)) = 33"
    using share(3) x0 secp_lawsD(3) [OF C] by (auto simp: htss_nonce_def point_to_bytes_length)
  obtain co1 co2 where nonce_phase: "sfor (\<lambda>nonce self. from_dkg (on_coordinator (\<lambda>c. publish_htss_nonce (vault_transport V)
        (vc_nonce V) c (hln_package nonce)) self)) (map ?lno signers) self = (self\<lparr>vs_coordinator := co1\<rparr>, Inr ())"
    "drain_htss_nonces (vault_transport V) (vc_nonce V) co1 sid = (co2, Inr ?ns)" "carries V co2 []"
    using vault_nonce_phase [OF V sid self(3) nonce_ok] unfolding map_map o_def by (elim exE conjE) (erule (2) that)
  obtain sh sig where sh: "\<forall>x\<in>set signers. htss_sign_share C ?gk ?digest (?ls x) (?lno x) ?ns signers c = Inr (sh x)
        \<and> hss_participant_id (sh x) = x \<and> hss_signing_session_id (sh x) = sid"
    and sig: "aggregate_htss_signature_shares C ?gk ?digest ?ns (map sh signers) signers c = Inr sig"
      "verify_aggregate_signature_digest L ?gk ?digest sig = Inr True"
    using round_shares [where rnd = rnd and sid = sid and digest = ?digest, OF C L wf d q rnd] by (elim exE conjE) (erule (2) that)
  have share_ok: "\<forall>x\<in>set signers. htss_sign_share C ?gk ?digest (?ls x) (?lno x) ?ns signers c = Inr (sh x)
      \<and> hss_participant_id (sh x) = x \<and> hss_signing_session_id (sh x) = sid \<and> pid_val x \<noteq> 0"
    using sh x0 by simp
  obtain co3 co4 where share_phase: "sfor (vault_sign_share V C ?gk ?digest ?ns signers) (map (\<lambda>x. (?ls x, ?lno x)) signers)
        (self\<lparr>vs_coordinator := co2\<rparr>) = (self\<lparr>vs_coordinator := co3\<rparr>, Inr ())"
    "drain_htss_signature_shares (vault_transport V) (vc_share V) co3 sid = (co4, Inr (map sh signers))" "carries V co4 []"
    using vault_share_phase [OF V sid nonce_phase(3) self(1) share_ok] by (elim exE conjE) (erule (2) that)
  have first: "(case map sh signers of [] \<Rightarrow> Inl t | first # _ \<Rightarrow> Inr first) = Inr (sh (hd signers))" for t :: string
    using ne by (cases signers) simp_all
  have "sign_authorization V C L rnd self name auth signers = (self\<lparr>vs_coordinator := co4\<rparr>, Inr (sh (hd signers)))"
    using nonce_phase(1,2) share_phase(1,2) sig
    by (simp add: sign_authorization_def g self(1,2) name sel local_round(2) [OF C wf d hq] on_coordinator_def zip_map_same Let_def
        ensure_def first)
  with share_phase(3) sh ne show ?thesis by auto
qed

section \<open>From a new vault to a signature\<close>

lemma carries_Nil_pending: "carries V c [] \<Longrightarrow> ln_pending_len (fc_transport c) = 0"
  by (simp add: carries_def ln_pending_def ln_pending_len_def)

text \<open>What a connected new vault is.\<close>

lemma vault_new_connected:
  assumes V: "vault_codecs_ok V" and g: "gc_validated g" and new: "vault_new vid dsid net cc g = Inr v0"
    and con: "connect_transport V v0 = (v1, r)"
  defines "c \<equiv> \<lparr>hc_threshold = gc_required_signer_count g, hc_participants = gc_participants g\<rparr>"
  shows "hc_wf c" "\<forall>q\<in>set (hc_participants c). pid_val (rp_id q) \<noteq> 0" "svc_config (vs_dkg v1) = c" "svc_config (vs_dkg v0) = c"
    "proper (svc_session_id (vs_dkg v1))" "vs_round1_states v1 = []" "vs_local_shares v1 = []" "vs_group_key v1 = None"
    "carries V (vs_coordinator v1) []" "vs_grouped_config v1 = g" "r = Inr ()"
    "vs_vault_id v1 = vid" "vs_network v1 = net" "vs_chain_code v1 = cc"
proof -
  note h = hierarchical_config_from_grouped_validated [OF g, folded c_def]
  show "hc_wf c" by (rule h(2))
  show "\<forall>q\<in>set (hc_participants c). pid_val (rp_id q) \<noteq> 0" using g by (simp add: c_def gc_validated_def)
  from new h(1) obtain sid where sid: "SessionId_new dsid = Inr sid"
    and v0: "v0 = \<lparr>vs_vault_id = vid, vs_network = net, vs_chain_code = cc, vs_grouped_config = g,
      vs_dkg = \<lparr>svc_session_id = sid, svc_config = c\<rparr>, vs_coordinator = FrostCoordinator_new LocalNostrEventTransport_default,
      vs_round1_states = [], vs_local_shares = [], vs_group_key = None\<rparr>"
    by (auto simp: vault_new_def HtssDkgService_new_def rbind_Inr_iff)
  from con have v1: "v1 = v0\<lparr>vs_coordinator := \<lparr>fc_transport = \<lparr>ln_connected = True, ln_events = []\<rparr>\<rparr>\<rparr>" "r = Inr ()"
    by (auto simp: connect_transport_def on_coordinator_def fc_connect_def local_nostr_ops_def ln_connect_def v0
        FrostCoordinator_new_def LocalNostrEventTransport_default_def)
  show "svc_config (vs_dkg v1) = c" "svc_config (vs_dkg v0) = c" "vs_round1_states v1 = []" "vs_local_shares v1 = []"
    "vs_group_key v1 = None" "vs_grouped_config v1 = g" "r = Inr ()" "vs_vault_id v1 = vid" "vs_network v1 = net" "vs_chain_code v1 = cc"
    by (simp_all add: v1 v0)
  show "carries V (vs_coordinator v1) []"
    using vault_codecsD(1) [OF V] by (simp add: v1(1) carries_def ln_ok_def ln_pending_def)
  show "proper (svc_session_id (vs_dkg v1))"
    using SessionId_new_proper [OF sid] by (simp add: v1(1) v0)
qed

text \<open>The lookup in the map of shares is the search in the list of the key set.\<close>

lemma map_of_btree_of: "distinct (map fst kvs) \<Longrightarrow> map_of (btree_of kvs) = map_of kvs"
  using btree_of_mset [of kvs] mset_eq_imp_distinct_iff [of "map fst (btree_of kvs)" "map fst kvs"]
  by (subst map_of_inject_set) (auto dest: mset_eq_setD)

lemma map_of_keyed: "map_of (map (\<lambda>s. (f s, s)) xs) x = find (\<lambda>s. f s = x) xs"
  by (induction xs) auto

lemma vault_keygen:
  fixes rnd :: "nat \<Rightarrow> nat \<Rightarrow> 'f::field" and C :: "('f, 'p::ab_group_add) secp"
  assumes V: "vault_codecs_ok V" and C: "secp_laws C" and g: "gc_validated g"
    and new: "vault_new vid dsid net cc g = Inr v0" and con: "connect_transport V v0 = (v1, r)"
    and rnd: "\<And>k j. rnd k j \<noteq> 0" and ks: "run_distributed_htss_keygen C rnd (svc_config (vs_dkg v0)) = Inr ks"
  shows "\<exists>v2. run_htss_dkg V C rnd v1 = (v2, Inr ()) \<and> vs_group_key v2 = Some (ks_group_key ks)
    \<and> (\<forall>x. map_of (vs_local_shares v2) x = find (\<lambda>s. hs_participant_id s = x) (ks_shares ks))
    \<and> carries V (vs_coordinator v2) [] \<and> vs_dkg v2 = vs_dkg v1 \<and> vs_grouped_config v2 = g
    \<and> vs_vault_id v2 = vid \<and> vs_network v2 = net \<and> vs_chain_code v2 = cc"
proof -
  note n = vault_new_connected [OF V g new con]
  let ?c = "\<lparr>hc_threshold = gc_required_signer_count g, hc_participants = gc_participants g\<rparr>"
  have ks': "run_distributed_htss_keygen C rnd ?c = Inr ks" using ks unfolding n(4) .
  have "\<exists>p. htss_dealt C ?c p ks" using run_distributed_htss_keygen_dealt [where rnd = rnd, OF C n(1) rnd] ks' by fastforce
  then have "map hs_participant_id (ks_shares ks) = map rp_id (gc_participants g)" by (auto simp: htss_dealt_def o_def)
  then have "distinct (map hs_participant_id (ks_shares ks))" using n(1) by (simp add: hc_wf_def)
  then have "map_of (btree_of (map (\<lambda>s. (hs_participant_id s, s)) (ks_shares ks))) x = find (\<lambda>s. hs_participant_id s = x) (ks_shares ks)" for x
    by (subst map_of_btree_of) (simp_all add: o_def map_of_keyed)
  with run_htss_dkg_keys [OF V C n(1,2,3) refl n(6,7,8,9,5) rnd ks'] n(10,12-14) show ?thesis by auto
qed

lemma vault_signs:
  fixes rnd :: "nat \<Rightarrow> nat \<Rightarrow> 'f::field" and C :: "('f, 'p::ab_group_add) secp"
  assumes V: "vault_codecs_ok V" and C: "secp_laws C" and L: "btc_laws C L" and g: "gc_validated g"
    and new: "vault_new vid dsid net cc g = Inr v0" and con: "connect_transport V v0 = (v1, r)"
    and rnd: "\<And>k j. rnd k j \<noteq> 0" "(\<Sum>k<length (gc_participants g). rnd k 0) \<noteq> 0"
    and quorum: "validate_grouped_threshold_signer_set signers g = Inr ()" "regular_quorum C (svc_config (vs_dkg v0)) signers"
    and name: "SessionId_new name = Inr sid"
    and nonce: "\<And>i. nonce_rnd i \<noteq> 0" "(\<Sum>i<length signers. nonce_rnd i) \<noteq> 0"
  shows "\<exists>v2 v3 share. run_htss_dkg V C rnd v1 = (v2, Inr ())
    \<and> sign_authorization V C L nonce_rnd v2 name auth signers = (v3, Inr share)
    \<and> hss_participant_id share = hd signers \<and> hss_signing_session_id share = sid
    \<and> vs_group_key v3 = vs_group_key v2 \<and> vs_local_shares v3 = vs_local_shares v2
    \<and> ln_pending_len (fc_transport (vs_coordinator v3)) = 0"
proof -
  note n = vault_new_connected [OF V g new con]
  let ?c = "\<lparr>hc_threshold = gc_required_signer_count g, hc_participants = gc_participants g\<rparr>"
  from n(1) have "0 < unat (hc_threshold ?c)" by (simp add: hc_wf_def)
  with run_distributed_htss_keygen_dealt(2) [where rnd = rnd, OF C n(1) rnd(1)] rnd(2)
  obtain ks p where ks: "run_distributed_htss_keygen C rnd ?c = Inr ks" "htss_dealt C ?c p ks" by auto
  from vault_keygen [OF V C g new con rnd(1) ks(1) [folded n(4)]] obtain v2
    where v2: "run_htss_dkg V C rnd v1 = (v2, Inr ())" "vs_group_key v2 = Some (ks_group_key ks)"
      "\<And>x. map_of (vs_local_shares v2) x = find (\<lambda>s. hs_participant_id s = x) (ks_shares ks)"
      "carries V (vs_coordinator v2) []" "vs_dkg v2 = vs_dkg v1" "vs_grouped_config v2 = g" by metis
  have "svc_config (vs_dkg v2) = ?c" "validate_grouped_threshold_signer_set signers (vs_grouped_config v2) = Inr ()"
    using v2(5,6) n(3) quorum(1) by simp_all
  from sign_authorization_succeeds [OF V C L n(1) ks(2) n(2) this(1) v2(2,4,3) this(2) quorum(2) [unfolded n(4)] name nonce, of auth]
  obtain co share where "sign_authorization V C L nonce_rnd v2 name auth signers = (v2\<lparr>vs_coordinator := co\<rparr>, Inr share)"
    "carries V co []" "hss_participant_id share = hd signers" "hss_signing_session_id share = sid" by blast
  with v2(1) show ?thesis by (auto simp: carries_Nil_pending)
qed

section \<open>The demonstration\<close>

definition grouped_config_123_of_235 :: "GroupedThresholdConfig result" where
  "grouped_config_123_of_235 =
     rbind (collect (\<lambda>(i, rank, label). RankedParticipant_new i rank (Some label))
       [(1, 0, ''c-level-a''), (2, 0, ''c-level-b''), (3, 1, ''manager-a''), (4, 1, ''manager-b''), (5, 1, ''manager-c''),
        (6, 2, ''operator-a''), (7, 2, ''operator-b''), (8, 2, ''operator-c''), (9, 2, ''operator-d''), (10, 2, ''operator-e'')])
       (\<lambda>participants.
     rbind (collect (\<lambda>(rank, required, total). GroupThresholdRequirement_new rank required total) [(0, 1, 2), (1, 2, 3), (2, 3, 5)])
       (\<lambda>requirements.
     GroupedThresholdConfig_new participants requirements))"

text \<open>The policy of the demonstration is accepted, and its signer set 1, 3, 4, 6, 7, 8 is a quorum of it.\<close>

lemma demonstration_policy:
  "case grouped_config_123_of_235 of Inl _ \<Rightarrow> False
   | Inr g \<Rightarrow> gc_validated g \<and> validate_grouped_threshold_signer_set (map ParticipantId [1, 3, 4, 6, 7, 8]) g = Inr ()"
  by code_simp

end
