(* ===== verification/Live.thy ===== *)
theory Live
  imports Nostr
begin

text \<open>
  \<open>dkgkit-nostr/src/live.rs\<close>: the mapping between events and envelopes, the rule that
  encrypts round 2 messages, the handler of inbound events with its set of seen events, and
  the transport operations. Keys, NIP-44 and event building belong to \<open>nostr-sdk\<close>: the
  record \<open>nostr_lib\<close> holds the functions the code calls. What the relay thread answers
  within its time limit is an argument of \<open>lt_connect\<close> and \<open>lt_publish\<close>; the content and
  tags handed to the relay are part of the result of \<open>lt_publish\<close>.
\<close>

section \<open>Numbers in tags\<close>

text \<open>\<open>str::parse::<u16>()\<close>, an error as its text.\<close>

definition is_digit :: "char \<Rightarrow> bool" where
  "is_digit c \<longleftrightarrow> 48 \<le> (of_char c :: nat) \<and> (of_char c :: nat) \<le> 57"

fun parse_digits :: "nat \<Rightarrow> string \<Rightarrow> string + nat" where
  "parse_digits v [] = Inr v"
| "parse_digits v (c # s) =
     (if \<not> is_digit c then Inl ''invalid digit found in string''
      else let v' = v * 10 + (of_char c - 48) in
        if v' > 65535 then Inl ''number too large to fit in target type'' else parse_digits v' s)"

definition parse_u16 :: "string \<Rightarrow> string + u16" where
  "parse_u16 s =
     (case s of
        [] \<Rightarrow> Inl ''cannot parse integer from empty string''
      | c # s' \<Rightarrow>
          if s' = [] \<and> (c = CHR ''+'' \<or> c = CHR ''-'') then Inl ''invalid digit found in string''
          else rbind (parse_digits 0 (if c = CHR ''+'' then s' else s)) (\<lambda>v. Inr (word_of_nat v)))"

section \<open>The library\<close>

record ('id, 'pk) nostr_event =
  ev_id :: 'id
  ev_pubkey :: 'pk
  ev_tags :: "string list list"
  ev_content :: string

record ('k, 'pk, 'id, 'r) nostr_lib =
  public_key :: "'k \<Rightarrow> 'pk"
  nip44_encrypt :: "'r \<Rightarrow> 'k \<Rightarrow> 'pk \<Rightarrow> string \<Rightarrow> string + string"
  nip44_decrypt :: "'k \<Rightarrow> 'pk \<Rightarrow> string \<Rightarrow> string + string"
  tag_parse :: "string list \<Rightarrow> string + string list"
  tag_hashtag :: "string \<Rightarrow> string list"
  tag_public_key :: "'pk \<Rightarrow> string list"
  build_event :: "'k \<Rightarrow> string \<Rightarrow> string list list \<Rightarrow> ('id, 'pk) nostr_event"
    \<comment> \<open>\<open>EventBuilder\<close> of kind \<open>DKGKIT_NOSTR_EVENT_KIND\<close>, signed with the keys\<close>
  match_event :: "u16 \<times> string \<Rightarrow> ('id, 'pk) nostr_event \<Rightarrow> bool"
    \<comment> \<open>how a relay applies a filter of a kind and a hashtag\<close>

definition encrypt_for :: "('k, 'pk, 'id, 'r) nostr_lib \<Rightarrow> 'r \<Rightarrow> 'k \<Rightarrow> 'pk \<Rightarrow> string \<Rightarrow> string result" where
  "encrypt_for N rng sender recipient plaintext =
     (case nip44_encrypt N rng sender recipient plaintext of
        Inl e \<Rightarrow> Inl (Protocol (fmt [''nip44 encrypt failed: '', e])) | Inr c \<Rightarrow> Inr c)"

definition decrypt_from :: "('k, 'pk, 'id, 'r) nostr_lib \<Rightarrow> 'k \<Rightarrow> 'pk \<Rightarrow> string \<Rightarrow> string result" where
  "decrypt_from N receiver sender ciphertext =
     (case nip44_decrypt N receiver sender ciphertext of
        Inl e \<Rightarrow> Inl (Protocol (fmt [''nip44 decrypt failed: '', e])) | Inr p \<Rightarrow> Inr p)"

section \<open>Events and envelopes\<close>

definition ENCRYPTED_TAG_KEY :: string where
  "ENCRYPTED_TAG_KEY = ''encrypted''"

definition ENCRYPTED_TAG_VALUE :: string where
  "ENCRYPTED_TAG_VALUE = ''nip44''"

definition vault_hashtag :: "string \<Rightarrow> string" where
  "vault_hashtag vault_tag = fmt [''dkgkit:'', vault_tag]"

definition ok_option :: "'e + 'a \<Rightarrow> 'a option" where
  "ok_option r = (case r of Inl _ \<Rightarrow> None | Inr x \<Rightarrow> Some x)"

definition build_event_tags ::
    "('k, 'pk, 'id, 'r) nostr_lib \<Rightarrow> NostrEnvelopeEvent \<Rightarrow> string \<Rightarrow> 'pk option \<Rightarrow> string list list outcome" where
  "build_event_tags N envelope vault_tag encrypted_recipient =
     rbind (collect (\<lambda>tag. expect (ok_option (tag_parse N tag)) ''envelope tags are well-formed'') (ne_tags envelope)) (\<lambda>tags.
     let tags = tags @ [tag_hashtag N (vault_hashtag vault_tag)] in
     case encrypted_recipient of
       None \<Rightarrow> Inr tags
     | Some recipient \<Rightarrow>
         rbind (expect (ok_option (tag_parse N [ENCRYPTED_TAG_KEY, ENCRYPTED_TAG_VALUE])) ''static encrypted tag'') (\<lambda>tag.
         Inr (tags @ [tag_public_key N recipient] @ [tag])))"

text \<open>\<open>find_map\<close> over the tags: the value of the first tag with the key.\<close>

fun find_tag :: "string \<Rightarrow> string list list \<Rightarrow> string option" where
  "find_tag key [] = None"
| "find_tag key (parts # tags) =
     (case parts of k # v # _ \<Rightarrow> if k = key then Some v else find_tag key tags | _ \<Rightarrow> find_tag key tags)"

definition tag_value :: "('id, 'pk) nostr_event \<Rightarrow> string \<Rightarrow> string option" where
  "tag_value event key = find_tag key (ev_tags event)"

definition has_encrypted_marker :: "('id, 'pk) nostr_event \<Rightarrow> bool" where
  "has_encrypted_marker event \<longleftrightarrow> tag_value event ENCRYPTED_TAG_KEY = Some ENCRYPTED_TAG_VALUE"

definition parse_tag_number :: "string \<Rightarrow> string \<Rightarrow> u16 result" where
  "parse_tag_number what v =
     (case parse_u16 v of Inl e \<Rightarrow> Inl (Protocol (fmt [what, e])) | Inr n \<Rightarrow> Inr n)"

definition envelope_from_event :: "string \<Rightarrow> ('id, 'pk) nostr_event \<Rightarrow> NostrEnvelopeEvent result" where
  "envelope_from_event content event =
     rbind (ok_or (tag_value event ''session'') (Protocol ''missing session tag'')) (\<lambda>session_id.
     rbind (ok_or (tag_value event ''sender'') (Protocol ''missing sender tag'')) (\<lambda>sender_text.
     rbind (parse_tag_number ''bad sender tag: '' sender_text) (\<lambda>sender.
     rbind (case tag_value event ''recipient'' of
              None \<Rightarrow> Inr None
            | Some v \<Rightarrow> rbind (parse_tag_number ''bad recipient tag: '' v) (\<lambda>n. Inr (Some n))) (\<lambda>recipient.
     rbind (ok_or (tag_value event ''message_kind'') (Protocol ''missing message_kind tag'')) (\<lambda>message_kind.
     Inr \<lparr>ne_kind = DKGKIT_NOSTR_EVENT_KIND,
          ne_app = (case tag_value event ''app'' of None \<Rightarrow> DKGKIT_NOSTR_APP_TAG | Some v \<Rightarrow> v),
          ne_session_id = session_id, ne_sender = sender, ne_recipient = recipient,
          ne_message_kind = message_kind, ne_content = content\<rparr>)))))"

section \<open>Directory, configuration, transport state\<close>

type_synonym 'pk ParticipantDirectory = "ParticipantId \<rightharpoonup> 'pk"

definition directory_new :: "'pk ParticipantDirectory" where
  "directory_new = Map.empty"

definition directory_insert :: "'pk ParticipantDirectory \<Rightarrow> ParticipantId \<Rightarrow> 'pk \<Rightarrow> 'pk ParticipantDirectory" where
  "directory_insert self i pubkey = self(i \<mapsto> pubkey)"

definition directory_get :: "'pk ParticipantDirectory \<Rightarrow> ParticipantId \<Rightarrow> 'pk option" where
  "directory_get self i = self i"

record ('k, 'pk) LiveNostrTransportConfig =
  lc_relays :: "string list"
  lc_vault_tag :: string
  lc_self_id :: ParticipantId
  lc_keys :: 'k
  lc_directory :: "'pk ParticipantDirectory"
  lc_connect_timeout :: nat
  lc_publish_timeout :: nat

definition is_secret_kind :: "ProtocolMessageKind \<Rightarrow> bool" where
  "is_secret_kind kind = (case kind of FrostDkgRound2 \<Rightarrow> True | HtssDkgRound2 \<Rightarrow> True | _ \<Rightarrow> False)"

text \<open>\<open>cmd_tx\<close> and \<open>handle\<close> are there or not; \<open>inbound\<close> is the buffer shared with the thread.\<close>

record ('k, 'pk) LiveNostrTransport =
  lt_cfg :: "('k, 'pk) LiveNostrTransportConfig"
  lt_cmd_tx :: bool
  lt_inbound :: "ProtocolMessage list"
  lt_handle :: bool
  lt_connected :: bool

definition LiveNostrTransport_new :: "('k, 'pk) LiveNostrTransportConfig \<Rightarrow> ('k, 'pk) LiveNostrTransport" where
  "LiveNostrTransport_new cfg = \<lparr>lt_cfg = cfg, lt_cmd_tx = False, lt_inbound = [], lt_handle = False, lt_connected = False\<rparr>"

definition lt_pending_len :: "('k, 'pk) LiveNostrTransport \<Rightarrow> nat" where
  "lt_pending_len self = length (lt_inbound self)"

section \<open>Inbound events\<close>

definition handle_inbound_event ::
    "ProtocolMessage codec \<Rightarrow> ('k, 'pk, 'id, 'r) nostr_lib \<Rightarrow> 'k \<Rightarrow> ParticipantId \<Rightarrow> ('id, 'pk) nostr_event
      \<Rightarrow> 'id set \<times> ProtocolMessage list \<Rightarrow> 'id set \<times> ProtocolMessage list" where
  "handle_inbound_event J N keys self_id event st =
     (let (seen, inbound) = st in
      if ev_id event \<in> seen then (seen, inbound)
      else let seen = insert (ev_id event) seen in
      if tag_value event ''app'' \<noteq> Some DKGKIT_NOSTR_APP_TAG then (seen, inbound)
      else if (case tag_value event ''recipient'' of
                 None \<Rightarrow> False
               | Some recipient \<Rightarrow> ok_option (parse_u16 recipient) \<noteq> Some (pid_val self_id)) then (seen, inbound)
      else case (if has_encrypted_marker event then decrypt_from N keys (ev_pubkey event) (ev_content event)
                 else Inr (ev_content event)) of
          Inl _ \<Rightarrow> (seen, inbound)
        | Inr content \<Rightarrow>
            (case envelope_from_event content event of
               Inl _ \<Rightarrow> (seen, inbound)
             | Inr envelope \<Rightarrow>
                 (case NostrEnvelopeEvent_to_protocol_message J envelope of
                    Inl _ \<Rightarrow> (seen, inbound)
                  | Inr message \<Rightarrow> (seen, inbound @ [message]))))"

text \<open>
  The relay thread. \<open>relay_ready\<close> is what it sends on \<open>ready_tx\<close> before it enters its loop;
  \<open>relay_loop\<close> runs the loop over the commands and notifications in the order \<open>select!\<close>
  takes them and gives the acknowledgements of the publications. A notification that is an
  error or no event is \<open>None\<close>, as is a command channel that is closed.
\<close>

record relay_client =
  runtime_build :: "string + unit"
  add_relay :: "string \<Rightarrow> string + unit"
  subscribe :: "u16 \<times> string \<Rightarrow> string + unit"
  send_event :: "string \<Rightarrow> string list list \<Rightarrow> string + unit"

definition transport_err :: "string \<Rightarrow> string + 'a \<Rightarrow> 'a result" where
  "transport_err context r = (case r of Inl e \<Rightarrow> Inl (DkgKitError.Transport (context @ e)) | Inr x \<Rightarrow> Inr x)"

text \<open>The filter a transport subscribes with: a kind and a hashtag.\<close>

definition subscription_filter :: "('k, 'pk) LiveNostrTransportConfig \<Rightarrow> u16 \<times> string" where
  "subscription_filter cfg = (ucast DKGKIT_NOSTR_EVENT_KIND, vault_hashtag (lc_vault_tag cfg))"

definition relay_ready :: "relay_client \<Rightarrow> ('k, 'pk) LiveNostrTransportConfig \<Rightarrow> unit result" where
  "relay_ready R cfg =
     rbind (transport_err ''tokio runtime build failed: '' (runtime_build R)) (\<lambda>_.
     rbind (try_for (\<lambda>relay _. transport_err (fmt [''add_relay '', relay, '' failed: '']) (add_relay R relay)) (lc_relays cfg) ()) (\<lambda>_.
     transport_err ''subscribe failed: '' (subscribe R (subscription_filter cfg))))"

datatype Command = Publish string "string list list" | Shutdown

datatype ('id, 'pk) relay_input = Cmd "Command option" | Notification "('id, 'pk) nostr_event option"

fun relay_loop ::
    "ProtocolMessage codec \<Rightarrow> ('k, 'pk, 'id, 'r) nostr_lib \<Rightarrow> relay_client \<Rightarrow> 'k \<Rightarrow> ParticipantId
      \<Rightarrow> ('id, 'pk) relay_input list \<Rightarrow> 'id set \<times> ProtocolMessage list
      \<Rightarrow> ('id set \<times> ProtocolMessage list) \<times> unit result list" where
  "relay_loop J N R keys self_id [] st = (st, [])"
| "relay_loop J N R keys self_id (Cmd None # inputs) st = (st, [])"
| "relay_loop J N R keys self_id (Cmd (Some Shutdown) # inputs) st = (st, [])"
| "relay_loop J N R keys self_id (Cmd (Some (Publish content tags)) # inputs) st =
     (let (st', acks) = relay_loop J N R keys self_id inputs st
      in (st', transport_err ''send_event failed: '' (send_event R content tags) # acks))"
| "relay_loop J N R keys self_id (Notification None # inputs) st = relay_loop J N R keys self_id inputs st"
| "relay_loop J N R keys self_id (Notification (Some event) # inputs) st =
     relay_loop J N R keys self_id inputs (handle_inbound_event J N keys self_id event st)"

section \<open>The transport operations\<close>

text \<open>\<open>ready\<close> is what \<open>ready_rx.recv_timeout\<close> gives; \<open>None\<close> is the timeout.\<close>

definition lt_connect ::
    "unit result option \<Rightarrow> ('k, 'pk) LiveNostrTransport \<Rightarrow> ('k, 'pk) LiveNostrTransport \<times> unit result" where
  "lt_connect ready self =
     (if lt_connected self then (self, Inr ())
      else case ready of
          Some (Inr _) \<Rightarrow> (self\<lparr>lt_cmd_tx := True, lt_handle := True, lt_connected := True\<rparr>, Inr ())
        | Some (Inl e) \<Rightarrow> (self, Inl e)
        | None \<Rightarrow> (self, Inl (DkgKitError.Transport ''relay connect timed out'')))"

text \<open>
  \<open>disconnect\<close> sends the thread \<open>Shutdown\<close> and joins it. What the thread still does until it
  reads the command is a step of the thread (\<open>live_run\<close> below) before this call; that the
  thread gets to its command, so that the join returns, is taken for granted.
\<close>

definition lt_disconnect :: "('k, 'pk) LiveNostrTransport \<Rightarrow> ('k, 'pk) LiveNostrTransport \<times> unit result" where
  "lt_disconnect self = (self\<lparr>lt_cmd_tx := False, lt_handle := False, lt_connected := False\<rparr>, Inr ())"

text \<open>
  The content and tags of the event for a message: round 2 messages with a recipient are
  encrypted to the recipient's key in the directory.
\<close>

definition sealed_event ::
    "ProtocolMessage codec \<Rightarrow> ('k, 'pk, 'id, 'r) nostr_lib \<Rightarrow> 'r \<Rightarrow> ('k, 'pk) LiveNostrTransportConfig \<Rightarrow> ProtocolMessage
      \<Rightarrow> (string \<times> string list list) outcome" where
  "sealed_event J N rng cfg message =
     rbind (lift_err (NostrEnvelopeEvent_from_protocol_message J message)) (\<lambda>envelope.
     case (if is_secret_kind (pm_kind message) then pm_recipient message else None) of
       Some recipient_id \<Rightarrow>
         rbind (ok_or (directory_get (lc_directory cfg) recipient_id)
                  (Err (DkgKitError.Transport (fmt [''no directory pubkey for participant '', show_u16 (pid_val recipient_id)])))) (\<lambda>recipient_pk.
         rbind (lift_err (encrypt_for N rng (lc_keys cfg) recipient_pk (ne_content envelope))) (\<lambda>ciphertext.
         rbind (build_event_tags N envelope (lc_vault_tag cfg) (Some recipient_pk)) (\<lambda>tags.
         Inr (ciphertext, tags))))
     | None \<Rightarrow>
         rbind (build_event_tags N envelope (lc_vault_tag cfg) None) (\<lambda>tags.
         Inr (ne_content envelope, tags)))"

text \<open>
  \<open>alive\<close> says whether the relay thread still takes commands, \<open>ack\<close> is what it answers in
  time. The last component is what was handed to the thread for publication.
\<close>

definition lt_publish ::
    "ProtocolMessage codec \<Rightarrow> ('k, 'pk, 'id, 'r) nostr_lib \<Rightarrow> 'r \<Rightarrow> bool \<Rightarrow> unit result option
      \<Rightarrow> ('k, 'pk) LiveNostrTransport \<Rightarrow> ProtocolMessage
      \<Rightarrow> ('k, 'pk) LiveNostrTransport \<times> unit outcome \<times> (string \<times> string list list) option" where
  "lt_publish J N rng alive ack self message =
     (if \<not> lt_cmd_tx self then (self, Inl (Err (DkgKitError.Transport ''transport not connected'')), None)
      else case sealed_event J N rng (lt_cfg self) message of
          Inl f \<Rightarrow> (self, Inl f, None)
        | Inr (content, tags) \<Rightarrow>
            if \<not> alive then (self, Inl (Err (DkgKitError.Transport ''relay thread is gone'')), None)
            else case ack of
                None \<Rightarrow> (self, Inl (Err (DkgKitError.Transport ''relay publish timed out'')), Some (content, tags))
              | Some (Inl e) \<Rightarrow> (self, Inl (Err e), Some (content, tags))
              | Some (Inr _) \<Rightarrow>
                  (if is_for message (lc_self_id (lt_cfg self)) then self\<lparr>lt_inbound := lt_inbound self @ [message]\<rparr> else self,
                   Inr (), Some (content, tags)))"

definition lt_drain_step ::
    "SessionId \<Rightarrow> (ProtocolMessage \<Rightarrow> bool) \<Rightarrow> ProtocolMessage
      \<Rightarrow> ProtocolMessage list \<times> ProtocolMessage list \<Rightarrow> ProtocolMessage list \<times> ProtocolMessage list" where
  "lt_drain_step session_id predicate message st =
     (let (matched, kept) = st in
      if pm_session_id message = session_id \<and> predicate message then (matched @ [message], kept)
      else (matched, kept @ [message]))"

definition lt_drain_matching ::
    "('k, 'pk) LiveNostrTransport \<Rightarrow> SessionId \<Rightarrow> (ProtocolMessage \<Rightarrow> bool)
      \<Rightarrow> ('k, 'pk) LiveNostrTransport \<times> ProtocolMessage list result" where
  "lt_drain_matching self session_id predicate =
     (let (matched, kept) = fold (lt_drain_step session_id predicate) (lt_inbound self) ([], [])
      in (self\<lparr>lt_inbound := kept\<rparr>, Inr matched))"

section \<open>Numbers round trip\<close>

lemma parse_digits_append: "parse_digits v (s @ t) = rbind (parse_digits v s) (\<lambda>w. parse_digits w t)"
  by (induction s arbitrary: v) (simp_all add: Let_def)

lemma parse_digits_show: "n \<le> 65535 \<Longrightarrow> parse_digits 0 (show_nat n) = Inr n"
proof (induction n rule: show_nat.induct)
  case (1 n)
  show ?case
  proof (cases "n < 10")
    case True
    then show ?thesis by (subst show_nat.simps) (simp add: is_digit_def)
  next
    case False
    then have "parse_digits 0 (show_nat (n div 10)) = Inr (n div 10)" using 1 by simp
    with False 1 show ?thesis by (subst show_nat.simps) (simp add: parse_digits_append is_digit_def)
  qed
qed

lemma parse_u16_show [simp]: "parse_u16 (show_u16 w) = Inr w"
proof -
  have d: "parse_digits 0 (show_u16 w) = Inr (unat w)" by (rule parse_digits_show [OF unat_u16_le])
  obtain c s where cs: "show_u16 w = c # s" by (cases "show_u16 w") auto
  then have "is_digit c" using show_nat_digits [of c "unat w"] by (simp add: is_digit_def)
  then have "c \<noteq> CHR ''+''" "c \<noteq> CHR ''-''" by (auto simp: is_digit_def)
  with d show ?thesis by (simp add: parse_u16_def cs)
qed

section \<open>What the library is relied on for\<close>

definition nostr_laws :: "('k, 'pk, 'id, 'r) nostr_lib \<Rightarrow> bool" where
  "nostr_laws N \<longleftrightarrow>
     (\<forall>r k k' p c. nip44_encrypt N r k (public_key N k') p = Inr c \<longrightarrow> nip44_decrypt N k' (public_key N k) c = Inr p)
     \<and> (\<forall>t. t \<noteq> [] \<longrightarrow> tag_parse N t = Inr t)
     \<and> (\<forall>s. \<exists>t. tag_hashtag N s = ''t'' # t) \<and> (\<forall>pk. \<exists>t. tag_public_key N pk = ''p'' # t)
     \<and> (\<forall>k content tags. ev_pubkey (build_event N k content tags) = public_key N k
          \<and> ev_content (build_event N k content tags) = content
          \<and> (\<forall>key. key \<noteq> ''p'' \<longrightarrow> find_tag key (ev_tags (build_event N k content tags)) = find_tag key tags))"

lemma nostr_lawsD:
  assumes "nostr_laws N"
  shows nip44_roundtrip: "nip44_encrypt N r k (public_key N k') p = Inr c \<Longrightarrow> nip44_decrypt N k' (public_key N k) c = Inr p"
    and tag_parse_id: "t \<noteq> [] \<Longrightarrow> tag_parse N t = Inr t"
    and hashtag_key: "\<exists>t. tag_hashtag N s = ''t'' # t"
    and public_key_key: "\<exists>t. tag_public_key N pk = ''p'' # t"
    and event_pubkey: "ev_pubkey (build_event N k content tags) = public_key N k"
    and event_content: "ev_content (build_event N k content tags) = content"
    and event_tag: "key \<noteq> ''p'' \<Longrightarrow> tag_value (build_event N k content tags) key = find_tag key tags"
proof -
  note a = assms [unfolded nostr_laws_def]
  show "nip44_encrypt N r k (public_key N k') p = Inr c \<Longrightarrow> nip44_decrypt N k' (public_key N k) c = Inr p"
    using a [THEN conjunct1] by blast
  show "t \<noteq> [] \<Longrightarrow> tag_parse N t = Inr t" "\<exists>t. tag_hashtag N s = ''t'' # t" "\<exists>t. tag_public_key N pk = ''p'' # t"
    "ev_pubkey (build_event N k content tags) = public_key N k" "ev_content (build_event N k content tags) = content"
    "key \<noteq> ''p'' \<Longrightarrow> tag_value (build_event N k content tags) key = find_tag key tags"
    using a [THEN conjunct2] by (simp_all add: tag_value_def)
qed

text \<open>
  Subscriptions, as NIP-01 has them: a filter for a hashtag takes the events with that \<open>t\<close> tag.
  For names with capitals or outside ASCII, where the library may change the case of a
  hashtag, nothing is assumed.
\<close>

definition plain_name :: "string \<Rightarrow> bool" where
  "plain_name s \<longleftrightarrow> (\<forall>c\<in>set s. (of_char c :: nat) < 128 \<and> \<not> (65 \<le> (of_char c :: nat) \<and> (of_char c :: nat) \<le> 90))"

definition subscription_laws :: "('k, 'pk, 'id, 'r) nostr_lib \<Rightarrow> bool" where
  "subscription_laws N \<longleftrightarrow> (\<forall>h. plain_name h \<longrightarrow> tag_hashtag N h = [''t'', h]
     \<and> (\<forall>k content tags. match_event N (ucast DKGKIT_NOSTR_EVENT_KIND, h) (build_event N k content tags)
          \<longleftrightarrow> (\<exists>rest. ''t'' # h # rest \<in> set tags)))"

section \<open>The inbound side as a filter\<close>

text \<open>The message an event carries for the participant, if any.\<close>

definition event_message ::
    "ProtocolMessage codec \<Rightarrow> ('k, 'pk, 'id, 'r) nostr_lib \<Rightarrow> 'k \<Rightarrow> ParticipantId \<Rightarrow> ('id, 'pk) nostr_event \<Rightarrow> ProtocolMessage option" where
  "event_message J N keys i event =
     (if tag_value event ''app'' = Some DKGKIT_NOSTR_APP_TAG
         \<and> (\<forall>r. tag_value event ''recipient'' = Some r \<longrightarrow> parse_u16 r = Inr (pid_val i))
      then Option.bind (ok_option (if has_encrypted_marker event
               then decrypt_from N keys (ev_pubkey event) (ev_content event) else Inr (ev_content event))) (\<lambda>content.
           Option.bind (ok_option (envelope_from_event content event)) (\<lambda>envelope.
           ok_option (NostrEnvelopeEvent_to_protocol_message J envelope)))
      else None)"

fun fresh_events :: "'id set \<Rightarrow> ('id, 'pk) nostr_event list \<Rightarrow> ('id, 'pk) nostr_event list" where
  "fresh_events seen [] = []"
| "fresh_events seen (e # es) =
     (if ev_id e \<in> seen then fresh_events seen es else e # fresh_events (insert (ev_id e) seen) es)"

lemma ok_option_eq: "ok_option r = Some x \<longleftrightarrow> r = Inr x" "ok_option r = None \<longleftrightarrow> (\<exists>e. r = Inl e)"
  by (cases r; simp add: ok_option_def)+

abbreviation opt_list :: "'a option \<Rightarrow> 'a list" where
  "opt_list x \<equiv> (case x of None \<Rightarrow> [] | Some m \<Rightarrow> [m])"

lemma handle_inbound_event_eq:
  "handle_inbound_event J N keys i e (seen, inbound) =
     (if ev_id e \<in> seen then (seen, inbound)
      else (insert (ev_id e) seen, inbound @ opt_list (event_message J N keys i e)))"
proof -
  define mine where "mine \<longleftrightarrow> (\<forall>r. tag_value e ''recipient'' = Some r \<longrightarrow> parse_u16 r = Inr (pid_val i))"
  have r: "(case tag_value e ''recipient'' of None \<Rightarrow> False
      | Some recipient \<Rightarrow> ok_option (parse_u16 recipient) \<noteq> Some (pid_val i)) \<longleftrightarrow> \<not> mine"
    by (auto simp: mine_def ok_option_eq split: option.splits)
  define content where
    "content = (if has_encrypted_marker e then decrypt_from N keys (ev_pubkey e) (ev_content e) else Inr (ev_content e))"
  let ?seen = "insert (ev_id e) seen"
  have "(case content of Inl _ \<Rightarrow> (?seen, inbound)
      | Inr c \<Rightarrow> case envelope_from_event c e of Inl _ \<Rightarrow> (?seen, inbound)
          | Inr env \<Rightarrow> case NostrEnvelopeEvent_to_protocol_message J env of Inl _ \<Rightarrow> (?seen, inbound)
              | Inr m \<Rightarrow> (?seen, inbound @ [m]))
    = (?seen, inbound @ opt_list (Option.bind (ok_option content) (\<lambda>c. Option.bind (ok_option (envelope_from_event c e))
        (\<lambda>env. ok_option (NostrEnvelopeEvent_to_protocol_message J env)))))"
  proof (cases content)
    case (Inr c)
    show ?thesis
    proof (cases "envelope_from_event c e")
      case env: (Inr env)
      with Inr show ?thesis by (cases "NostrEnvelopeEvent_to_protocol_message J env") (simp_all add: ok_option_def)
    qed (simp add: Inr ok_option_def)
  qed (simp add: ok_option_def)
  then show ?thesis
    unfolding handle_inbound_event_def event_message_def mine_def [symmetric] r Let_def prod.case content_def by simp
qed

lemma handle_events_eq:
  "fold (handle_inbound_event J N keys i) es (seen, inbound) =
     (ev_id ` set es \<union> seen, inbound @ List.map_filter (event_message J N keys i) (fresh_events seen es))"
proof (induction es arbitrary: seen inbound)
  case (Cons e es)
  then show ?case by (auto simp: handle_inbound_event_eq List.map_filter_simps split: option.splits)
qed (simp add: List.map_filter_simps)

text \<open>What the handler makes of each event alone.\<close>

lemma handled_alone:
  "concat (map (\<lambda>e. snd (handle_inbound_event J N keys i e ({}, []))) es) = List.map_filter (event_message J N keys i) es"
  by (induction es) (simp_all add: handle_inbound_event_eq List.map_filter_simps split: option.splits)

text \<open>The events the loop gets to: those before the command that ends it.\<close>

fun events_until_shutdown :: "('id, 'pk) relay_input list \<Rightarrow> ('id, 'pk) nostr_event list" where
  "events_until_shutdown [] = []"
| "events_until_shutdown (Cmd None # inputs) = []"
| "events_until_shutdown (Cmd (Some Shutdown) # inputs) = []"
| "events_until_shutdown (Cmd (Some (Publish content tags)) # inputs) = events_until_shutdown inputs"
| "events_until_shutdown (Notification None # inputs) = events_until_shutdown inputs"
| "events_until_shutdown (Notification (Some event) # inputs) = event # events_until_shutdown inputs"

lemma relay_loop_fold:
  "fst (relay_loop J N R keys i inputs st) = fold (handle_inbound_event J N keys i) (events_until_shutdown inputs) st"
  by (induction inputs arbitrary: st rule: events_until_shutdown.induct) (simp_all add: case_prod_beta)

lemma relay_loop_inbound:
  "snd (fst (relay_loop J N R keys i inputs ({}, inbound))) =
     inbound @ List.map_filter (event_message J N keys i) (fresh_events {} (events_until_shutdown inputs))"
  by (simp add: relay_loop_fold handle_events_eq)

lemma fresh_events_distinct: "distinct (map ev_id (fresh_events seen es)) \<and> set (map ev_id (fresh_events seen es)) \<inter> seen = {}"
  by (induction seen es rule: fresh_events.induct) auto

lemma fresh_events_ids: "ev_id ` set (fresh_events seen es) = ev_id ` set es - seen"
  by (induction seen es rule: fresh_events.induct) auto

section \<open>Delivery\<close>

lemma build_event_tags_eq:
  assumes N: "nostr_laws N"
  shows "build_event_tags N env v r = Inr (ne_tags env @ [tag_hashtag N (vault_hashtag v)]
    @ (case r of None \<Rightarrow> [] | Some pk \<Rightarrow> [tag_public_key N pk, [ENCRYPTED_TAG_KEY, ENCRYPTED_TAG_VALUE]]))"
proof -
  have "collect (\<lambda>tag. expect (ok_option (tag_parse N tag)) ''envelope tags are well-formed'') (ne_tags env)
      = Inr (map id (ne_tags env))"
    by (rule collect_map_Inr)
      (auto simp: ne_tags_def tag_parse_id [OF N] expect_def ok_option_def split: option.splits)
  then show ?thesis
    by (simp add: build_event_tags_def tag_parse_id [OF N] expect_def ok_option_def split: option.splits)
qed

text \<open>Reading the tags of an event gives the envelope back.\<close>

lemma event_tags_lookup:
  fixes k content
  assumes N: "nostr_laws N" and tags: "build_event_tags N env v r = Inr tags"
  defines "e \<equiv> build_event N k content tags"
  shows "tag_value e ''app'' = Some (ne_app env)" "tag_value e ''session'' = Some (ne_session_id env)"
    "tag_value e ''sender'' = Some (show_u16 (ne_sender env))" "tag_value e ''message_kind'' = Some (ne_message_kind env)"
    "tag_value e ''recipient'' = map_option show_u16 (ne_recipient env)" "has_encrypted_marker e \<longleftrightarrow> r \<noteq> None"
proof -
  obtain t where t: "tag_hashtag N (vault_hashtag v) = ''t'' # t" using hashtag_key [OF N] by blast
  obtain q where q: "tag_public_key N pk = ''p'' # q pk" for pk using public_key_key [OF N] by metis
  have tags_eq: "tags = ne_tags env @ [''t'' # t]
      @ (case r of None \<Rightarrow> [] | Some pk \<Rightarrow> [''p'' # q pk, [''encrypted'', ''nip44'']])"
    using tags by (simp add: build_event_tags_eq [OF N] t q ENCRYPTED_TAG_KEY_def ENCRYPTED_TAG_VALUE_def split: option.splits)
  show "tag_value e ''app'' = Some (ne_app env)" "tag_value e ''session'' = Some (ne_session_id env)"
    "tag_value e ''sender'' = Some (show_u16 (ne_sender env))" "tag_value e ''message_kind'' = Some (ne_message_kind env)"
    "tag_value e ''recipient'' = map_option show_u16 (ne_recipient env)" "has_encrypted_marker e \<longleftrightarrow> r \<noteq> None"
    unfolding e_def has_encrypted_marker_def ENCRYPTED_TAG_KEY_def ENCRYPTED_TAG_VALUE_def
    by (simp_all add: event_tag [OF N] tags_eq ne_tags_def split: option.splits list.splits)
qed

lemma envelope_from_built_event:
  assumes N: "nostr_laws N" and tags: "build_event_tags N env v r = Inr tags" and k: "ne_kind env = DKGKIT_NOSTR_EVENT_KIND"
  shows "envelope_from_event c (build_event N k content tags) = Inr (env\<lparr>ne_content := c\<rparr>)"
  by (simp add: envelope_from_event_def event_tags_lookup [OF N tags] parse_tag_number_def k split: option.splits)

lemma encrypt_for_Inr_iff: "encrypt_for N rng k pk p = Inr c \<longleftrightarrow> nip44_encrypt N rng k pk p = Inr c"
  by (simp add: encrypt_for_def split: sum.splits)

lemma sealed_event_Inr:
  assumes "sealed_event J N rng cfg m = Inr (content, tags)"
  obtains env where "NostrEnvelopeEvent_from_protocol_message J m = Inr env"
      "\<not> (is_secret_kind (pm_kind m) \<and> pm_recipient m \<noteq> None)" "content = ne_content env"
      "build_event_tags N env (lc_vault_tag cfg) None = Inr tags"
  | env i pk where "NostrEnvelopeEvent_from_protocol_message J m = Inr env"
      "is_secret_kind (pm_kind m)" "pm_recipient m = Some i" "lc_directory cfg i = Some pk"
      "nip44_encrypt N rng (lc_keys cfg) pk (ne_content env) = Inr content"
      "build_event_tags N env (lc_vault_tag cfg) (Some pk) = Inr tags"
proof -
  let ?r = "if is_secret_kind (pm_kind m) then pm_recipient m else None"
  from assms obtain env where env: "NostrEnvelopeEvent_from_protocol_message J m = Inr env"
    by (auto simp: sealed_event_def rbind_Inr_iff lift_err_Inr_iff)
  show ?thesis
  proof (cases ?r)
    case None
    with assms env have "content = ne_content env" "build_event_tags N env (lc_vault_tag cfg) None = Inr tags"
      by (auto simp: sealed_event_def rbind_Inr_iff)
    moreover from None have "\<not> (is_secret_kind (pm_kind m) \<and> pm_recipient m \<noteq> None)" by (auto split: if_splits)
    ultimately show ?thesis using env that(1) by blast
  next
    case (Some i)
    with assms env obtain pk where "lc_directory cfg i = Some pk"
      "nip44_encrypt N rng (lc_keys cfg) pk (ne_content env) = Inr content"
      "build_event_tags N env (lc_vault_tag cfg) (Some pk) = Inr tags"
      by (auto simp: sealed_event_def rbind_Inr_iff ok_or_Inr_iff directory_get_def encrypt_for_Inr_iff lift_err_Inr_iff)
    moreover from Some have "is_secret_kind (pm_kind m)" "pm_recipient m = Some i" by (simp_all split: if_splits)
    ultimately show ?thesis using env that(2) by blast
  qed
qed

text \<open>
  The event of a message is read by exactly the participants it is for, as that message:
  in clear, or with the key the sender's directory lists for the recipient. Neither the
  vault tag nor the author of the event is looked at.
\<close>

lemma event_delivered:
  assumes N: "nostr_laws N" and J: "json_ok J" and m: "deliverable m"
    and s: "sealed_event J N rng cfg m = Inr (content, tags)"
    and key: "is_secret_kind (pm_kind m) \<and> pm_recipient m = Some i \<longrightarrow> lc_directory cfg i = Some (public_key N keys)"
  shows "event_message J N keys i (build_event N (lc_keys cfg) content tags) = (if is_for m i then Some m else None)"
proof -
  let ?e = "build_event N (lc_keys cfg) content tags"
  from envelope_roundtrip [OF J m] obtain env where env: "NostrEnvelopeEvent_from_protocol_message J m = Inr env"
    "NostrEnvelopeEvent_to_protocol_message J env = Inr m" by blast
  from env(1) have f: "ne_kind env = DKGKIT_NOSTR_EVENT_KIND" "ne_app env = DKGKIT_NOSTR_APP_TAG"
    "ne_recipient env = map_option pid_val (pm_recipient m)"
    by (auto simp: NostrEnvelopeEvent_from_protocol_message_def rbind_Inr_iff)
  from s obtain r where tags: "build_event_tags N env (lc_vault_tag cfg) r = Inr tags"
    and c: "r = None \<longrightarrow> content = ne_content env"
    and sec: "\<forall>pk. r = Some pk \<longrightarrow> (\<exists>j. pm_recipient m = Some j \<and> is_secret_kind (pm_kind m) \<and> lc_directory cfg j = Some pk)
      \<and> nip44_encrypt N rng (lc_keys cfg) pk (ne_content env) = Inr content"
    by (rule sealed_event_Inr) (use env(1) in auto)
  note look = event_tags_lookup [OF N tags, of "lc_keys cfg" content]
  have mine: "(\<forall>t. tag_value ?e ''recipient'' = Some t \<longrightarrow> parse_u16 t = Inr (pid_val i)) \<longleftrightarrow> is_for m i"
    by (auto simp: look f(3) is_for_def ParticipantId.expand split: option.splits)
  have plain: "(if has_encrypted_marker ?e then decrypt_from N keys (ev_pubkey ?e) (ev_content ?e) else Inr (ev_content ?e))
      = Inr (ne_content env)" if "is_for m i"
  proof (cases r)
    case None
    then show ?thesis using c look(6) by (simp add: event_content [OF N])
  next
    case (Some pk)
    with sec obtain j where j: "pm_recipient m = Some j" "is_secret_kind (pm_kind m)" "lc_directory cfg j = Some pk"
      "nip44_encrypt N rng (lc_keys cfg) pk (ne_content env) = Inr content" by blast
    with that have "j = i" by (simp add: is_for_def)
    with j key have "pk = public_key N keys" by simp
    with j(4) nip44_roundtrip [OF N] have "nip44_decrypt N keys (public_key N (lc_keys cfg)) content = Inr (ne_content env)" by blast
    then show ?thesis using Some look(6) by (simp add: decrypt_from_def event_content [OF N] event_pubkey [OF N])
  qed
  show ?thesis
  proof (cases "is_for m i")
    case True
    have "event_message J N keys i ?e = ok_option (NostrEnvelopeEvent_to_protocol_message J (env\<lparr>ne_content := ne_content env\<rparr>))"
      unfolding event_message_def mine plain [OF True] using True
      by (simp add: look(1) f(2) ok_option_def envelope_from_built_event [OF N tags f(1)])
    then show ?thesis using True env(2) by (simp add: ok_option_def)
  next
    case False
    then show ?thesis unfolding event_message_def mine by simp
  qed
qed

text \<open>A relay forwards the event exactly to the subscriptions of the sender's vault.\<close>

lemma vault_hashtag_simps:
  "vault_hashtag v = vault_hashtag v' \<longleftrightarrow> v = v'" "plain_name v \<Longrightarrow> plain_name (vault_hashtag v)"
  by (auto simp: vault_hashtag_def plain_name_def fmt_def)

lemma event_matches_vault:
  assumes N: "nostr_laws N" "subscription_laws N" and s: "sealed_event J N rng cfg m = Inr (content, tags)"
    and v: "plain_name (lc_vault_tag cfg)" "plain_name (lc_vault_tag cfg')"
  shows "match_event N (subscription_filter cfg') (build_event N k content tags) \<longleftrightarrow> lc_vault_tag cfg' = lc_vault_tag cfg"
proof -
  note plain = vault_hashtag_simps(2) [OF v(1)] vault_hashtag_simps(2) [OF v(2)]
  note laws = N(2) [unfolded subscription_laws_def, rule_format]
  from s obtain env r where tags: "build_event_tags N env (lc_vault_tag cfg) r = Inr tags" by (rule sealed_event_Inr) blast+
  obtain q where q: "tag_public_key N pk = ''p'' # q pk" for pk using public_key_key [OF N(1)] by metis
  have "tags = ne_tags env @ [[''t'', vault_hashtag (lc_vault_tag cfg)]]
      @ (case r of None \<Rightarrow> [] | Some pk \<Rightarrow> [''p'' # q pk, [''encrypted'', ''nip44'']])"
    using tags laws [OF plain(1)]
    by (simp add: build_event_tags_eq [OF N(1)] q ENCRYPTED_TAG_KEY_def ENCRYPTED_TAG_VALUE_def split: option.splits)
  then have "(\<exists>rest. ''t'' # h # rest \<in> set tags) \<longleftrightarrow> h = vault_hashtag (lc_vault_tag cfg)" for h
    by (auto simp: ne_tags_def split: option.splits)
  then show ?thesis using laws [OF plain(2)] by (simp add: subscription_filter_def vault_hashtag_simps(1))
qed

text \<open>A round 2 message with a recipient leaves the device only as a NIP-44 ciphertext for that recipient.\<close>

lemma lt_publish_sealed:
  "lt_publish J N rng alive ack s m = (s', r, Some ct) \<Longrightarrow> sealed_event J N rng (lt_cfg s) m = Inr ct"
  by (auto simp: lt_publish_def split: if_splits sum.splits option.splits prod.splits)

lemma secret_published_encrypted:
  assumes p: "lt_publish J N rng alive ack s m = (s', r, Some (content, tags))"
    and sec: "is_secret_kind (pm_kind m)" "pm_recipient m = Some i"
  shows "\<exists>pk env. lc_directory (lt_cfg s) i = Some pk \<and> NostrEnvelopeEvent_from_protocol_message J m = Inr env
    \<and> nip44_encrypt N rng (lc_keys (lt_cfg s)) pk (ne_content env) = Inr content"
  using lt_publish_sealed [OF p] sec by (auto elim!: sealed_event_Inr)

section \<open>The buffer is a queue\<close>

text \<open>The operations under a fixed answer of the thread; what publishing does is left open.\<close>

definition live_ops ::
    "unit result option \<Rightarrow> (('k, 'pk) LiveNostrTransport \<Rightarrow> ProtocolMessage \<Rightarrow> ('k, 'pk) LiveNostrTransport \<times> unit result)
      \<Rightarrow> ('k, 'pk) LiveNostrTransport Transport" where
  "live_ops ready publish = \<lparr>tr_connect = lt_connect ready, tr_disconnect = lt_disconnect, tr_publish = publish,
     tr_drain_matching = lt_drain_matching\<rparr>"

lemma lt_drain_loop:
  "fold (lt_drain_step sid P) ms (matched, kept) = (matched @ filter (\<lambda>m. pm_session_id m = sid \<and> P m) ms,
     kept @ filter (\<lambda>m. \<not> (pm_session_id m = sid \<and> P m)) ms)"
  by (induction ms arbitrary: matched kept) (auto simp: lt_drain_step_def)

interpretation live: drain_queue "live_ops ready publish" lt_inbound "\<lambda>_. True" for ready publish
  by unfold_locales (simp add: live_ops_def lt_drain_matching_def lt_drain_loop)

section \<open>The transport and its threads as a state machine\<close>

text \<open>
  Every \<open>connect\<close> on a transport that is not connected spawns a relay thread, and all threads
  work on the one buffer of the transport, each with its own set of seen events. The transport
  owns the thread of a successful connect until it disconnects; a thread that reports an error
  has returned; a thread whose connect timed out belongs to nobody, finds its command channel
  closed and may still handle events before it sees that. A world is the transport with all
  threads ever spawned; \<open>rt_events\<close>, \<open>lw_looped\<close> and \<open>lw_drained\<close> record the events a thread
  has taken, the messages looped back by publishing and the messages drained.
\<close>

record ('id, 'pk) relay_thread =
  rt_seen :: "'id set"
  rt_events :: "('id, 'pk) nostr_event list"
  rt_running :: bool
  rt_abandoned :: bool

record ('k, 'pk, 'id) live_world =
  lw_transport :: "('k, 'pk) LiveNostrTransport"
  lw_threads :: "('id, 'pk) relay_thread list"
  lw_owned :: "nat option"
  lw_looped :: "ProtocolMessage list"
  lw_drained :: "ProtocolMessage list"

definition live_start :: "('k, 'pk) LiveNostrTransportConfig \<Rightarrow> ('k, 'pk, 'id) live_world" where
  "live_start cfg = \<lparr>lw_transport = LiveNostrTransport_new cfg, lw_threads = [], lw_owned = None, lw_looped = [], lw_drained = []\<rparr>"

definition spawned :: "bool \<Rightarrow> ('id, 'pk) relay_thread" where
  "spawned abandoned = \<lparr>rt_seen = {}, rt_events = [], rt_running = True, rt_abandoned = abandoned\<rparr>"

definition world_connected :: "unit result option \<Rightarrow> ('k, 'pk, 'id) live_world \<Rightarrow> ('k, 'pk, 'id) live_world" where
  "world_connected ready w =
     (if lt_connected (lw_transport w) then w
      else let w' = w\<lparr>lw_transport := fst (lt_connect ready (lw_transport w))\<rparr> in
        case ready of
          Some (Inr _) \<Rightarrow> w'\<lparr>lw_threads := lw_threads w @ [spawned False], lw_owned := Some (length (lw_threads w))\<rparr>
        | Some (Inl _) \<Rightarrow> w'
        | None \<Rightarrow> w'\<lparr>lw_threads := lw_threads w @ [spawned True]\<rparr>)"

definition world_ended :: "nat \<Rightarrow> ('k, 'pk, 'id) live_world \<Rightarrow> ('k, 'pk, 'id) live_world" where
  "world_ended k w = w\<lparr>lw_threads := (lw_threads w)[k := (lw_threads w ! k)\<lparr>rt_running := False\<rparr>]\<rparr>"

definition world_disconnected :: "('k, 'pk, 'id) live_world \<Rightarrow> ('k, 'pk, 'id) live_world" where
  "world_disconnected w =
     (case lw_owned w of None \<Rightarrow> w | Some k \<Rightarrow> world_ended k w)
       \<lparr>lw_transport := fst (lt_disconnect (lw_transport w)), lw_owned := None\<rparr>"

definition world_notified ::
    "ProtocolMessage codec \<Rightarrow> ('k, 'pk, 'id, 'r) nostr_lib \<Rightarrow> nat \<Rightarrow> ('id, 'pk) nostr_event \<Rightarrow> ('k, 'pk, 'id) live_world
      \<Rightarrow> ('k, 'pk, 'id) live_world" where
  "world_notified J N k e w =
     (let t = lw_transport w; cfg = lt_cfg t; th = lw_threads w ! k;
          (seen, inbound) = handle_inbound_event J N (lc_keys cfg) (lc_self_id cfg) e (rt_seen th, lt_inbound t) in
      w\<lparr>lw_transport := t\<lparr>lt_inbound := inbound\<rparr>,
        lw_threads := (lw_threads w)[k := th\<lparr>rt_seen := seen,
          rt_events := rt_events th @ (if ev_id e \<in> rt_seen th then [] else [e])\<rparr>]\<rparr>)"

definition world_published ::
    "ProtocolMessage codec \<Rightarrow> ('k, 'pk, 'id, 'r) nostr_lib \<Rightarrow> 'r \<Rightarrow> bool \<Rightarrow> unit result option \<Rightarrow> ProtocolMessage
      \<Rightarrow> ('k, 'pk, 'id) live_world \<Rightarrow> ('k, 'pk, 'id) live_world" where
  "world_published J N rng alive ack m w =
     (let (t, r, _) = lt_publish J N rng alive ack (lw_transport w) m in
      w\<lparr>lw_transport := t,
        lw_looped := lw_looped w @ (if r = Inr () \<and> is_for m (lc_self_id (lt_cfg t)) then [m] else [])\<rparr>)"

definition world_drained ::
    "SessionId \<Rightarrow> (ProtocolMessage \<Rightarrow> bool) \<Rightarrow> ('k, 'pk, 'id) live_world \<Rightarrow> ('k, 'pk, 'id) live_world" where
  "world_drained sid P w =
     (let (t, r) = lt_drain_matching (lw_transport w) sid P in
      w\<lparr>lw_transport := t, lw_drained := lw_drained w @ (case r of Inl _ \<Rightarrow> [] | Inr ms \<Rightarrow> ms)\<rparr>)"

inductive live_run ::
    "ProtocolMessage codec \<Rightarrow> ('k, 'pk, 'id, 'r) nostr_lib \<Rightarrow> ('k, 'pk) LiveNostrTransportConfig
      \<Rightarrow> ('k, 'pk, 'id) live_world \<Rightarrow> bool"
  for J N cfg where
  started: "live_run J N cfg (live_start cfg)"
| connects: "live_run J N cfg w \<Longrightarrow> live_run J N cfg (world_connected ready w)"
| disconnects: "live_run J N cfg w \<Longrightarrow> live_run J N cfg (world_disconnected w)"
| notified: "live_run J N cfg w \<Longrightarrow> k < length (lw_threads w) \<Longrightarrow> rt_running (lw_threads w ! k)
    \<Longrightarrow> live_run J N cfg (world_notified J N k e w)"
| ended: "live_run J N cfg w \<Longrightarrow> k < length (lw_threads w) \<Longrightarrow> live_run J N cfg (world_ended k w)"
| published: "live_run J N cfg w \<Longrightarrow> live_run J N cfg (world_published J N rng alive ack m w)"
| drained: "live_run J N cfg w \<Longrightarrow> live_run J N cfg (world_drained sid P w)"

text \<open>
  What every step keeps: the buffer holds what came in and was not drained yet; a thread takes
  no event twice; and a thread that was not abandoned runs only while its connection is up.
\<close>

definition taken_messages where
  "taken_messages J N cfg ths =
     List.map_filter (event_message J N (lc_keys cfg) (lc_self_id cfg)) (concat (map rt_events ths))"

definition thread_ok :: "('id, 'pk) relay_thread \<Rightarrow> bool" where
  "thread_ok th \<longleftrightarrow> distinct (map ev_id (rt_events th)) \<and> rt_seen th = ev_id ` set (rt_events th)"

definition owned_only :: "('k, 'pk, 'id) live_world \<Rightarrow> bool" where
  "owned_only w \<longleftrightarrow> (\<forall>k<length (lw_threads w). rt_running (lw_threads w ! k) \<longrightarrow>
     rt_abandoned (lw_threads w ! k) \<or> lw_owned w = Some k)"

definition live_inv ::
    "ProtocolMessage codec \<Rightarrow> ('k, 'pk, 'id, 'r) nostr_lib \<Rightarrow> ('k, 'pk) LiveNostrTransportConfig
      \<Rightarrow> ('k, 'pk, 'id) live_world \<Rightarrow> bool" where
  "live_inv J N cfg w \<longleftrightarrow> lt_cfg (lw_transport w) = cfg
     \<and> (lt_connected (lw_transport w) \<longleftrightarrow> lw_owned w \<noteq> None) \<and> (lt_cmd_tx (lw_transport w) \<longleftrightarrow> lw_owned w \<noteq> None)
     \<and> (\<forall>k. lw_owned w = Some k \<longrightarrow> k < length (lw_threads w)) \<and> owned_only w
     \<and> (\<forall>th\<in>set (lw_threads w). thread_ok th)
     \<and> mset (lt_inbound (lw_transport w)) + mset (lw_drained w) =
         mset (taken_messages J N cfg (lw_threads w)) + mset (lw_looped w)"

lemma map_filter_snoc: "List.map_filter f (xs @ [x]) = List.map_filter f xs @ opt_list (f x)"
  by (simp add: List.map_filter_def split: option.splits)

lemma map_filter_append: "List.map_filter f (xs @ ys) = List.map_filter f xs @ List.map_filter f ys"
  by (simp add: List.map_filter_def)

lemma live_inv_start: "live_inv J N cfg (live_start cfg)"
  by (simp add: live_inv_def live_start_def LiveNostrTransport_new_def List.map_filter_simps taken_messages_def owned_only_def)

text \<open>The messages of the threads when thread \<open>k\<close> takes an event more.\<close>

lemma taken_messages_snoc:
  assumes "k < length ths" "rt_events th = rt_events (ths ! k) @ es"
  shows "mset (taken_messages J N cfg (ths[k := th]))
    = mset (taken_messages J N cfg ths) + mset (List.map_filter (event_message J N (lc_keys cfg) (lc_self_id cfg)) es)"
proof -
  have "ths = take k ths @ ths ! k # drop (Suc k) ths" using assms(1) by (rule id_take_nth_drop)
  then have "taken_messages J N cfg ths = taken_messages J N cfg (take k ths @ ths ! k # drop (Suc k) ths)" by simp
  moreover have "ths[k := th] = take k ths @ th # drop (Suc k) ths" using assms(1) by (rule upd_conv_take_nth_drop)
  ultimately show ?thesis by (simp add: taken_messages_def assms(2) map_filter_append ac_simps)
qed

lemma live_inv_ended:
  assumes inv: "live_inv J N cfg w" and k: "k < length (lw_threads w)"
  shows "live_inv J N cfg (world_ended k w)"
proof -
  have "thread_ok ((lw_threads w ! k)\<lparr>rt_running := False\<rparr>)"
    using inv nth_mem [OF k] by (simp add: live_inv_def thread_ok_def)
  then have "\<forall>th\<in>set (lw_threads (world_ended k w)). thread_ok th"
    using inv set_update_subset_insert [of "lw_threads w" k] by (auto simp: live_inv_def world_ended_def)
  moreover have "owned_only (world_ended k w)"
    using inv k by (auto simp: live_inv_def owned_only_def world_ended_def nth_list_update)
  moreover have "mset (taken_messages J N cfg (lw_threads (world_ended k w))) = mset (taken_messages J N cfg (lw_threads w))"
    using taken_messages_snoc [OF k, of "(lw_threads w ! k)\<lparr>rt_running := False\<rparr>" "[]"]
    by (simp add: world_ended_def List.map_filter_simps)
  ultimately show ?thesis using inv by (simp add: live_inv_def world_ended_def)
qed

lemma live_inv_disconnected:
  assumes inv: "live_inv J N cfg w"
  shows "live_inv J N cfg (world_disconnected w)"
proof (cases "lw_owned w")
  case None
  with inv show ?thesis by (simp add: live_inv_def world_disconnected_def lt_disconnect_def owned_only_def)
next
  case (Some k)
  with inv have k: "k < length (lw_threads w)" by (simp add: live_inv_def)
  from live_inv_ended [OF inv k] show ?thesis
    using Some k by (auto simp: live_inv_def world_disconnected_def lt_disconnect_def owned_only_def world_ended_def nth_list_update)
qed

lemma live_inv_notified:
  assumes inv: "live_inv J N cfg w" and k: "k < length (lw_threads w)"
  shows "live_inv J N cfg (world_notified J N k e w)"
proof (cases "ev_id e \<in> rt_seen (lw_threads w ! k)")
  case True
  then have "world_notified J N k e w = w" by (simp add: world_notified_def handle_inbound_event_eq Let_def)
  with inv show ?thesis by simp
next
  case False
  define t where "t = lw_transport w"
  define th where "th = (lw_threads w ! k)\<lparr>rt_seen := insert (ev_id e) (rt_seen (lw_threads w ! k)), rt_events := rt_events (lw_threads w ! k) @ [e]\<rparr>"
  define em where "em = event_message J N (lc_keys cfg) (lc_self_id cfg)"
  from False inv have n: "world_notified J N k e w = w\<lparr>lw_transport := t\<lparr>lt_inbound := lt_inbound t @ opt_list (em e)\<rparr>,
      lw_threads := (lw_threads w)[k := th]\<rparr>"
    by (simp add: world_notified_def handle_inbound_event_eq t_def em_def th_def live_inv_def Let_def)
  have "thread_ok th" using inv nth_mem [OF k] False by (auto simp: live_inv_def thread_ok_def th_def)
  then have "\<forall>th\<in>set ((lw_threads w)[k := th]). thread_ok th"
    using inv set_update_subset_insert [of "lw_threads w" k th] by (auto simp: live_inv_def)
  moreover have "owned_only (world_notified J N k e w)"
    using inv k by (auto simp: live_inv_def owned_only_def n th_def nth_list_update)
  moreover have "mset (taken_messages J N cfg ((lw_threads w)[k := th])) = mset (taken_messages J N cfg (lw_threads w)) + mset (opt_list (em e))"
    using taken_messages_snoc [OF k, of th "[e]" J N cfg] map_filter_snoc [of em "[]" e]
    by (simp add: th_def em_def List.map_filter_simps)
  ultimately show ?thesis using inv by (simp add: live_inv_def n t_def ac_simps)
qed

lemma answer_cases:
  fixes x :: "unit result option"
  obtains "x = None" | e where "x = Some (Inl e)" | "x = Some (Inr ())"
proof (cases x)
  case None
  then show thesis by (rule that(1))
next
  case (Some r)
  then show thesis by (cases r) (simp_all add: that)
qed

lemma lt_connect_eq:
  "fst (lt_connect ready t) =
     (if \<not> lt_connected t \<and> ready = Some (Inr ()) then t\<lparr>lt_cmd_tx := True, lt_handle := True, lt_connected := True\<rparr> else t)"
  by (cases "lt_connected t"; cases ready rule: answer_cases) (simp_all add: lt_connect_def)

lemma live_inv_connected:
  assumes inv: "live_inv J N cfg w"
  shows "live_inv J N cfg (world_connected ready w)"
proof (cases "lt_connected (lw_transport w)")
  case False
  have new: "thread_ok (spawned b)" "rt_events (spawned b) = []" "rt_abandoned (spawned b) = b" for b
    by (simp_all add: spawned_def thread_ok_def)
  from False inv show ?thesis
    by (cases ready rule: answer_cases)
      (auto simp: live_inv_def world_connected_def lt_connect_eq owned_only_def taken_messages_def nth_append less_Suc_eq new)
qed (simp add: world_connected_def inv)

lemma lt_publish_frame:
  assumes "lt_publish J N rng alive ack t m = (t', r, ev)"
  shows "lt_cfg t' = lt_cfg t" "lt_connected t' = lt_connected t" "lt_cmd_tx t' = lt_cmd_tx t"
    "lt_inbound t' = lt_inbound t @ (if r = Inr () \<and> is_for m (lc_self_id (lt_cfg t)) then [m] else [])"
proof -
  have "(t' = t \<and> (\<exists>f. r = Inl f))
      \<or> (t' = (if is_for m (lc_self_id (lt_cfg t)) then t\<lparr>lt_inbound := lt_inbound t @ [m]\<rparr> else t) \<and> r = Inr ())"
  proof (cases "lt_cmd_tx t \<and> alive")
    case True
    show ?thesis
    proof (cases "sealed_event J N rng (lt_cfg t) m")
      case (Inl f)
      with True assms show ?thesis by (auto simp: lt_publish_def)
    next
      case (Inr ct)
      with True assms show ?thesis by (cases ack rule: answer_cases; cases ct) (auto simp: lt_publish_def)
    qed
  next
    case False
    with assms show ?thesis
      by (cases "sealed_event J N rng (lt_cfg t) m"; cases "lt_cmd_tx t") (auto simp: lt_publish_def)
  qed
  then show "lt_cfg t' = lt_cfg t" "lt_connected t' = lt_connected t" "lt_cmd_tx t' = lt_cmd_tx t"
    "lt_inbound t' = lt_inbound t @ (if r = Inr () \<and> is_for m (lc_self_id (lt_cfg t)) then [m] else [])"
    by (auto split: if_splits)
qed

lemma live_inv_published:
  assumes "live_inv J N cfg w"
  shows "live_inv J N cfg (world_published J N rng alive ack m w)"
proof -
  obtain t r ev where t: "lt_publish J N rng alive ack (lw_transport w) m = (t, r, ev)" by (metis prod_cases3)
  have w: "world_published J N rng alive ack m w = w\<lparr>lw_transport := t,
      lw_looped := lw_looped w @ (if r = Inr () \<and> is_for m (lc_self_id (lt_cfg t)) then [m] else [])\<rparr>"
    by (simp add: world_published_def t)
  from assms show ?thesis unfolding live_inv_def w by (simp add: lt_publish_frame [OF t] owned_only_def)
qed

lemma live_inv_drained:
  assumes "live_inv J N cfg w"
  shows "live_inv J N cfg (world_drained sid P w)"
proof -
  let ?b = "lt_inbound (lw_transport w)" and ?P = "\<lambda>m. pm_session_id m = sid \<and> P m"
  have "mset (filter (\<lambda>m. \<not> ?P m) ?b) + mset (lw_drained w @ filter ?P ?b) = mset ?b + mset (lw_drained w)"
    using multiset_partition [of "mset ?b" ?P] by (simp add: mset_filter)
  with assms show ?thesis
    by (simp add: live_inv_def world_drained_def lt_drain_matching_def lt_drain_loop owned_only_def)
qed

lemma live_run_inv: "live_run J N cfg w \<Longrightarrow> live_inv J N cfg w"
  by (induction rule: live_run.induct)
    (simp_all only: live_inv_start live_inv_notified live_inv_connected live_inv_disconnected live_inv_ended
      live_inv_published live_inv_drained)

end
