(* ===== verification/Instances.thy ===== *)
theory Instances
  imports Reference_Group Vault Live
begin

text \<open>
  Instances of the library parameters for the witnesses: a serialiser built from
  combinators, with the codecs of the envelopes and packages; the \<open>bitcoin\<close> crate over the
  reference group; a relay library. They show that the laws the properties assume of these
  libraries can hold together.
\<close>

section \<open>A serialiser\<close>

text \<open>Values are written as lists of numbers and read back from the front of such a list.\<close>

record 'a format =
  wr :: "'a \<Rightarrow> nat list"
  rd :: "nat list \<Rightarrow> 'a \<times> nat list"

definition format_ok :: "'a format \<Rightarrow> bool" where
  "format_ok F \<longleftrightarrow> (\<forall>x rest. rd F (wr F x @ rest) = (x, rest))"

definition f_nat :: "nat format" where
  "f_nat = \<lparr>wr = \<lambda>n. [n], rd = \<lambda>ns. (hd ns, tl ns)\<rparr>"

definition f_pair :: "'a format \<Rightarrow> 'b format \<Rightarrow> ('a \<times> 'b) format" where
  "f_pair F G = \<lparr>wr = \<lambda>(x, y). wr F x @ wr G y,
     rd = \<lambda>ns. case rd F ns of (x, ns) \<Rightarrow> case rd G ns of (y, ns) \<Rightarrow> ((x, y), ns)\<rparr>"

definition f_map :: "('a \<Rightarrow> 'b) \<Rightarrow> ('b \<Rightarrow> 'a) \<Rightarrow> 'b format \<Rightarrow> 'a format" where
  "f_map to back F = \<lparr>wr = \<lambda>x. wr F (to x), rd = \<lambda>ns. case rd F ns of (y, ns) \<Rightarrow> (back y, ns)\<rparr>"

primrec rd_many :: "(nat list \<Rightarrow> 'a \<times> nat list) \<Rightarrow> nat \<Rightarrow> nat list \<Rightarrow> 'a list \<times> nat list" where
  "rd_many r 0 ns = ([], ns)"
| "rd_many r (Suc n) ns = (case r ns of (x, ns) \<Rightarrow> case rd_many r n ns of (xs, ns) \<Rightarrow> (x # xs, ns))"

definition f_list :: "'a format \<Rightarrow> 'a list format" where
  "f_list F = \<lparr>wr = \<lambda>xs. length xs # concat (map (wr F) xs), rd = \<lambda>ns. rd_many (rd F) (hd ns) (tl ns)\<rparr>"

definition f_option :: "'a format \<Rightarrow> 'a option format" where
  "f_option F = f_map (\<lambda>x. case x of None \<Rightarrow> [] | Some y \<Rightarrow> [y]) (\<lambda>xs. case xs of [] \<Rightarrow> None | y # _ \<Rightarrow> Some y) (f_list F)"

lemma f_nat_ok: "format_ok f_nat"
  by (simp add: format_ok_def f_nat_def)

lemma f_pair_ok: "format_ok F \<Longrightarrow> format_ok G \<Longrightarrow> format_ok (f_pair F G)"
  by (simp add: format_ok_def f_pair_def)

lemma f_map_ok: "format_ok F \<Longrightarrow> (\<And>x. back (to x) = x) \<Longrightarrow> format_ok (f_map to back F)"
  by (simp add: format_ok_def f_map_def)

lemma f_list_ok:
  assumes "format_ok F"
  shows "format_ok (f_list F)"
proof -
  have "rd_many (rd F) (length xs) (concat (map (wr F) xs) @ rest) = (xs, rest)" for xs rest
    using assms by (induction xs) (simp_all add: format_ok_def)
  then show ?thesis by (simp add: format_ok_def f_list_def)
qed

lemma f_option_ok: "format_ok F \<Longrightarrow> format_ok (f_option F)"
  unfolding f_option_def by (intro f_map_ok f_list_ok) (auto split: option.splits)

lemmas format_intros = f_nat_ok f_pair_ok f_map_ok f_list_ok f_option_ok

text \<open>Numbers become bytes in unary, so that the text is ASCII.\<close>

definition to_text :: "nat list \<Rightarrow> bytes" where
  "to_text ns = concat (map (\<lambda>n. replicate n 49 @ [44]) ns)"

fun of_text :: "nat \<Rightarrow> bytes \<Rightarrow> nat list" where
  "of_text n [] = []"
| "of_text n (b # bs) = (if b = 49 then of_text (Suc n) bs else n # of_text 0 bs)"

lemma of_text_digits: "of_text k (replicate n 49 @ 44 # bs) = (k + n) # of_text 0 bs"
  by (induction n arbitrary: k) simp_all

lemma of_to_text: "of_text 0 (to_text ns) = ns"
  unfolding to_text_def by (induction ns) (simp_all add: of_text_digits)

lemma ascii_utf8: "\<forall>b\<in>set bs. b = 49 \<or> b = 44 \<Longrightarrow> utf8_error k bs = None"
proof (induction bs arbitrary: k)
  case (Cons b bs)
  then show ?case by (subst utf8_error.simps) (auto simp: utf8_step_def)
qed (subst utf8_error.simps, simp)

definition codec_of :: "'a format \<Rightarrow> 'a codec" where
  "codec_of F = \<lparr>to_vec = \<lambda>x. Inr (to_text (wr F x)), from_slice = \<lambda>b. Inr (fst (rd F (of_text 0 b)))\<rparr>"

lemma codec_of_ok: "format_ok F \<Longrightarrow> codec_ok (codec_of F)"
  using of_to_text by (simp add: codec_ok_def codec_of_def format_ok_def) (metis append.right_neutral fst_conv)

section \<open>The codecs\<close>

definition f_u16 :: "u16 format" where
  "f_u16 = f_map unat word_of_nat f_nat"

definition f_bytes :: "bytes format" where
  "f_bytes = f_list (f_map unat word_of_nat f_nat)"

definition f_string :: "string format" where
  "f_string = f_list (f_map of_char char_of f_nat)"

definition f_id :: "ParticipantId format" where
  "f_id = f_map pid_val ParticipantId f_u16"

definition f_session :: "SessionId format" where
  "f_session = f_map session_str SessionId f_string"

lemma basic_formats_ok: "format_ok f_u16" "format_ok f_bytes" "format_ok f_string" "format_ok f_id" "format_ok f_session"
  unfolding f_u16_def f_bytes_def f_string_def f_id_def f_session_def by (intro format_intros; simp)+

definition builtin_kinds :: "ProtocolMessageKind list" where
  "builtin_kinds = [KSessionManifest, FrostDkgRound1, FrostDkgRound2, HtssDkgRound1, HtssDkgRound2, FrostSigningNonce,
     FrostSignatureShare, HtssSigningNonce, HtssSignatureShare]"

primrec position :: "'a \<Rightarrow> 'a list \<Rightarrow> nat" where
  "position x [] = 0"
| "position x (y # ys) = (if x = y then 0 else Suc (position x ys))"

definition f_kind :: "ProtocolMessageKind format" where
  "f_kind = f_map (\<lambda>k. case k of Custom s \<Rightarrow> (9, s) | _ \<Rightarrow> (position k builtin_kinds, []))
     (\<lambda>(n, s). if n = 9 then Custom s else builtin_kinds ! n) (f_pair f_nat f_string)"

lemma f_kind_ok: "format_ok f_kind"
  unfolding f_kind_def
  by (intro format_intros basic_formats_ok) (auto simp: builtin_kinds_def split: ProtocolMessageKind.splits)

definition f_message :: "ProtocolMessage format" where
  "f_message = f_map
     (\<lambda>m. (pm_protocol_version m, pm_session_id m, pm_sender m, pm_recipient m, pm_kind m, pm_payload m))
     (\<lambda>(v, s, i, r, k, p). \<lparr>pm_protocol_version = v, pm_session_id = s, pm_sender = i, pm_recipient = r, pm_kind = k, pm_payload = p\<rparr>)
     (f_pair f_string (f_pair f_session (f_pair f_id (f_pair (f_option f_id) (f_pair f_kind f_bytes)))))"

definition f_htss_round1 :: "HtssDkgRound1Package format" where
  "f_htss_round1 = f_map (\<lambda>k. (hd1_participant_id k, hd1_rank k, hd1_commitment_bytes k))
     (\<lambda>(i, r, c). \<lparr>hd1_participant_id = i, hd1_rank = r, hd1_commitment_bytes = c\<rparr>) (f_pair f_id (f_pair f_u16 (f_list f_bytes)))"

definition f_htss_round2 :: "HtssDkgRound2Package format" where
  "f_htss_round2 = f_map (\<lambda>k. (hd2_sender k, hd2_recipient k, hd2_recipient_rank k, hd2_share_value_bytes k))
     (\<lambda>(i, r, n, b). \<lparr>hd2_sender = i, hd2_recipient = r, hd2_recipient_rank = n, hd2_share_value_bytes = b\<rparr>)
     (f_pair f_id (f_pair f_id (f_pair f_u16 f_bytes)))"

definition f_htss_nonce :: "HtssNoncePackage format" where
  "f_htss_nonce = f_map (\<lambda>k. (hn_participant_id k, hn_signing_session_id k, hn_public_nonce_bytes k))
     (\<lambda>(i, s, b). \<lparr>hn_participant_id = i, hn_signing_session_id = s, hn_public_nonce_bytes = b\<rparr>)
     (f_pair f_id (f_pair f_session f_bytes))"

definition f_htss_share :: "HtssSignatureSharePackage format" where
  "f_htss_share = f_map (\<lambda>k. (hss_participant_id k, hss_signing_session_id k, hss_signature_share_bytes k))
     (\<lambda>(i, s, b). \<lparr>hss_participant_id = i, hss_signing_session_id = s, hss_signature_share_bytes = b\<rparr>)
     (f_pair f_id (f_pair f_session f_bytes))"

lemma package_formats_ok:
  "format_ok f_message" "format_ok f_htss_round1" "format_ok f_htss_round2" "format_ok f_htss_nonce" "format_ok f_htss_share"
  unfolding f_message_def f_htss_round1_def f_htss_round2_def f_htss_nonce_def f_htss_share_def
  by (intro format_intros basic_formats_ok f_kind_ok; simp)+

definition demo_json :: "ProtocolMessage codec" where
  "demo_json = codec_of f_message"

lemma demo_json_ok: "json_ok demo_json"
proof -
  have "utf8_error 0 (to_text ns) = None" for ns by (rule ascii_utf8) (auto simp: to_text_def)
  then show ?thesis
    using codec_of_ok [OF package_formats_ok(1)] by (auto simp: json_ok_def demo_json_def codec_of_def)
qed

definition demo_codecs :: vault_codecs where
  "demo_codecs = \<lparr>vc_message = demo_json, vc_round1 = codec_of f_htss_round1, vc_round2 = codec_of f_htss_round2,
     vc_nonce = codec_of f_htss_nonce, vc_share = codec_of f_htss_share\<rparr>"

lemma demo_codecs_ok: "vault_codecs_ok demo_codecs"
  by (simp add: vault_codecs_ok_def demo_codecs_def demo_json_ok codec_of_ok package_formats_ok)

section \<open>The bitcoin crate over the reference group\<close>

definition option_err :: "string \<Rightarrow> 'a option \<Rightarrow> string + 'a" where
  "option_err e x = (case x of None \<Rightarrow> Inl e | Some y \<Rightarrow> Inr y)"

definition nonzero :: "string \<Rightarrow> gf \<Rightarrow> string + gf" where
  "nonzero e x = (if x = 0 then Inl e else Inr x)"

definition toy_hmac :: "bytes \<Rightarrow> bytes \<Rightarrow> bytes" where
  "toy_hmac key message = to_base 32 (int (length message) + uint (last message)) @ key"

definition toy_ckd_pub :: "gf Xpub \<Rightarrow> ChildNumber \<Rightarrow> string + gf Xpub" where
  "toy_ckd_pub x child = (case child of
      Hardened _ \<Rightarrow> Inl ''cannot derive hardened key from public key''
    | Normal i \<Rightarrow>
        let I = toy_hmac (xp_chain_code x) (toy_point_bytes (xp_public_key x) @ u32_to_be_bytes i) in
        rbind (option_err ''bad scalar'' (scalar_from_bytes toy (take 32 I))) (\<lambda>t.
        rbind (nonzero ''zero scalar'' t) (\<lambda>t.
        rbind (nonzero ''point at infinity'' (xp_public_key x + t)) (\<lambda>P.
        Inr (x\<lparr>xp_depth := xp_depth x + 1, xp_child_number := child, xp_public_key := P, xp_chain_code := drop 32 I\<rparr>)))))"

definition toy_btc :: "(gf, gf, gf \<times> Network) btc_lib" where
  "toy_btc = \<lparr>
     xonly_from_slice = (\<lambda>b. option_err ''malformed public key'' (from_xonly_bytes toy b)),
     xonly_serialize = to_xonly_bytes toy,
     x_only_public_key = even_y toy,
     pubkey_serialize = toy_point_bytes,
     add_exp_tweak = (\<lambda>P t. nonzero ''bad tweak'' (P + t)),
     secp_scalar_from_be_bytes = (\<lambda>b. option_err ''out of range'' (scalar_from_bytes toy b)),
     secret_from_slice = (\<lambda>b. rbind (option_err ''malformed secret key'' (scalar_from_bytes toy b)) (nonzero ''malformed secret key'')),
     secret_add_tweak = (\<lambda>a t. nonzero ''bad tweak'' (a + t)),
     secret_negate = uminus,
     secret_bytes = scalar_to_bytes toy,
     network_kind = (\<lambda>n. if n = Network.Bitcoin then NetworkKind.Main else NetworkKind.Test),
     from_hardened_idx = (\<lambda>i. if i < 2147483648 then Inr (Hardened i) else Inl ''invalid child number''),
     from_normal_idx = (\<lambda>i. if i < 2147483648 then Inr (Normal i) else Inl ''invalid child number''),
     ckd_pub = toy_ckd_pub,
     hmac_sha512 = toy_hmac,
     tap_tweak_hash = (\<lambda>P. P),
     tap_tweak = (\<lambda>P. even_y toy (P + P)),
     p2tr_tweaked = Pair,
     address_to_string = (\<lambda>(P, n). network_debug n @ show_nat (nat (gf_rep P))),
     xonly_to_string = (\<lambda>P. show_nat (nat (gf_rep P))),
     verify_schnorr = (\<lambda>b m X. schnorr_verify toy X m (of_int (from_base (take 32 b)), of_int (from_base (drop 32 b)))),
     signature_from_slice = (\<lambda>b. if length b = 64 then Inr b else Inl ''malformed signature''),
     sha256_digest = (\<lambda>b. to_base 32 (\<Sum>w\<leftarrow>b. uint w)),
     hex_encode = map (\<lambda>w. char_of (unat w)),
     hex_decode = (\<lambda>s. Inr (map of_char s))\<rparr>"

lemma option_err_Inr_iff: "option_err e x = Inr y \<longleftrightarrow> x = Some y"
  by (simp add: option_err_def split: option.splits)

lemma nonzero_Inr_iff: "nonzero e x = Inr y \<longleftrightarrow> y = x \<and> x \<noteq> 0"
  by (auto simp: nonzero_def)

lemma double_neq_0: "(P :: gf) \<noteq> 0 \<Longrightarrow> P + P \<noteq> 0"
  using gf_numeral_neq_0 [of "Num.Bit0 Num.One"] by (simp flip: mult_2)

lemma toy_curve_agrees: "curve_agrees toy toy_btc"
  unfolding curve_agrees_def
  by (intro conjI allI impI; simp only: toy_btc_def btc_lib.select_convs)
    (auto simp: option_err_Inr_iff nonzero_Inr_iff rbind_Inr_iff simp del: toy_simps(2,9))

lemma toy_bip341: "bip341_ok toy toy_btc"
  by (auto simp: bip341_ok_def toy_btc_def dest: double_neq_0)

lemma toy_bip32: "bip32_ok toy toy_btc"
proof -
  have "\<exists>t. scalar_from_bytes toy (take 32 I) = Some t \<and> t \<noteq> 0 \<and> xp_public_key x' = xp_public_key x + t
      \<and> xp_public_key x' \<noteq> 0 \<and> xp_chain_code x' = drop 32 I"
    if "toy_ckd_pub x (Normal i) = Inr x'" and "I = toy_hmac (xp_chain_code x) (toy_point_bytes (xp_public_key x) @ u32_to_be_bytes i)"
    for x i x' I
    using that by (auto simp: toy_ckd_pub_def Let_def rbind_Inr_iff option_err_Inr_iff nonzero_Inr_iff simp del: toy_simps(2))
  then show ?thesis by (simp add: bip32_ok_def toy_btc_def Let_def del: toy_simps(2))
qed

lemma toy_bip340: "bip340_ok toy toy_btc"
proof -
  have "of_int (from_base (take 32 (to_base 32 (gf_rep R) @ to_base 32 (gf_rep s)))) = R"
    "of_int (from_base (drop 32 (to_base 32 (gf_rep R) @ to_base 32 (gf_rep s)))) = s" for R s
    by (simp_all add: from_to_base_gf of_int_gf_rep)
  then show ?thesis by (auto simp: bip340_ok_def toy_btc_def)
qed

lemma toy_btc_laws: "btc_laws toy toy_btc"
  by (simp add: btc_laws_def toy_curve_agrees toy_bip341 toy_bip32 toy_bip340)

section \<open>A relay library\<close>

text \<open>
  Keys are numbers, the public key is the successor. A ciphertext is the plaintext behind
  the two public keys in a fixed order, and only a key of the pair opens it.
\<close>

definition toy_pair :: "nat \<Rightarrow> nat \<Rightarrow> string" where
  "toy_pair a b = show_nat (min a b) @ '':'' @ show_nat (max a b) @ '':''"

definition toy_nostr :: "(nat, nat, string \<times> string list list, unit) nostr_lib" where
  "toy_nostr = \<lparr>public_key = Suc,
     nip44_encrypt = (\<lambda>_ k pk p. Inr (toy_pair (Suc k) pk @ p)),
     nip44_decrypt = (\<lambda>k pk c. if take (length (toy_pair (Suc k) pk)) c = toy_pair (Suc k) pk
        then Inr (drop (length (toy_pair (Suc k) pk)) c) else Inl ''invalid mac''),
     tag_parse = (\<lambda>t. if t = [] then Inl ''empty tag'' else Inr t),
     tag_hashtag = (\<lambda>s. [''t'', s]),
     tag_public_key = (\<lambda>pk. [''p'', show_nat pk]),
     build_event = (\<lambda>k content tags. \<lparr>ev_id = (content, tags), ev_pubkey = Suc k, ev_tags = tags, ev_content = content\<rparr>),
     match_event = (\<lambda>(kind, h) e. kind = 30333 \<and> list_ex (\<lambda>tag. take 2 tag = [''t'', h]) (ev_tags e))\<rparr>"

lemma toy_pair_sym: "toy_pair a b = toy_pair b a"
  by (simp add: toy_pair_def min.commute max.commute)

lemma toy_nostr_laws: "nostr_laws toy_nostr"
proof -
  have "take (length (toy_pair (Suc k') (Suc k))) (toy_pair (Suc k) (Suc k') @ p) = toy_pair (Suc k') (Suc k)"
    "drop (length (toy_pair (Suc k') (Suc k))) (toy_pair (Suc k) (Suc k') @ p) = p" for k k' p
    by (simp_all add: toy_pair_sym [of "Suc k" "Suc k'"])
  then show ?thesis by (simp add: nostr_laws_def toy_nostr_def)
qed

lemma toy_subscription_laws: "subscription_laws toy_nostr"
proof -
  have "take 2 tag = [''t'', h] \<longleftrightarrow> (\<exists>rest. tag = ''t'' # h # rest)" for tag :: "string list" and h
    by (cases tag; cases "tl tag") auto
  then show ?thesis
    by (simp add: subscription_laws_def toy_nostr_def DKGKIT_NOSTR_EVENT_KIND_def list_ex_iff) blast
qed

section \<open>A vault policy\<close>

text \<open>The participants of \<open>demo_config\<close>: one signer of rank 0 and one of the two of rank 1.\<close>

definition vault_policy :: GroupedThresholdConfig where
  "vault_policy = \<lparr>gc_participants = hc_participants demo_config,
     gc_requirements = [\<lparr>gr_rank = Rank 0, gr_required = 1, gr_total = 1\<rparr>, \<lparr>gr_rank = Rank 1, gr_required = 1, gr_total = 2\<rparr>]\<rparr>"

lemma vault_policy_validated: "gc_validated vault_policy"
  by (simp add: gc_validated_def gc_wf_def vault_policy_def demo_config_def)

lemma vault_policy_config:
  "hierarchical_config_from_grouped_threshold vault_policy = Inr demo_config"
  using hierarchical_config_from_grouped_validated(1) [OF vault_policy_validated]
  by (simp add: vault_policy_def gc_required_signer_count_def demo_config_def)

lemma vault_policy_quorum: "validate_grouped_threshold_signer_set demo_signers vault_policy = Inr ()"
  by code_simp

definition demo_vault :: InMemoryVaultService where
  "demo_vault = projr (vault_new ''vault'' ''dkg'' ''regtest'' (replicate 32 42) vault_policy)"

lemma demo_vault_new: "vault_new ''vault'' ''dkg'' ''regtest'' (replicate 32 42) vault_policy = Inr demo_vault"
  "svc_config (vs_dkg demo_vault) = demo_config"
proof -
  have "SessionId_new ''dkg'' = Inr (SessionId ''dkg'')" by code_simp
  then show "vault_new ''vault'' ''dkg'' ''regtest'' (replicate 32 42) vault_policy = Inr demo_vault"
    "svc_config (vs_dkg demo_vault) = demo_config"
    by (simp_all add: demo_vault_def vault_new_def vault_policy_config HtssDkgService_new_def)
qed

section \<open>Tweaks of the demonstration key\<close>

definition demo_account :: BitcoinAccountKey where
  "demo_account = BitcoinAccountKey_new (ks_group_key demo_keys) (replicate 32 42)"

lemma gf_zero_neq_numeral: "0 = (numeral m :: gf) \<longleftrightarrow> numeral m mod (65537 :: int) = 0"
  by (subst eq_commute) (rule gf_numeral_neq_0)

lemma toy_base_scalar: "0 \<le> v \<Longrightarrow> v < 65537 \<Longrightarrow> scalar_from_bytes toy (to_base 32 v) = Some (of_int v)"
  by (simp add: from_to_base)

lemma demo_from_xonly: "from_xonly_bytes toy (gk_xonly_public_key (ks_group_key demo_keys)) = Some 4"
  by (simp add: demo_keys_def from_to_base gf_numeral_neq_0)

lemma toy_child:
  "toy_ckd_pub x (Normal 0) = rbind (nonzero ''point at infinity'' (xp_public_key x + 37)) (\<lambda>P.
     Inr (x\<lparr>xp_depth := xp_depth x + 1, xp_child_number := Normal 0, xp_public_key := P, xp_chain_code := xp_chain_code x\<rparr>))"
  "bip32_step toy_btc 0 (cc, P, acc) = rbind (anyhow_err ''BIP32 point derivation failed: '' (nonzero ''bad tweak'' (P + 37))) (\<lambda>P.
     rbind (case acc of None \<Rightarrow> Inr 37
       | Some a \<Rightarrow> anyhow_err ''BIP32 tweak accumulation failed: '' (nonzero ''bad tweak'' (a + 37))) (\<lambda>a. Inr (cc, P, Some a)))"
proof -
  have h: "toy_hmac key (toy_point_bytes P @ u32_to_be_bytes 0) = to_base 32 37 @ key" for key P
    by (simp add: toy_hmac_def toy_point_bytes_def u32_to_be_bytes_def)
  show "toy_ckd_pub x (Normal 0) = rbind (nonzero ''point at infinity'' (xp_public_key x + 37)) (\<lambda>P.
     Inr (x\<lparr>xp_depth := xp_depth x + 1, xp_child_number := Normal 0, xp_public_key := P, xp_chain_code := xp_chain_code x\<rparr>))"
    unfolding toy_ckd_pub_def ChildNumber.case Let_def h
    by (simp add: toy_base_scalar option_err_def nonzero_def gf_numeral_neq_0 del: toy_simps(2))
  show "bip32_step toy_btc 0 (cc, P, acc) = rbind (anyhow_err ''BIP32 point derivation failed: '' (nonzero ''bad tweak'' (P + 37))) (\<lambda>P.
     rbind (case acc of None \<Rightarrow> Inr 37
       | Some a \<Rightarrow> anyhow_err ''BIP32 tweak accumulation failed: '' (nonzero ''bad tweak'' (a + 37))) (\<lambda>a. Inr (cc, P, Some a)))"
    by (simp add: bip32_step_def toy_btc_def h toy_base_scalar option_err_def anyhow_err_def nonzero_def gf_numeral_neq_0
        del: toy_simps(2) split: option.splits)
qed

lemma demo_child_tweak: "is_ok (taproot_child_key_tweak toy_btc demo_account ''regtest'' (bip86 0 0 0))"
proof -
  have "xonly_from_slice toy_btc (gk_xonly_public_key (bak_group_key demo_account)) = Inr 4"
    using demo_from_xonly by (simp add: toy_btc_def demo_account_def BitcoinAccountKey_new_def option_err_def del: toy_simps(9))
  then have acct: "\<exists>a. account_xpub toy_btc demo_account Regtest (bip86 0 0 0) = Inr a \<and> xp_public_key a = 4
      \<and> xp_chain_code a = bak_chain_code demo_account"
    by (simp add: account_xpub_def anyhow_err_def bip86_def) (simp add: toy_btc_def)
  have child: "derive_child toy_btc 0 x = anyhow_err ''failed to derive public child key: '' (toy_ckd_pub x (Normal 0))" for x
    by (simp add: derive_child_def anyhow_err_def) (simp add: toy_btc_def)
  from acct show ?thesis
    by (auto simp: taproot_child_key_tweak_def parse_network_def bip86_def child toy_child nonzero_def anyhow_err_def
        gf_numeral_neq_0 output_tweak_def Let_def is_ok_iff) (auto simp: toy_btc_def nonzero_def gf_numeral_neq_0)
qed

lemma demo_payment_tweaks:
  "is_ok (silent_payment_output_tweak toy_btc (ks_group_key demo_keys) (to_base 32 9))"
  "is_ok (silent_payment_leaf_tweak toy_btc (ks_group_key demo_keys) (to_base 32 9))"
proof -
  have p: "silent_payment_point toy_btc (ks_group_key demo_keys) (to_base 32 9) = Inr (9, 13)"
    using demo_from_xonly by (simp add: silent_payment_point_def toy_btc_def toy_base_scalar option_err_def anyhow_err_def
        nonzero_def gf_numeral_neq_0 del: toy_simps(2,9))
  show "is_ok (silent_payment_output_tweak toy_btc (ks_group_key demo_keys) (to_base 32 9))"
    "is_ok (silent_payment_leaf_tweak toy_btc (ks_group_key demo_keys) (to_base 32 9))"
    unfolding silent_payment_output_tweak_def silent_payment_leaf_tweak_def p
    by (simp_all add: output_tweak_def toy_btc_def nonzero_def gf_numeral_neq_0 gf_zero_neq_numeral anyhow_err_def is_ok_iff)
qed

section \<open>A FROST library\<close>

text \<open>
  Signers that hold additive shares of the key: the aggregate nonce is the sum of the
  nonces, a signature share is the nonce plus the challenge times the share.
\<close>

definition f_gf :: "gf format" where
  "f_gf = f_map (\<lambda>x. nat (gf_rep x)) of_nat f_nat"

lemma f_gf_ok: "format_ok f_gf"
proof -
  have "of_nat (nat (gf_rep x)) = x" for x :: gf
    using gf_rep_range [of x] of_int_gf_rep [of x] by (metis of_int_of_nat_eq of_nat_nat)
  then show ?thesis unfolding f_gf_def by (intro format_intros)
qed

definition toy_bincode :: "(gf, unit, gf, gf, gf, gf \<times> gf) bincode_lib" where
  "toy_bincode = \<lparr>bc_scalar = codec_of f_gf, bc_keygen_input = \<lparr>to_vec = \<lambda>_. Inr [], from_slice = \<lambda>_. Inr ()\<rparr>,
     bc_paired_share = codec_of f_gf, bc_shared_key = codec_of f_gf, bc_nonce = codec_of f_gf,
     bc_signature = codec_of (f_pair f_gf f_gf)\<rparr>"

definition toy_frost ::
    "(gf, gf, gf, gf, gf, gf, gf set \<times> gf, gf \<times> gf \<times> bytes, gf \<times> gf, gf) signing_lib" where
  "toy_frost = \<lparr>seed_nonce_rng = (\<lambda>r _ _. r), gen_nonce = (\<lambda>r. r), nonce_public = (\<lambda>k. k), shared_public_key = (\<lambda>X. X),
     coordinator_sign_session = (\<lambda>_ nonces _. Inr (dom nonces, \<Sum>i\<in>dom nonces. the (nonces i))),
     session_parties = fst, session_agg_binonce = snd,
     party_sign_session = (\<lambda>X _ R m. (X, R, m)),
     party_sign = (\<lambda>(X, R, m) d k. Inr (k + toy_challenge R X m * d)),
     verify_and_combine = (\<lambda>s X shares. Inr (snd s, \<Sum>i\<in>dom shares. the (shares i)))\<rparr>"

definition solo_key :: GroupKey where
  "solo_key = \<lparr>gk_xonly_public_key = to_base 32 4, gk_verification_key_bytes = to_text (wr f_gf 4)\<rparr>"

definition solo_request :: SigningRequest where
  "solo_request = \<lparr>sr_session_id = demo_session, sr_group_key = solo_key, sr_message_digest = [5], sr_signer_set = [ParticipantId 1]\<rparr>"

definition solo_share :: LocalKeyShare where
  "solo_share = \<lparr>lks_participant_id = ParticipantId 1, lks_group_key = solo_key, lks_secret_share_bytes = to_text (wr f_gf 4)\<rparr>"

definition solo_nonce :: NoncePackage where
  "solo_nonce = \<lparr>np_participant_id = ParticipantId 1, np_signing_session_id = demo_session, np_public_nonce_bytes = to_text (wr f_gf 6)\<rparr>"

abbreviation solo_session :: "gf option \<Rightarrow> gf FrostSigningSession" where
  "solo_session k \<equiv> \<lparr>fss_request = solo_request, fss_nonce_runtime = k\<rparr>"

lemma gf_codec_simps: "to_vec (codec_of f_gf) x = Inr (to_text (wr f_gf x))" "from_slice (codec_of f_gf) (to_text (wr f_gf x)) = Inr x"
  using f_gf_ok of_to_text by (simp_all add: codec_of_def format_ok_def) (metis append.right_neutral fst_conv)

lemma solo_nonce_call: "fss_nonce toy_bincode toy_frost 6 (solo_session k) solo_share = (solo_session (Some 6), Inr solo_nonce)"
  by (simp add: fss_nonce_def solo_share_def solo_request_def toy_bincode_def toy_frost_def decode_binary_def encode_binary_def
      gf_codec_simps map_serialization_err_def solo_nonce_def Let_def)

lemma solo_share_call:
  "\<exists>sh. fss_sign_share toy_bincode toy_frost (solo_session (Some 6)) solo_share [solo_nonce] = (solo_session None, Inr sh)"
  by (simp add: fss_sign_share_def sign_with_nonce_def solo_share_def solo_request_def solo_nonce_def solo_key_def toy_bincode_def
      toy_frost_def decode_binary_def encode_binary_def gf_codec_simps map_serialization_err_def nonces_to_map_def insert_nonce_def
      participant_share_index_def non_zero_def expect_def lift_err_def or_panic_def Let_def ensure_def scalar_from_u32_def)

lemma solo_run:
  "\<exists>sh. signing_run toy_bincode toy_frost solo_request (solo_session None)
     [ShareCall (Inr sh), NonceCall (Inr solo_nonce), ShareCall (Inr sh), NonceCall (Inr solo_nonce)]"
proof -
  from solo_share_call obtain sh
    where sh: "fss_sign_share toy_bincode toy_frost (solo_session (Some 6)) solo_share [solo_nonce] = (solo_session None, Inr sh)" by blast
  have "signing_run toy_bincode toy_frost solo_request (solo_session None) []"
    using signing_run.start [of toy_bincode toy_frost solo_request] by (simp add: FrostSigningSession_new_def)
  then have "signing_run toy_bincode toy_frost solo_request (solo_session None) [ShareCall (Inr sh), NonceCall (Inr solo_nonce)]"
    by (rule signing_run.sign_share [OF signing_run.nonce [OF _ solo_nonce_call] sh])
  then have "signing_run toy_bincode toy_frost solo_request (solo_session None)
      [ShareCall (Inr sh), NonceCall (Inr solo_nonce), ShareCall (Inr sh), NonceCall (Inr solo_nonce)]"
    by (rule signing_run.sign_share [OF signing_run.nonce [OF _ solo_nonce_call] sh])
  then show ?thesis by blast
qed

section \<open>A live transport\<close>

definition demo_live_config :: "(nat, nat) LiveNostrTransportConfig" where
  "demo_live_config = \<lparr>lc_relays = [''ws://127.0.0.1:7777''], lc_vault_tag = ''vault'', lc_self_id = ParticipantId 1, lc_keys = 10,
     lc_directory = [ParticipantId 1 \<mapsto> 11, ParticipantId 2 \<mapsto> 21], lc_connect_timeout = 5, lc_publish_timeout = 5\<rparr>"

text \<open>Participant 2 of the same vault.\<close>

definition demo_receiver_config :: "(nat, nat) LiveNostrTransportConfig" where
  "demo_receiver_config = demo_live_config\<lparr>lc_self_id := ParticipantId 2, lc_keys := 20\<rparr>"

definition demo_live :: "(nat, nat) LiveNostrTransport" where
  "demo_live = fst (lt_connect (Some (Inr ())) (LiveNostrTransport_new demo_live_config))"

definition demo_secret :: ProtocolMessage where
  "demo_secret = ProtocolMessage_direct demo_session (ParticipantId 1) (ParticipantId 2) HtssDkgRound2 [7]"

lemma demo_secret_simps: "pm_kind demo_secret = HtssDkgRound2" "pm_recipient demo_secret = Some (ParticipantId 2)"
    "pm_sender demo_secret = ParticipantId 1" "pm_session_id demo_secret = demo_session"
  by (simp_all add: demo_secret_def ProtocolMessage_direct_def)

lemma demo_secret_deliverable: "deliverable demo_secret"
  using kind_names(2) by (simp add: deliverable_def demo_secret_simps demo_session_def named_def white1_def white2_def white3_def)

lemma demo_published: "\<exists>s' content tags. lt_publish demo_json toy_nostr () True (Some (Inr ())) demo_live demo_secret = (s', Inr (), Some (content, tags))"
proof -
  from envelope_roundtrip [OF demo_json_ok demo_secret_deliverable] obtain env
    where "NostrEnvelopeEvent_from_protocol_message demo_json demo_secret = Inr env" by blast
  moreover have "lt_cfg demo_live = demo_live_config" "lt_cmd_tx demo_live"
    by (simp_all add: demo_live_def lt_connect_def LiveNostrTransport_new_def)
  moreover have "nip44_encrypt toy_nostr () k pk p = Inr (toy_pair (Suc k) pk @ p)" for k pk p by (simp add: toy_nostr_def)
  ultimately show ?thesis
    by (simp add: lt_publish_def sealed_event_def lift_err_def demo_secret_simps is_secret_kind_def directory_get_def
        demo_live_config_def encrypt_for_def build_event_tags_eq [OF toy_nostr_laws])
qed

lemma demo_received: "\<exists>e. event_message demo_json toy_nostr 20 (ParticipantId 2) e = Some demo_secret"
proof -
  from demo_published obtain s' content tags
    where p: "lt_publish demo_json toy_nostr () True (Some (Inr ())) demo_live demo_secret = (s', Inr (), Some (content, tags))" by blast
  have cfg: "lt_cfg demo_live = demo_live_config" by (simp add: demo_live_def lt_connect_def LiveNostrTransport_new_def)
  have key: "public_key toy_nostr 20 = 21" by (simp add: toy_nostr_def)
  from event_delivered [OF toy_nostr_laws demo_json_ok demo_secret_deliverable lt_publish_sealed [OF p], of "ParticipantId 2" 20]
  show ?thesis by (auto simp: cfg demo_live_config_def key is_for_def demo_secret_simps)
qed

end
