(* ===== verification/Frost_Agreement.thy ===== *)
theory Frost_Agreement
  imports Sdk
begin

text \<open>
  Agreement of the FROST key generation: participants that worked from the same round 1
  packages, in whatever order they received them, end with the same group key. The ordered
  map of \<open>DkgRuntime\<close> is what makes the order irrelevant. The local run of the SDK then
  gives one share for each participant, all of one key.
\<close>

section \<open>Ordered maps forget the order of insertion\<close>

lemma btree_insert_sorted:
  "sorted_wrt (<) (map fst bs) \<Longrightarrow> sorted_wrt (<) (map fst (btree_insert k v bs))"
proof (induction bs)
  case (Cons b bs)
  then have "\<forall>x\<in>fst ` set (btree_insert k v bs). fst b < x" if "fst b < k"
    using that by (auto simp: btree_insert_keys)
  with Cons show ?case by auto
qed simp

lemma btree_of_sorted: "sorted_wrt (<) (map fst (btree_of kvs))"
proof -
  have "sorted_wrt (<) (map fst (fold (\<lambda>(k, v). btree_insert k v) kvs bs))" if "sorted_wrt (<) (map fst bs)" for bs :: "('a \<times> 'b) list"
    using that by (induction kvs arbitrary: bs) (auto simp: btree_insert_sorted)
  then show ?thesis by (simp add: btree_of_def)
qed

lemma key_ordered_unique:
  fixes kvs kvs' :: "('k::linorder \<times> 'v) list"
  assumes "sorted_wrt (<) (map fst kvs)" "sorted_wrt (<) (map fst kvs')" "set kvs = set kvs'"
  shows "kvs = kvs'"
proof (rule map_sorted_distinct_set_unique [of fst])
  show "inj_on fst (set kvs \<union> set kvs')" using assms by (simp add: strict_sorted_iff distinct_map)
qed (use assms in \<open>simp_all add: strict_sorted_iff\<close>)

lemma btree_of_perm:
  assumes d: "distinct (map fst kvs)" and perm: "mset kvs = mset kvs'"
  shows "btree_of kvs = btree_of kvs'"
proof (rule key_ordered_unique [OF btree_of_sorted btree_of_sorted])
  from perm have "mset (map fst kvs) = mset (map fst kvs')" by simp
  with d have d': "distinct (map fst kvs')" using mset_eq_imp_distinct_iff by blast
  show "set (btree_of kvs) = set (btree_of kvs')"
    using mset_eq_setD [OF btree_of_mset [OF d]] mset_eq_setD [OF btree_of_mset [OF d']] mset_eq_setD [OF perm] by simp
qed

lemma btree_of_id: "sorted_wrt (<) (map fst kvs) \<Longrightarrow> btree_of kvs = kvs"
  using btree_of_mset [of kvs] by (intro key_ordered_unique btree_of_sorted) (auto simp: strict_sorted_iff dest: mset_eq_setD)

section \<open>Agreement\<close>

text \<open>What round 2 leaves in the session.\<close>

definition keyed :: "Round1Package list \<Rightarrow> (ParticipantId \<times> Round1Package) list" where
  "keyed pkgs = map (\<lambda>package. (r1_participant_id package, package)) pkgs"

lemma fds_round2_session:
  assumes "fds_round2 oc B K s pkgs = (s', Inr out)"
  shows "validate_round1_set s pkgs = Inr ()" "fds_config s' = fds_config s"
    "\<exists>runtime. fds_runtime s' = Some runtime \<and> dr_round1_packages runtime = btree_of (keyed pkgs)"
  using assms by (auto simp: fds_round2_def keyed_def Let_def rbind_Inr_iff split: sum.splits option.splits)

text \<open>The key of a share comes from the stored round 1 packages and the threshold only.\<close>

definition key_of_round1 ::
    "bool \<Rightarrow> ('f, 'ki, 'ps, 'sk, 'nn, 'sg) bincode_lib \<Rightarrow> ('f, 'ct, 'ki, 'co, 'ag, 'ps, 'sk, 'r) keygen_lib
      \<Rightarrow> ThresholdConfig \<Rightarrow> Round1Package list \<Rightarrow> GroupKey \<Rightarrow> bool" where
  "key_of_round1 oc B K tc pkgs gk \<longleftrightarrow> (\<exists>co ag sk.
     try_for (add_round1_input oc (bc_keygen_input B) K) pkgs
       (coordinator_new K (ucast (tc_threshold tc)) (ucast (tc_participants tc))) = Inr co
     \<and> finish K co = Some ag \<and> key_non_zero K (agg_shared_key K ag) = Some sk
     \<and> gk_xonly_public_key gk = key_xonly_bytes K (key_into_xonly K sk)
     \<and> encode_binary (bc_shared_key B) (key_into_xonly K sk) = Inr (gk_verification_key_bytes gk))"

lemma key_of_round1_unique:
  "key_of_round1 oc B K tc pkgs gk \<Longrightarrow> key_of_round1 oc B K tc pkgs gk' \<Longrightarrow> gk = gk'"
  by (auto simp: key_of_round1_def)

lemma fds_finalize_key:
  assumes "fds_finalize oc B K s r2 = Inr share" "fds_runtime s = Some runtime"
  shows "key_of_round1 oc B K (dsc_threshold (fds_config s)) (map snd (dr_round1_packages runtime)) (lks_group_key share)"
    "lks_participant_id share = fds_id s"
  using assms
  by (auto simp: fds_finalize_def aggregate_keygen_inputs_def key_of_round1_def rbind_Inr_iff ok_or_Inr_iff lift_err_Inr_iff)

lemma frost_keys_agree:
  assumes r2: "fds_round2 oc B K s1 pkgs1 = (s1', Inr out1)" "fds_round2 oc B K s2 pkgs2 = (s2', Inr out2)"
    and same: "dsc_threshold (fds_config s1) = dsc_threshold (fds_config s2)" "mset pkgs1 = mset pkgs2"
    and fin: "fds_finalize oc B K s1' in1 = Inr share1" "fds_finalize oc B K s2' in2 = Inr share2"
  shows "lks_group_key share1 = lks_group_key share2"
proof -
  note s1 = fds_round2_session [OF r2(1)] and s2 = fds_round2_session [OF r2(2)]
  have "distinct (map fst (keyed pkgs1))" using s1(1) by (simp add: keyed_def o_def validate_round1_set_iff)
  moreover have "mset (keyed pkgs1) = mset (keyed pkgs2)" using same(2) by (simp add: keyed_def)
  ultimately have "btree_of (keyed pkgs1) = btree_of (keyed pkgs2)" by (rule btree_of_perm)
  with s1(2,3) s2(2,3) same(1) fds_finalize_key(1) [OF fin(1)] fds_finalize_key(1) [OF fin(2)] show ?thesis
    by (auto intro: key_of_round1_unique)
qed

section \<open>The local run\<close>

lemma call_Inr_iff: "call sr = Inr y \<longleftrightarrow> sr = (fst y, Inr (snd y))"
  by (cases sr, cases y) (auto simp: call_def rbind_Inr_iff)

lemma create_frost_session_Inr:
  assumes "create_frost_session sid t n i = Inr s"
  shows "fds_id s = ParticipantId i" "dsc_threshold (fds_config s) = \<lparr>tc_threshold = t, tc_participants = n\<rparr>"
  using assms
  by (auto simp: create_frost_session_def FrostDkgSession_new_def rbind_Inr_iff ParticipantId_new_def ThresholdConfig_new_Inr_iff
      split: if_splits)

lemma fds_round1_config: "fds_round1 oc C B K r s = (s', x) \<Longrightarrow> fds_config s' = fds_config s"
  by (auto simp: fds_round1_def split: sum.splits prod.splits)

text \<open>A run that ends has one share for each participant, in order, and they agree on the key.\<close>

lemma run_local_frost_dkg_shares:
  assumes "run_local_frost_dkg oc C B K rng sid t n = Inr shares"
  shows "map lks_participant_id shares = map (\<lambda>i. ParticipantId (as_u16 i)) [1..<Suc (unat n)]"
    "a \<in> set shares \<Longrightarrow> b \<in> set shares \<Longrightarrow> lks_group_key a = lks_group_key b"
proof -
  let ?tc = "\<lparr>tc_threshold = t, tc_participants = n\<rparr>"
  from assms obtain sessions after1 after2 where
    s: "list_all2 (\<lambda>i s. create_frost_session sid t n (as_u16 i) = Inr s) [1..<Suc (unat n)] sessions"
    and a1: "list_all2 (\<lambda>(i, s) (s', p). fds_round1 oc C B K (rng i) s = (s', Inr p)) (enumerate 0 sessions) after1"
    and a2: "list_all2 (\<lambda>s (s', p). fds_round2 oc B K s (map snd after1) = (s', Inr p)) (map fst after1) after2"
    and fin: "list_all2 (\<lambda>s share. fds_finalize oc B K s (concat (map snd after2)) = Inr share) (map fst after2) shares"
    unfolding run_local_frost_dkg_def rbind_Inr_iff collect_Inr_iff lift_err_Inr_iff Let_def case_prod_unfold call_Inr_iff
    by blast
  note len = list_all2_lengthD [OF s] list_all2_lengthD [OF a1] list_all2_lengthD [OF a2] list_all2_lengthD [OF fin]
  have config: "fds_id (fst (after1 ! k)) = ParticipantId (as_u16 (Suc k)) \<and> dsc_threshold (fds_config (fst (after1 ! k))) = ?tc"
    if "k < unat n" for k
  proof -
    from list_all2_nthD [OF s, of k] that have "create_frost_session sid t n (as_u16 (Suc k)) = Inr (sessions ! k)" by (simp del: upt_Suc)
    moreover from list_all2_nthD [OF a1, of k] that len(1,2) have "fds_config (fst (after1 ! k)) = fds_config (sessions ! k)"
      by (auto simp: nth_enumerate_eq case_prod_unfold intro: fds_round1_config)
    ultimately show ?thesis by (simp add: create_frost_session_Inr)
  qed
  have r2: "fds_round2 oc B K (fst (after1 ! k)) (map snd after1) = (fst (after2 ! k), Inr (snd (after2 ! k)))"
    and f: "fds_finalize oc B K (fst (after2 ! k)) (concat (map snd after2)) = Inr (shares ! k)" if "k < unat n" for k
    using list_all2_nthD [OF a2, of k] list_all2_nthD [OF fin, of k] that len by (auto simp: case_prod_unfold)
  have "lks_participant_id (shares ! k) = ParticipantId (as_u16 (Suc k))" if k: "k < unat n" for k
    using fds_round2_session(2,3) [OF r2 [OF k]] fds_finalize_key(2) [OF f [OF k]] config [OF k] by auto
  then show "map lks_participant_id shares = map (\<lambda>i. ParticipantId (as_u16 i)) [1..<Suc (unat n)]"
    using len by (intro nth_equalityI) (simp_all del: upt_Suc)
  show "lks_group_key a = lks_group_key b" if "a \<in> set shares" "b \<in> set shares"
  proof -
    from that obtain i j where ij: "i < unat n" "j < unat n" "a = shares ! i" "b = shares ! j"
      using len by (auto simp: in_set_conv_nth simp del: upt_Suc)
    with frost_keys_agree [OF r2 r2 _ _ f f, of i j] config show ?thesis by simp
  qed
qed

section \<open>The sessions calls can reach\<close>

text \<open>Any calls of \<open>round1\<close> and \<open>round2\<close> on one session, with any arguments and results.\<close>

inductive dkg_run ::
    "bool \<Rightarrow> ('f::field, 'p) secp \<Rightarrow> ('f, 'ki, 'ps, 'sk, 'nn, 'sg) bincode_lib
      \<Rightarrow> ('f, 'ct, 'ki, 'co, 'ag, 'ps, 'sk, 'r) keygen_lib \<Rightarrow> DkgSessionConfig \<Rightarrow> 'ct FrostDkgSession \<Rightarrow> bool"
  for oc C B K config where
  created: "dkg_run oc C B K config (FrostDkgSession_new config)"
| round1: "dkg_run oc C B K config s \<Longrightarrow> fds_round1 oc C B K rng s = (s', r) \<Longrightarrow> dkg_run oc C B K config s'"
| round2: "dkg_run oc C B K config s \<Longrightarrow> fds_round2 oc B K s pkgs = (s', r) \<Longrightarrow> dkg_run oc C B K config s'"

text \<open>
  The round 1 map is ordered, binds every package to its own participant, and is either the
  local package alone or complete; shares wait for proper participants only.
\<close>

definition runtime_typed :: "DkgSessionConfig \<Rightarrow> 'ct DkgRuntime \<Rightarrow> bool" where
  "runtime_typed config rt \<longleftrightarrow>
     sorted_wrt (<) (map fst (dr_round1_packages rt)) \<and> (\<forall>(k, p)\<in>set (dr_round1_packages rt). r1_participant_id p = k)
     \<and> (map fst (dr_round1_packages rt) = [dsc_participant_id config]
        \<or> length (dr_round1_packages rt) = unat (tc_participants (dsc_threshold config))
          \<and> (\<forall>(k, p)\<in>set (dr_round1_packages rt). pid_val k \<le> tc_participants (dsc_threshold config)))
     \<and> (\<forall>share\<in>set (dr_pending_secret_shares rt). pid_val (pss_recipient share) \<noteq> 0)"

definition session_typed :: "DkgSessionConfig \<Rightarrow> 'ct FrostDkgSession \<Rightarrow> bool" where
  "session_typed config s \<longleftrightarrow> fds_config s = config \<and> (\<forall>rt. fds_runtime s = Some rt \<longrightarrow> runtime_typed config rt)"

lemma pending_share_recipient: "pending_secret_share C B e = Inr share \<Longrightarrow> pid_val (pss_recipient share) \<noteq> 0"
  by (auto simp: pending_secret_share_def participant_id_from_scalar_bytes_def rbind_Inr_iff Let_def ParticipantId_new_def
      split: prod.splits if_splits)

lemma session_typed_round1:
  assumes "session_typed config s" "fds_round1 oc C B K rng s = (s', r)"
  shows "session_typed config s'"
proof (cases r)
  case (Inl f)
  with assms show ?thesis by (auto simp: fds_round1_def split: sum.splits prod.splits)
next
  case (Inr pkg)
  with assms(2) obtain ct pending es where s': "s' = s\<lparr>fds_runtime := Some \<lparr>dr_contributor = ct, dr_pending_secret_shares = pending,
      dr_round1_packages = [(fds_id s, pkg)]\<rparr>\<rparr>" "r1_participant_id pkg = fds_id s"
    "collect (pending_secret_share C (bc_scalar B)) es = Inr pending"
    by (auto simp: fds_round1_def rbind_Inr_iff Let_def lift_err_Inr_iff case_prod_unfold split: sum.splits)
  have "\<forall>share\<in>set pending. pid_val (pss_recipient share) \<noteq> 0"
    using s'(3) by (auto simp: collect_Inr_iff list_all2_conv_all_nth in_set_conv_nth dest!: pending_share_recipient)
  with assms(1) s'(1,2) show ?thesis by (simp add: session_typed_def runtime_typed_def)
qed

lemma session_typed_round2:
  assumes "session_typed config s" "fds_round2 oc B K s pkgs = (s', r)"
  shows "session_typed config s'"
proof (cases "validate_round1_set s pkgs = Inr () \<and> fds_runtime s \<noteq> None")
  case False
  with assms show ?thesis by (auto simp: fds_round2_def split: sum.splits option.splits)
next
  case True
  then obtain rt where rt: "fds_runtime s = Some rt" and v: "validate_round1_set s pkgs = Inr ()" by auto
  with assms(2) have s': "s' = s\<lparr>fds_runtime := Some (rt\<lparr>dr_round1_packages := btree_of (keyed pkgs)\<rparr>)\<rparr>"
    by (simp add: fds_round2_def keyed_def Let_def)
  from v have acc: "length pkgs = unat (fds_n s)" "\<forall>p\<in>set pkgs. pid_val (r1_participant_id p) \<le> fds_n s"
    "distinct (map r1_participant_id pkgs)" by (simp_all add: validate_round1_set_iff)
  then have perm: "mset (btree_of (keyed pkgs)) = mset (keyed pkgs)" by (intro btree_of_mset) (simp add: keyed_def o_def)
  then have "set (btree_of (keyed pkgs)) = set (keyed pkgs)" "length (btree_of (keyed pkgs)) = length pkgs"
    using mset_eq_setD [OF perm] mset_eq_length [OF perm] by (simp_all add: keyed_def)
  with assms(1) rt acc show ?thesis
    by (auto simp: session_typed_def runtime_typed_def s' btree_of_sorted keyed_def)
qed

lemma dkg_run_typed: "dkg_run oc C B K config s \<Longrightarrow> session_typed config s"
proof (induction rule: dkg_run.induct)
  case created
  show ?case by (simp add: session_typed_def FrostDkgSession_new_def)
qed (rule session_typed_round1 session_typed_round2; assumption)+

end
