(* ===== verification/Frost_Honest.thy ===== *)
theory Frost_Honest
  imports Frost_Agreement
begin

text \<open>
  The FROST key generation when everybody follows it. \<open>keygen_laws\<close> says what
  \<open>simplepedpop\<close> promises for inputs it generated itself; the code around it (indices,
  pending shares, byte encodings, the filter by recipient, the ordered map) then brings every
  participant to its share. Participant \<open>i\<close> is at position \<open>i - 1\<close>.
\<close>

section \<open>What the libraries are relied on for\<close>

definition party :: "nat \<Rightarrow> ParticipantId" where
  "party i = ParticipantId (as_u16 i)"

definition party_indices :: "nat \<Rightarrow> 'f::field list" where
  "party_indices n = map of_nat [1..<Suc n]"

text \<open>The contributor at position \<open>j\<close>: its input for everybody and its secret shares by index.\<close>

definition contribution ::
    "('f::field, 'ct, 'ki, 'co, 'ag, 'ps, 'sk, 'r) keygen_lib \<Rightarrow> u32 \<Rightarrow> nat \<Rightarrow> (nat \<Rightarrow> 'r) \<Rightarrow> nat
      \<Rightarrow> 'ct \<times> 'ki \<times> ('f \<times> 'f) list" where
  "contribution K t n rng j = gen_keygen_input K t (set (party_indices n)) (word_of_nat j) (rng j)"

abbreviation contributed_input where
  "contributed_input K t n rng j \<equiv> fst (snd (contribution K t n rng j))"

abbreviation contributed_shares where
  "contributed_shares K t n rng j \<equiv> snd (snd (contribution K t n rng j))"

definition shares_for where
  "shares_for K t n rng i = map (\<lambda>j. the (map_of (contributed_shares K t n rng j) (of_nat i))) [0..<n]"

text \<open>
  The coordinator takes all inputs, and everybody's shares add up to a paired share \<open>ps i\<close> it
  accepts, in whatever order the inputs and the shares come.
\<close>

definition honest_keygen ::
    "('f::field, 'ct, 'ki, 'co, 'ag, 'ps, 'sk, 'r) keygen_lib \<Rightarrow> u32 \<Rightarrow> nat \<Rightarrow> (nat \<Rightarrow> 'r) \<Rightarrow> 'ag \<Rightarrow> (nat \<Rightarrow> 'ps) \<Rightarrow> bool" where
  "honest_keygen K t n rng ag ps \<longleftrightarrow>
     (\<forall>js. mset js = mset [0..<n] \<longrightarrow>
        (\<exists>co. try_for (\<lambda>j co. add_input K co (word_of_nat j) (contributed_input K t n rng j)) js
                (coordinator_new K t (word_of_nat n)) = Inr co \<and> finish K co = Some ag))
     \<and> (\<forall>i\<in>{1..n}. \<forall>ss. mset ss = mset (shares_for K t n rng i) \<longrightarrow>
          receive_secret_share K ag (collect_secret_inputs K (of_nat i) ss) = Inr (ps i))"

lemma honest_keygenD:
  assumes "honest_keygen K t n rng ag ps"
  shows "mset js = mset [0..<n] \<Longrightarrow>
      \<exists>co. try_for (\<lambda>j co. add_input K co (word_of_nat j) (contributed_input K t n rng j)) js
             (coordinator_new K t (word_of_nat n)) = Inr co \<and> finish K co = Some ag"
    and "i \<in> {1..n} \<Longrightarrow> mset ss = mset (shares_for K t n rng i) \<Longrightarrow>
      receive_secret_share K ag (collect_secret_inputs K (of_nat i) ss) = Inr (ps i)"
  using assms unfolding honest_keygen_def by blast+

definition keygen_laws :: "('f::field, 'ct, 'ki, 'co, 'ag, 'ps, 'sk, 'r) keygen_lib \<Rightarrow> bool" where
  "keygen_laws K \<longleftrightarrow> (\<forall>t n rng. 0 < t \<and> unat t \<le> n \<and> n \<le> 65535 \<longrightarrow>
     (\<forall>j<n. distinct (map fst (contributed_shares K t n rng j))
        \<and> fst ` set (contributed_shares K t n rng j) = set (party_indices n))
     \<and> (\<exists>ag ps. honest_keygen K t n rng ag ps))"

text \<open>No paired share and no key is zero: this fails with negligible probability only.\<close>

definition keygen_nonzero ::
    "('f::field, 'ct, 'ki, 'co, 'ag, 'ps, 'sk, 'r) keygen_lib \<Rightarrow> u32 \<Rightarrow> nat \<Rightarrow> (nat \<Rightarrow> 'r) \<Rightarrow> bool" where
  "keygen_nonzero K t n rng \<longleftrightarrow> (\<forall>ag ps. honest_keygen K t n rng ag ps \<longrightarrow>
     key_non_zero K (agg_shared_key K ag) \<noteq> None \<and> (\<forall>i\<in>{1..n}. share_non_zero K (ps i) \<noteq> None))"

definition bincode_ok :: "('f, 'ki, 'ps, 'sk, 'nn, 'sg) bincode_lib \<Rightarrow> bool" where
  "bincode_ok B \<longleftrightarrow> codec_ok (bc_scalar B) \<and> codec_ok (bc_keygen_input B) \<and> codec_ok (bc_paired_share B)
     \<and> codec_ok (bc_shared_key B)"

text \<open>Scalars are written as 32 bytes, most significant byte first.\<close>

definition big_endian :: "('f::field, 'p) secp \<Rightarrow> bool" where
  "big_endian C \<longleftrightarrow> (\<forall>i\<le>65535. length (scalar_to_bytes C (of_nat i)) = 32 \<and> from_be_bytes (scalar_to_bytes C (of_nat i)) = i)"

section \<open>Indices and bytes\<close>

lemma from_be_bytes_append: "from_be_bytes (xs @ ys) = from_be_bytes xs * 256 ^ length ys + from_be_bytes ys"
proof -
  have "foldl (\<lambda>v b. v * 256 + unat b) a ys = a * 256 ^ length ys + foldl (\<lambda>v b. v * 256 + unat b) 0 ys" for a and ys :: bytes
  proof (induction ys arbitrary: a rule: rev_induct)
    case (snoc y ys)
    show ?case unfolding foldl_append foldl.simps by (subst snoc.IH) (simp add: distrib_right)
  qed simp
  from this [of "from_be_bytes xs" ys] show ?thesis by (simp only: from_be_bytes_def foldl_append)
qed

lemma participant_id_of_index:
  assumes C: "big_endian C" and i: "1 \<le> i" "i \<le> 65535"
  shows "participant_id_from_scalar_bytes (scalar_to_bytes C (of_nat i)) = Inr (party i)"
proof -
  let ?b = "scalar_to_bytes C (of_nat i)"
  have len: "length ?b = 32" and v: "from_be_bytes ?b = i" using C i by (simp_all add: big_endian_def)
  have "from_be_bytes (take 28 ?b) * 256 ^ 4 + from_be_bytes (drop 28 ?b) = i"
    using from_be_bytes_append [of "take 28 ?b" "drop 28 ?b"] v len by simp
  with i(2) have "from_be_bytes (drop 28 ?b) = i" by (cases "from_be_bytes (take 28 ?b)") auto
  moreover from len have "take 4 (drop 28 ?b) = drop 28 ?b" by simp
  ultimately have "from_be_bytes (take 4 (drop 28 ?b)) = i" by simp
  moreover have "(word_of_nat i :: u16) \<noteq> 0" using i as_u16_id [of i] by (metis as_u16_def not_one_le_zero unat_0)
  ultimately show ?thesis
    using i by (simp add: participant_id_from_scalar_bytes_def u16_try_from_def party_def as_u16_def ParticipantId_new_def)
qed

lemma party_inj: "i \<le> 65535 \<Longrightarrow> j \<le> 65535 \<Longrightarrow> party i = party j \<longleftrightarrow> i = j"
  by (metis as_u16_id ParticipantId.inject party_def)

lemma share_indices_eq:
  assumes "big_characteristic TYPE('f::field)"
  shows "share_indices n = Inr (party_indices (unat n) :: 'f list)"
  unfolding share_indices_def party_indices_def
proof (rule collect_map_Inr)
  fix i assume "i \<in> set [1..<Suc (unat n)]"
  then have i: "0 < i" "i \<le> 65535" using unat_u16_le [of n] by auto
  then have "unat (word_of_nat i :: u32) = i" by (simp add: unat_of_nat)
  with i assms show "expect (non_zero (scalar_from_u32 (word_of_nat i))) ''nonzero'' = Inr (of_nat i :: 'f)"
    by (simp add: expect_def non_zero_def scalar_from_u32_def big_characteristic_def)
qed

lemma key_index_party:
  assumes "j < 65535"
  shows "key_index oc (party (Suc j)) = Inr (word_of_nat j)"
proof -
  have u: "unat (as_u16 (Suc j)) = Suc j" using assms by (simp add: as_u16_id)
  then have "as_u16 (Suc j) \<noteq> 0" by (metis nat.distinct(1) unat_0)
  moreover have "(ucast (as_u16 (Suc j)) :: u32) = word_of_nat (Suc j)" by (subst u [symmetric]) simp
  ultimately show ?thesis by (simp add: key_index_def party_def)
qed

lemma share_index_party:
  assumes big: "big_characteristic TYPE('f::field)" and i: "1 \<le> i" "i \<le> 65535"
  shows "participant_share_index (party i) = Inr (of_nat i :: 'f)"
proof -
  have u: "unat (pid_val (party i)) = i" using i by (simp add: party_def as_u16_id)
  with i have "pid_val (party i) \<noteq> 0" by (metis not_one_le_zero unat_0)
  with u show ?thesis by (simp add: participant_share_index_Inr_iff [OF big] scalar_of_u16_eq)
qed

section \<open>An honest participant\<close>

definition encoded :: "'a codec \<Rightarrow> 'a \<Rightarrow> bytes" where
  "encoded B x = projr (encode_binary B x)"

lemma encoded: "codec_ok B \<Longrightarrow> encode_binary B x = Inr (encoded B x)" "codec_ok B \<Longrightarrow> decode_binary B (encoded B x) = Inr x"
proof -
  assume "codec_ok B"
  then obtain b where "to_vec B x = Inr b" "from_slice B b = Inr x" by (auto simp: codec_ok_def)
  then show "encode_binary B x = Inr (encoded B x)" "decode_binary B (encoded B x) = Inr x"
    by (simp_all add: encoded_def encode_binary_def decode_binary_def map_serialization_err_def)
qed

definition frost_setup ::
    "('f::field, 'p) secp \<Rightarrow> ('f, 'ki, 'ps, 'sk, 'nn, 'sg) bincode_lib
      \<Rightarrow> ('f, 'ct, 'ki, 'co, 'ag, 'ps, 'sk, 'r) keygen_lib \<Rightarrow> bool" where
  "frost_setup C B K \<longleftrightarrow> big_characteristic TYPE('f) \<and> big_endian C \<and> bincode_ok B \<and> keygen_laws K"

abbreviation contribution16 where
  "contribution16 K t n rng j \<equiv> contribution K (ucast (t :: u16)) (unat (n :: u16)) rng j"

definition round1_of ::
    "('f::field, 'ki, 'ps, 'sk, 'nn, 'sg) bincode_lib \<Rightarrow> ('f, 'ct, 'ki, 'co, 'ag, 'ps, 'sk, 'r) keygen_lib
      \<Rightarrow> u16 \<Rightarrow> u16 \<Rightarrow> (nat \<Rightarrow> 'r) \<Rightarrow> nat \<Rightarrow> Round1Package" where
  "round1_of B K t n rng j =
     \<lparr>r1_participant_id = party (Suc j), r1_bytes = encoded (bc_keygen_input B) (fst (snd (contribution16 K t n rng j)))\<rparr>"

definition pending_of ::
    "('f::field, 'p) secp \<Rightarrow> ('f, 'ki, 'ps, 'sk, 'nn, 'sg) bincode_lib
      \<Rightarrow> ('f, 'ct, 'ki, 'co, 'ag, 'ps, 'sk, 'r) keygen_lib \<Rightarrow> u16 \<Rightarrow> u16 \<Rightarrow> (nat \<Rightarrow> 'r) \<Rightarrow> nat \<Rightarrow> PendingSecretShare list" where
  "pending_of C B K t n rng j = map (\<lambda>(x, s).
     \<lparr>pss_recipient = projr (participant_id_from_scalar_bytes (scalar_to_bytes C x)), pss_bytes = encoded (bc_scalar B) s\<rparr>)
     (snd (snd (contribution16 K t n rng j)))"

definition party_config :: "SessionId \<Rightarrow> u16 \<Rightarrow> u16 \<Rightarrow> nat \<Rightarrow> DkgSessionConfig" where
  "party_config sid t n j = \<lparr>dsc_session_id = sid, dsc_threshold = \<lparr>tc_threshold = t, tc_participants = n\<rparr>,
     dsc_participant_id = party (Suc j)\<rparr>"

text \<open>The session of the participant at position \<open>j\<close> with these round 1 packages in its map.\<close>

definition party_session where
  "party_session C B K sid t n rng pkgs j = \<lparr>fds_config = party_config sid t n j,
     fds_runtime = Some \<lparr>dr_contributor = fst (contribution16 K t n rng j),
       dr_pending_secret_shares = pending_of C B K t n rng j, dr_round1_packages = pkgs\<rparr>\<rparr>"

definition round2_of where
  "round2_of C B K t n rng j = map (\<lambda>share. \<lparr>r2_sender = party (Suc j), r2_recipient = pss_recipient share,
     r2_bytes = pss_bytes share\<rparr>) (pending_of C B K t n rng j)"

lemma keygen_lawsD:
  assumes "keygen_laws K" "0 < t" "t \<le> n" "j < unat n"
  shows "distinct (map fst (snd (snd (contribution16 K t n rng j))))"
    "fst ` set (snd (snd (contribution16 K t n rng j))) = set (party_indices (unat n))"
    "\<exists>ag ps. honest_keygen K (ucast t) (unat n) rng ag ps"
proof -
  have "unat (ucast t :: u32) = unat t" using unat_u16_le [of t] by (simp add: unsigned_ucast_eq take_bit_nat_eq_self)
  then have "0 < (ucast t :: u32)" "unat (ucast t :: u32) \<le> unat n" "unat n \<le> 65535"
    using assms(2,3) unat_u16_le by (simp_all add: word_less_nat_alt word_le_nat_alt)
  then show "distinct (map fst (snd (snd (contribution16 K t n rng j))))"
    "fst ` set (snd (snd (contribution16 K t n rng j))) = set (party_indices (unat n))"
    "\<exists>ag ps. honest_keygen K (ucast t) (unat n) rng ag ps"
    using assms(1,4) unfolding keygen_laws_def by blast+
qed

lemma party_indices_eq: "x \<in> set (party_indices n) \<longleftrightarrow> (\<exists>i\<in>{1..n}. x = of_nat i)"
  by (auto simp: party_indices_def simp del: upt_Suc)

lemma pending_shares:
  assumes S: "frost_setup C B K" and t: "0 < t" "t \<le> n" "j < unat n"
  shows "collect (pending_secret_share C (bc_scalar B)) (snd (snd (contribution16 K t n rng j))) = Inr (pending_of C B K t n rng j)"
  unfolding pending_of_def
proof (rule collect_map_Inr)
  fix e assume e: "e \<in> set (snd (snd (contribution16 K t n rng j)))"
  obtain x s where xs: "e = (x, s)" by (cases e)
  from e xs have "x \<in> fst ` set (snd (snd (contribution16 K t n rng j)))" by force
  with keygen_lawsD(2) [of K t n j rng] S t obtain i where i: "i \<in> {1..unat n}" "x = of_nat i"
    by (auto simp: frost_setup_def party_indices_eq)
  then have "participant_id_from_scalar_bytes (scalar_to_bytes C x) = Inr (party i)"
    using participant_id_of_index [of C i] S unat_u16_le [of n] by (simp add: frost_setup_def)
  with S show "pending_secret_share C (bc_scalar B) e = Inr (case e of (x, s) \<Rightarrow>
      \<lparr>pss_recipient = projr (participant_id_from_scalar_bytes (scalar_to_bytes C x)), pss_bytes = encoded (bc_scalar B) s\<rparr>)"
    by (simp add: pending_secret_share_def xs encoded(1) frost_setup_def bincode_ok_def)
qed

lemma honest_round1_call:
  assumes S: "frost_setup C B K" and t: "0 < t" "t \<le> n" "j < unat n"
  shows "fds_round1 oc C B K (rng j) (FrostDkgSession_new (party_config sid t n j))
    = (party_session C B K sid t n rng [(party (Suc j), round1_of B K t n rng j)] j, Inr (round1_of B K t n rng j))"
proof -
  have "key_index oc (party (Suc j)) = Inr (word_of_nat j)" using t(3) unat_u16_le [of n] by (intro key_index_party) simp
  moreover have "share_indices n = (Inr (party_indices (unat n)) :: 'a list outcome)"
    using S by (intro share_indices_eq) (simp add: frost_setup_def)
  ultimately show ?thesis
    using pending_shares [OF S t, of rng] S
    by (simp add: fds_round1_def FrostDkgSession_new_def party_config_def contribution_def [symmetric] case_prod_unfold Let_def
        encoded(1) frost_setup_def bincode_ok_def round1_of_def party_session_def)
qed

section \<open>All participants\<close>

definition all_round1 where
  "all_round1 B K t n rng = map (round1_of B K t n rng) [0..<unat (n :: u16)]"

lemma party_less: "i < j \<Longrightarrow> j \<le> 65535 \<Longrightarrow> party i < party j"
  by (simp add: party_def less_ParticipantId_def word_less_nat_alt as_u16_id)

lemma all_round1_keyed: "btree_of (keyed (all_round1 B K t n rng)) = keyed (all_round1 B K t n rng)"
proof (rule btree_of_id)
  have "sorted_wrt (<) (map (\<lambda>j. party (Suc j)) [0..<unat n])"
    using unat_u16_le [of n] by (auto simp: sorted_wrt_iff_nth_less intro!: party_less)
  then show "sorted_wrt (<) (map fst (keyed (all_round1 B K t n rng)))" by (simp add: keyed_def all_round1_def o_def round1_of_def)
qed

lemma all_round1_valid:
  assumes "fds_n s = n" and r1: "mset r1 = mset (all_round1 B K t n rng)"
  shows "validate_round1_set s r1 = Inr ()"
proof -
  have m: "length r1 = length (all_round1 B K t n rng)" "set r1 = set (all_round1 B K t n rng)"
    and d: "distinct (map r1_participant_id r1) = distinct (map r1_participant_id (all_round1 B K t n rng))"
    using r1 by (metis mset_eq_length, metis mset_eq_setD, metis mset_eq_imp_distinct_iff mset_map)
  have "pid_val (party (Suc j)) \<le> n" if "j < unat n" for j
    using that unat_u16_le [of n] by (simp add: party_def word_le_nat_alt as_u16_id)
  moreover have "inj_on (\<lambda>j. party (Suc j)) {0..<unat n}"
    using unat_u16_le [of n] by (auto intro!: inj_onI simp: party_inj)
  then have "distinct (map r1_participant_id r1)"
    unfolding d by (simp add: all_round1_def round1_of_def o_def distinct_map)
  ultimately show ?thesis
    using assms(1) by (auto simp: validate_round1_set_iff m all_round1_def round1_of_def)
qed

lemma try_for_protocol_err:
  assumes "try_for f xs a = Inr b"
  shows "try_for (\<lambda>x s. map_protocol_err what (f x s)) xs a = Inr b"
  using assms
proof (induction xs arbitrary: a)
  case (Cons x xs)
  then obtain a' where "f x a = Inr a'" "try_for f xs a' = Inr b" by (auto simp: rbind_Inr_iff)
  with Cons.IH show ?case by (simp add: map_protocol_err_def)
qed simp

lemma all_round1_aggregate:
  assumes S: "frost_setup C B K" and s: "fds_n s = n" "fds_t s = t" and h: "honest_keygen K (ucast t) (unat n) rng ag ps"
    and r1: "mset r1 = mset (all_round1 B K t n rng)"
  shows "aggregate_keygen_inputs oc (bc_keygen_input B) K s r1 = Inr ag"
proof -
  from mset_eq_map [OF r1 [unfolded all_round1_def]] obtain js
    where js: "mset js = mset [0..<unat n]" "r1 = map (round1_of B K t n rng) js" by blast
  from honest_keygenD(1) [OF h js(1)] obtain co where co: "try_for (\<lambda>j co. add_input K co (word_of_nat j) (fst (snd (contribution16 K t n rng j)))) js
      (coordinator_new K (ucast t) (word_of_nat (unat n))) = Inr co" "finish K co = Some ag" by blast
  have "add_round1_input oc (bc_keygen_input B) K (round1_of B K t n rng j) a
      = map_protocol_err ''invalid round1 input: '' (add_input K a (word_of_nat j) (fst (snd (contribution16 K t n rng j))))"
    if "j \<in> set js" for j a
    using that mset_eq_setD [OF js(1)] S unat_u16_le [of n] key_index_party [of j oc]
    by (simp add: add_round1_input_def round1_of_def encoded(2) frost_setup_def bincode_ok_def)
  then have "try_for (add_round1_input oc (bc_keygen_input B) K) r1
      (coordinator_new K (ucast t) (word_of_nat (unat n))) = Inr co"
    unfolding js(2) try_for_map by (subst try_for_cong_set) (use try_for_protocol_err [OF co(1)] in auto)
  with co(2) s show ?thesis by (simp add: aggregate_keygen_inputs_def)
qed

lemma honest_round2_call:
  assumes S: "frost_setup C B K" and h: "honest_keygen K (ucast t) (unat n) rng ag ps"
    and r1: "mset r1 = mset (all_round1 B K t n rng)"
  shows "fds_round2 oc B K (party_session C B K sid t n rng pkgs j) r1
    = (party_session C B K sid t n rng (keyed (all_round1 B K t n rng)) j, Inr (round2_of C B K t n rng j))"
proof -
  have n: "fds_n (party_session C B K sid t n rng p j) = n" "fds_t (party_session C B K sid t n rng p j) = t" for p
    by (simp_all add: party_session_def party_config_def)
  note v = all_round1_valid [OF n(1) r1, of pkgs]
  have upd: "(party_session C B K sid t n rng pkgs j)\<lparr>fds_runtime := Some (\<lparr>dr_contributor = fst (contribution16 K t n rng j),
       dr_pending_secret_shares = pending_of C B K t n rng j, dr_round1_packages = pkgs\<rparr>\<lparr>dr_round1_packages := p\<rparr>)\<rparr>
    = party_session C B K sid t n rng p j" for p
    by (simp add: party_session_def)
  have rt: "fds_runtime (party_session C B K sid t n rng pkgs j) = Some \<lparr>dr_contributor = fst (contribution16 K t n rng j),
       dr_pending_secret_shares = pending_of C B K t n rng j, dr_round1_packages = pkgs\<rparr>"
    by (simp add: party_session_def)
  have "distinct (map fst (keyed r1))" using v by (simp add: validate_round1_set_iff keyed_def o_def)
  then have kd: "btree_of (map (\<lambda>package. (r1_participant_id package, package)) r1) = keyed (all_round1 B K t n rng)"
    using all_round1_keyed [of B K t n rng] btree_of_perm [of "keyed r1" "keyed (all_round1 B K t n rng)"] r1 by (simp add: keyed_def)
  show ?thesis
    unfolding fds_round2_def v sum.case rt option.case Let_def kd upd all_round1_aggregate [OF S n h r1]
    by (simp add: round2_of_def party_session_def party_config_def)
qed

section \<open>Finalisation\<close>

text \<open>The package from position \<open>k\<close> to participant \<open>i\<close>.\<close>

definition secret_package where
  "secret_package B K t n rng i k = \<lparr>r2_sender = party (Suc k), r2_recipient = party i,
     r2_bytes = encoded (bc_scalar B) (the (map_of (snd (snd (contribution16 K t n rng k))) (of_nat i)))\<rparr>"

lemma filter_key_unique:
  assumes "distinct (map fst kvs)" "(k, v) \<in> set kvs" "\<And>k' v'. (k', v') \<in> set kvs \<Longrightarrow> P (k', v') \<longleftrightarrow> k' = k"
  shows "filter P kvs = [(k, v)]"
  using assms
proof (induction kvs)
  case (Cons kv kvs)
  show ?case
  proof (cases "kv = (k, v)")
    case True
    then have "k \<notin> fst ` set kvs" using Cons.prems(1) by simp
    then have "filter P kvs = []" using Cons.prems(3) by (force simp: filter_empty_conv)
    with True Cons.prems(3) show ?thesis by simp
  next
    case False
    then have "(k, v) \<in> set kvs" using Cons.prems(2) by simp
    moreover from this have "fst kv \<noteq> k" using Cons.prems(1) by (force simp: image_iff)
    ultimately show ?thesis using Cons by (cases kv) auto
  qed
qed simp

lemma round2_for:
  assumes S: "frost_setup C B K" and t: "0 < t" "t \<le> n" "k < unat n" and i: "i \<in> {1..unat n}"
  shows "filter (\<lambda>p. r2_recipient p = party i) (round2_of C B K t n rng k) = [secret_package B K t n rng i k]"
proof -
  let ?sh = "snd (snd (contribution16 K t n rng k))"
  note laws = keygen_lawsD [of K t n k rng]
  have d: "distinct (map fst ?sh)" and keys: "fst ` set ?sh = set (party_indices (unat n))"
    using laws S t by (simp_all add: frost_setup_def)
  have pid: "participant_id_from_scalar_bytes (scalar_to_bytes C (of_nat m)) = Inr (party m)" if "m \<in> {1..unat n}" for m
    using participant_id_of_index [of C m] S that unat_u16_le [of n] by (simp add: frost_setup_def)
  from i keys have "of_nat i \<in> fst ` set ?sh" by (auto simp: party_indices_eq)
  then obtain s where s: "(of_nat i, s) \<in> set ?sh" by force
  let ?P = "\<lambda>(x, s). projr (participant_id_from_scalar_bytes (scalar_to_bytes C x)) = party i"
  have "filter ?P ?sh = [(of_nat i, s)]"
  proof (rule filter_key_unique [OF d s])
    fix x v assume "(x, v) \<in> set ?sh"
    then have "x \<in> fst ` set ?sh" by force
    with keys obtain m where "m \<in> {1..unat n}" "x = of_nat m" by (auto simp: party_indices_eq)
    then show "?P (x, v) \<longleftrightarrow> x = of_nat i"
      using pid [of m] pid [OF i] i unat_u16_le [of n] party_inj [of m i] by auto
  qed
  moreover have "the (map_of ?sh (of_nat i)) = s" using d s by simp
  ultimately show ?thesis
    using pid [OF i] by (simp add: round2_of_def pending_of_def filter_map o_def case_prod_unfold secret_package_def)
qed

lemma take_shares:
  assumes "codec_ok B" "distinct (map r2_sender ks)" "r2_sender ` set ks \<inter> seen = {}" "\<And>k. k \<in> set ks \<Longrightarrow> r2_bytes k = encoded B (v k)"
  shows "\<exists>seen'. try_for (take_round2_share B) ks (acc, seen) = Inr (acc @ map v ks, seen')"
  using assms(2-)
proof (induction ks arbitrary: acc seen)
  case (Cons k ks)
  have "take_round2_share B k (acc, seen) = Inr (acc @ [v k], insert (r2_sender k) seen)"
    using Cons.prems(2,3) assms(1) by (simp add: take_round2_share_def encoded(2))
  moreover have "r2_sender ` set ks \<inter> insert (r2_sender k) seen = {}" using Cons.prems(1,2) by auto
  ultimately show ?case using Cons.IH [of "insert (r2_sender k) seen" "acc @ [v k]"] Cons.prems by simp
qed simp

text \<open>The share and key a participant ends with.\<close>

definition dealt_share where
  "dealt_share B K ag ps i = (let sk = key_into_xonly K (the (key_non_zero K (agg_shared_key K ag))) in
     \<lparr>lks_participant_id = party i,
      lks_group_key = \<lparr>gk_xonly_public_key = key_xonly_bytes K sk, gk_verification_key_bytes = encoded (bc_shared_key B) sk\<rparr>,
      lks_secret_share_bytes = encoded (bc_paired_share B) (share_into_xonly K (the (share_non_zero K (ps i))))\<rparr>)"

text \<open>What a participant takes from the packages for it, in any order, adds up to its share.\<close>

lemma honest_shares_taken:
  fixes B :: "('f::field, 'ki, 'ps, 'sk, 'nn, 'sg) bincode_lib"
  assumes B: "codec_ok (bc_scalar B)" and h: "honest_keygen K (ucast t) (unat n) rng ag ps" and i: "i \<in> {1..unat n}"
    and ks: "mset ks = mset (map (secret_package B K t n rng i) [0..<unat n])"
  shows "\<exists>ss seen. try_for (take_round2_share (bc_scalar B)) ks ([], {}) = Inr (ss, seen) \<and> length ss = unat n
    \<and> receive_secret_share K ag (collect_secret_inputs K (of_nat i) ss) = Inr (ps i)"
proof -
  let ?v = "\<lambda>k. projr (decode_binary (bc_scalar B) (r2_bytes k))"
  have "inj_on (\<lambda>k. party (Suc k)) {0..<unat n}" using unat_u16_le [of n] by (auto intro!: inj_onI simp: party_inj)
  then have "distinct (map r2_sender (map (secret_package B K t n rng i) [0..<unat n]))"
    by (simp add: secret_package_def o_def distinct_map)
  then have "distinct (map r2_sender ks)" using ks by (metis mset_eq_imp_distinct_iff mset_map)
  moreover have "r2_bytes k = encoded (bc_scalar B) (?v k)" if "k \<in> set ks" for k
    using that mset_eq_setD [OF ks] by (auto simp: secret_package_def encoded(2) [OF B])
  ultimately obtain seen where "try_for (take_round2_share (bc_scalar B)) ks ([], {}) = Inr ([] @ map ?v ks, seen)"
    using take_shares [OF B, of ks "{}" ?v "[]"] by blast
  moreover have m: "mset (map ?v ks) = mset (shares_for K (ucast t) (unat n) rng i)"
  proof -
    have "mset (map ?v ks) = mset (map ?v (map (secret_package B K t n rng i) [0..<unat n]))" using ks by (metis mset_map)
    then show ?thesis by (simp add: shares_for_def o_def secret_package_def encoded(2) [OF B] del: mset_map)
  qed
  moreover have "receive_secret_share K ag (collect_secret_inputs K (of_nat i) (map ?v ks)) = Inr (ps i)"
    by (rule honest_keygenD(2) [OF h i m])
  moreover have "length (map ?v ks) = unat n" using mset_eq_length [OF m] by (simp add: shares_for_def)
  ultimately show ?thesis by auto
qed

lemma honest_finalize_call:
  fixes C :: "('f::field, 'p) secp"
  assumes S: "frost_setup C B K" and h: "honest_keygen K (ucast t) (unat n) rng ag ps" and nz: "keygen_nonzero K (ucast t) (unat n) rng"
    and j: "j < unat n"
    and ins: "mset (filter (\<lambda>p. r2_recipient p = party (Suc j)) ins) = mset (map (secret_package B K t n rng (Suc j)) [0..<unat n])"
  shows "fds_finalize oc B K (party_session C B K sid t n rng (keyed (all_round1 B K t n rng)) j) ins
    = Inr (dealt_share B K ag ps (Suc j))"
proof -
  let ?s = "party_session C B K sid t n rng (keyed (all_round1 B K t n rng)) j" and ?i = "Suc j"
  have s: "fds_n ?s = n" "fds_t ?s = t" "fds_id ?s = party ?i" by (simp_all add: party_session_def party_config_def)
  have B: "codec_ok (bc_scalar B)" "codec_ok (bc_shared_key B)" "codec_ok (bc_paired_share B)" using S by (simp_all add: frost_setup_def bincode_ok_def)
  have i: "?i \<in> {1..unat n}" using j by simp
  from honest_shares_taken [OF B(1) h i ins] obtain ss seen
    where tk: "try_for (take_round2_share (bc_scalar B)) (filter (\<lambda>p. r2_recipient p = party ?i) ins) ([], {}) = Inr (ss, seen)"
      "length ss = unat n" "receive_secret_share K ag (collect_secret_inputs K (of_nat ?i) ss) = Inr (ps ?i)" by blast
  have idx: "participant_share_index (party ?i) = Inr (of_nat ?i :: 'f)"
    using S j unat_u16_le [of n] by (intro share_index_party) (simp_all add: frost_setup_def)
  from nz h have "key_non_zero K (agg_shared_key K ag) \<noteq> None" "share_non_zero K (ps ?i) \<noteq> None"
    using j by (simp_all add: keygen_nonzero_def)
  then obtain sk sh where nz': "key_non_zero K (agg_shared_key K ag) = Some sk" "share_non_zero K (ps ?i) = Some sh" by blast
  have rt: "fds_runtime ?s = Some \<lparr>dr_contributor = fst (contribution16 K t n rng j),
       dr_pending_secret_shares = pending_of C B K t n rng j, dr_round1_packages = keyed (all_round1 B K t n rng)\<rparr>"
    by (simp add: party_session_def)
  have kd: "length (keyed (all_round1 B K t n rng)) = unat n" "map snd (keyed (all_round1 B K t n rng)) = all_round1 B K t n rng"
    by (simp_all add: keyed_def all_round1_def o_def)
  show ?thesis
    unfolding fds_finalize_def rt s tk(1)
    by (simp add: kd tk(2,3) idx nz' all_round1_aggregate [OF S s(1,2) h refl] map_protocol_err_def encoded(1) B dealt_share_def
        Let_def del: of_nat_Suc)
qed

section \<open>The local run succeeds\<close>

lemma create_party_session:
  assumes "SessionId_new name = Inr sid" "0 < t" "t \<le> n" "j < unat n"
  shows "create_frost_session name t n (as_u16 (Suc j)) = Inr (FrostDkgSession_new (party_config sid t n j))"
proof -
  have "as_u16 (Suc j) \<noteq> 0" using assms(4) unat_u16_le [of n] as_u16_id [of "Suc j"] by (metis Suc_leI le_trans nat.distinct(1) unat_0)
  moreover have "n \<noteq> 0" using assms(2,3) by auto
  ultimately show ?thesis
    using assms by (simp add: create_frost_session_def ThresholdConfig_new_def ParticipantId_new_def party_config_def party_def
        word_neq_0_conv not_less)
qed

text \<open>Everybody's packages, filtered for one recipient: one from each sender, in order.\<close>

lemma all_round2_for:
  assumes S: "frost_setup C B K" and t: "0 < t" "t \<le> n" and i: "i \<in> {1..unat n}"
  shows "filter (\<lambda>p. r2_recipient p = party i) (concat (map (round2_of C B K t n rng) [0..<unat n]))
    = map (secret_package B K t n rng i) [0..<unat n]"
proof -
  have "map (\<lambda>k. filter (\<lambda>p. r2_recipient p = party i) (round2_of C B K t n rng k)) [0..<unat n]
      = map (\<lambda>k. [secret_package B K t n rng i k]) [0..<unat n]"
    using round2_for [OF S t _ i] by simp
  then show ?thesis unfolding filter_concat map_map o_def by (simp only: concat_map_singleton)
qed

lemma run_local_frost_dkg_honest:
  assumes S: "frost_setup C B K" and t: "0 < t" "t \<le> n" and name: "SessionId_new name = Inr sid"
    and h: "honest_keygen K (ucast t) (unat n) rng ag ps" and nz: "keygen_nonzero K (ucast t) (unat n) rng"
  shows "run_local_frost_dkg oc C B K rng name t n = Inr (map (dealt_share B K ag ps) [1..<Suc (unat n)])"
proof -
  let ?js = "[0..<unat n]" and ?r1 = "all_round1 B K t n rng"
  let ?s0 = "\<lambda>j. FrostDkgSession_new (party_config sid t n j)"
  let ?s1 = "\<lambda>j. party_session C B K sid t n rng [(party (Suc j), round1_of B K t n rng j)] j"
  let ?s2 = "party_session C B K sid t n rng (keyed ?r1)"
  have upt: "[1..<Suc (unat n)] = map Suc ?js" by (simp only: map_Suc_upt One_nat_def)
  have created: "collect (\<lambda>i. create_frost_session name t n (as_u16 i)) [1..<Suc (unat n)] = Inr (map ?s0 ?js)"
    unfolding upt collect_map by (rule collect_map_Inr) (use create_party_session [OF name t] in auto)
  note enum = enumerate_map_upt [of 0 ?s0 "unat n"]
  have round1: "collect (\<lambda>(i, s). call (fds_round1 oc C B K (rng i) s)) (enumerate 0 (map ?s0 ?js))
      = Inr (map (\<lambda>j. (?s1 j, round1_of B K t n rng j)) ?js)"
    unfolding enum collect_map by (rule collect_map_Inr) (simp add: honest_round1_call [OF S t] call_def)
  have snds: "map snd (map (\<lambda>j. (?s1 j, round1_of B K t n rng j)) ?js) = ?r1" by (simp add: all_round1_def)
  have round2: "collect (\<lambda>s. call (fds_round2 oc B K s ?r1)) (map fst (map (\<lambda>j. (?s1 j, round1_of B K t n rng j)) ?js))
      = Inr (map (\<lambda>j. (?s2 j, round2_of C B K t n rng j)) ?js)"
    unfolding map_map collect_map o_def by (rule collect_map_Inr) (simp add: honest_round2_call [OF S h refl] call_def)
  let ?r2 = "concat (map (round2_of C B K t n rng) ?js)"
  have final: "collect (\<lambda>s. fds_finalize oc B K s ?r2) (map ?s2 ?js) = Inr (map (dealt_share B K ag ps) [1..<Suc (unat n)])"
    unfolding upt map_map collect_map o_def
    by (rule collect_map_Inr) (rule honest_finalize_call [OF S h nz _ arg_cong [where f = mset, OF all_round2_for [OF S t]]]; simp)
  show ?thesis
    unfolding run_local_frost_dkg_def created lift_err_simps rbind.simps round1 snds Let_def round2
    using final by (simp add: o_def del: upt_Suc)
qed

end
