(* ===== verification/Frost_Signing.thy ===== *)
theory Frost_Signing
  imports Frost_Honest
begin

text \<open>
  FROST signing when everybody follows it. \<open>signing_laws\<close> says what \<open>schnorr_fun::frost\<close>
  promises for keys it generated and nonces it drew; the code around it (selection of the
  shares, one session per signer, byte encodings, the nonce and share maps by index) then
  turns a signer set the policy accepts into a signature that verifies. Signers are at the
  positions \<open>0..<m\<close> of the signer set, \<open>ix j\<close> is the identifier of the one at position \<open>j\<close>.
\<close>

section \<open>What the library is relied on for\<close>

text \<open>One round: the coordinator's session on the public nonces and the share of every signer.\<close>

definition frost_round ::
    "('f::field, 'p, 'ps, 'sk, 'nk, 'nn, 'cs, 'pt, 'sg, 'r) signing_lib \<Rightarrow> 'sk \<Rightarrow> nat \<Rightarrow> (nat \<Rightarrow> nat) \<Rightarrow> (nat \<Rightarrow> 'ps)
      \<Rightarrow> (nat \<Rightarrow> 'nk) \<Rightarrow> bytes \<Rightarrow> 'cs \<Rightarrow> (nat \<Rightarrow> 'f) \<Rightarrow> bool" where
  "frost_round S sk m ix sh nk msg cs z \<longleftrightarrow>
     coordinator_sign_session S sk (map_of (map (\<lambda>j. (of_nat (ix j), nonce_public S (nk j))) [0..<m])) msg = Inr cs
     \<and> (\<forall>j<m. party_sign S (party_sign_session S (shared_public_key S sk) (session_parties S cs) (session_agg_binonce S cs) msg)
          (sh j) (nk j) = Inr (z j))"

text \<open>The key and the share of participant \<open>i\<close> as the key generation hands them out.\<close>

definition final_key where
  "final_key K ag = key_into_xonly K (the (key_non_zero K (agg_shared_key K ag)))"

definition final_share where
  "final_share K ps i = share_into_xonly K (the (share_non_zero K (ps i)))"

text \<open>
  At least the threshold of distinct parties of an honest key generation: their round gives
  a signature that verifies under the key. \<open>bad\<close> are the nonces for which the library
  promises nothing, those whose aggregate is the point at infinity.
\<close>

definition signing_laws ::
    "('f::field, 'p) secp \<Rightarrow> ('f, 'ct, 'ki, 'co, 'ag, 'ps, 'sk, 'r) keygen_lib
      \<Rightarrow> ('f, 'p, 'ps, 'sk, 'nk, 'nn, 'cs, 'pt, 'p \<times> 'f, 's) signing_lib \<Rightarrow> ('sk \<Rightarrow> 'nk list \<Rightarrow> bytes \<Rightarrow> bool) \<Rightarrow> bool" where
  "signing_laws C K S bad \<longleftrightarrow> (\<forall>t n rng ag ps m ix nk msg.
     0 < t \<and> unat t \<le> m \<and> n \<le> 65535 \<and> honest_keygen K t n rng ag ps \<and> keygen_nonzero K t n rng
     \<and> inj_on ix {..<m} \<and> ix ` {..<m} \<subseteq> {1..n} \<and> \<not> bad (final_key K ag) (map nk [0..<m]) msg \<longrightarrow>
     (\<exists>cs z. frost_round S (final_key K ag) m ix (\<lambda>j. final_share K ps (ix j)) nk msg cs z
        \<and> (\<exists>X sig. verify_and_combine S cs (final_key K ag) (map_of (map (\<lambda>j. (of_nat (ix j), z j)) [0..<m])) = Inr sig
             \<and> from_xonly_bytes C (key_xonly_bytes K (final_key K ag)) = Some X \<and> schnorr_verify C X msg sig)))"

text \<open>The nonce a session draws for a share.\<close>

definition drawn_nonce where
  "drawn_nonce S sid r share = gen_nonce S (seed_nonce_rng S r share (as_bytes (session_str sid)))"

text \<open>\<open>bincode\<close> writes a signature as its 64 bytes.\<close>

definition signing_codecs_ok :: "('f, 'p) secp \<Rightarrow> ('f, 'ki, 'ps, 'sk, 'nn, 'p \<times> 'f) bincode_lib \<Rightarrow> bool" where
  "signing_codecs_ok C B \<longleftrightarrow> codec_ok (bc_nonce B) \<and> (\<forall>sig. to_vec (bc_signature B) sig = Inr (signature_to_bytes C sig))"

section \<open>The calls of a signing round\<close>

definition nonce_package where
  "nonce_package B S request rng sh j = \<lparr>np_participant_id = sr_signer_set request ! j, np_signing_session_id = sr_session_id request,
     np_public_nonce_bytes = encoded (bc_nonce B) (nonce_public S (drawn_nonce S (sr_session_id request) (rng j) (sh j)))\<rparr>"

definition share_package where
  "share_package B S request rng sh z j = \<lparr>ssp_participant_id = sr_signer_set request ! j,
     ssp_signing_session_id = sr_session_id request,
     ssp_public_nonce_bytes = encoded (bc_nonce B) (nonce_public S (drawn_nonce S (sr_session_id request) (rng j) (sh j))),
     ssp_signature_share_bytes = encoded (bc_scalar B) (z j :: 'f::field)\<rparr>"

text \<open>The share in the hands of the signer at position \<open>j\<close>.\<close>

definition holds_share where
  "holds_share B request sh j share \<longleftrightarrow> lks_participant_id share = sr_signer_set request ! j
     \<and> lks_group_key share = sr_group_key request \<and> lks_secret_share_bytes share = encoded (bc_paired_share B) (sh j)"

lemma honest_nonce_call:
  assumes "codec_ok (bc_nonce B)" "codec_ok (bc_paired_share B)" "holds_share B request sh j share"
  shows "fss_nonce B S (rng j) (FrostSigningSession_new request) share
    = (\<lparr>fss_request = request, fss_nonce_runtime = Some (drawn_nonce S (sr_session_id request) (rng j) (sh j))\<rparr>,
       Inr (nonce_package B S request rng sh j))"
  using assms by (simp add: fss_nonce_def FrostSigningSession_new_def holds_share_def encoded nonce_package_def drawn_nonce_def Let_def)

text \<open>The map of all nonces binds each index to the nonce of its signer.\<close>

lemma honest_nonces_map:
  assumes big: "big_characteristic TYPE('f::field)" and N: "codec_ok (bc_nonce B)" and d: "distinct (sr_signer_set request)"
    and nz: "\<forall>x\<in>set (sr_signer_set request). pid_val x \<noteq> 0" and m: "m = length (sr_signer_set request)"
    and ns: "ns = map (nonce_package B S request rng sh) [0..<m]"
  shows "nonces_to_map (bc_nonce B) ns request = Inr (map (\<lambda>j. (of_nat (unat (pid_val (sr_signer_set request ! j))) :: 'f,
      nonce_public S (drawn_nonce S (sr_session_id request) (rng j) (sh j)))) [0..<m])"
proof -
  have "map np_participant_id ns = sr_signer_set request"
    by (simp add: ns m nonce_package_def o_def map_nth)
  moreover have "\<forall>p\<in>set ns. nonce_ok (bc_nonce B) request p"
    using nz by (auto simp: ns m nonce_ok_def nonce_package_def encoded(2) [OF N] is_ok_iff)
  ultimately show ?thesis
    by (auto simp: nonces_to_map_iff [OF big d] ns nonce_entry_def nonce_package_def encoded(2) [OF N] scalar_of_u16_eq)
qed

lemma find_own_nonce:
  assumes "distinct (sr_signer_set request)" "j < length (sr_signer_set request)"
  shows "find (\<lambda>p. np_participant_id p = sr_signer_set request ! j)
      (map (nonce_package B S request rng sh) [0..<length (sr_signer_set request)]) = Some (nonce_package B S request rng sh j)"
  unfolding find_Some_iff
  by (intro exI [of _ j]) (use assms in \<open>auto simp: nonce_package_def nth_eq_iff_index_eq\<close>)

text \<open>
  What a round needs: a request for distinct proper signers, a key the request carries and
  codecs that read back what they write.
\<close>

definition round_setup where
  "round_setup B request sk \<longleftrightarrow> big_characteristic TYPE('f::field)
     \<and> codec_ok (bc_scalar (B :: ('f, 'ki, 'ps, 'sk, 'nn, 'sg) bincode_lib)) \<and> codec_ok (bc_paired_share B)
     \<and> codec_ok (bc_shared_key B) \<and> codec_ok (bc_nonce B) \<and> distinct (sr_signer_set request)
     \<and> (\<forall>x\<in>set (sr_signer_set request). pid_val x \<noteq> 0)
     \<and> gk_verification_key_bytes (sr_group_key request) = encoded (bc_shared_key B) sk"

definition request_index where
  "request_index request j = unat (pid_val (sr_signer_set request ! j))"

abbreviation request_round where
  "request_round S sk request rng sh cs z \<equiv> frost_round S sk (length (sr_signer_set request)) (request_index request) sh
     (\<lambda>j. drawn_nonce S (sr_session_id request) (rng j) (sh j)) (frost_message (sr_message_digest request)) cs z"

lemma honest_share_call:
  fixes B :: "('f::field, 'ki, 'ps, 'sk, 'nn, 'sg) bincode_lib"
  assumes R: "round_setup B request sk" and fr: "request_round S sk request rng sh cs z"
    and j: "j < length (sr_signer_set request)" and share: "holds_share B request sh j share"
    and ns: "ns = map (nonce_package B S request rng sh) [0..<length (sr_signer_set request)]"
  shows "fss_sign_share B S \<lparr>fss_request = request, fss_nonce_runtime = Some (drawn_nonce S (sr_session_id request) (rng j) (sh j))\<rparr>
      share ns = (FrostSigningSession_new request, Inr (share_package B S request rng sh z j))"
proof -
  note r = R [unfolded round_setup_def]
  have own: "find (\<lambda>p. np_participant_id p = sr_signer_set request ! j) ns = Some (nonce_package B S request rng sh j)"
    using find_own_nonce [OF _ j] r by (simp add: ns)
  have map: "nonces_to_map (bc_nonce B) ns request = Inr (map (\<lambda>j. (of_nat (request_index request j) :: 'f,
      nonce_public S (drawn_nonce S (sr_session_id request) (rng j) (sh j)))) [0..<length (sr_signer_set request)])"
    unfolding request_index_def by (rule honest_nonces_map) (use r ns in simp_all)
  have "sign_with_nonce B S request share ns (drawn_nonce S (sr_session_id request) (rng j) (sh j))
      = Inr (share_package B S request rng sh z j)"
    using r share fr j
    by (simp add: sign_with_nonce_def own map holds_share_def encoded or_panic_def frost_round_def share_package_def nonce_package_def Let_def)
  moreover have "lks_group_key share = sr_group_key request" "lks_participant_id share \<in> set (sr_signer_set request)"
    using share j by (simp_all add: holds_share_def)
  ultimately show ?thesis by (simp add: fss_sign_share_def FrostSigningSession_new_def)
qed

lemma insert_shares:
  fixes B :: "'f::field codec"
  assumes B: "codec_ok B" and big: "big_characteristic TYPE('f)"
    and ss: "\<And>s. s \<in> set ss \<Longrightarrow> pid_val (ssp_participant_id s) \<noteq> 0 \<and> ssp_signature_share_bytes s = encoded B (v s)"
  shows "try_for (insert_signature_share B) ss acc
    = Inr (acc ++ map_of (rev (map (\<lambda>s. (of_nat (unat (pid_val (ssp_participant_id s))), v s)) ss)))"
  using ss
proof (induction ss arbitrary: acc)
  case (Cons s ss)
  let ?acc = "acc(of_nat (unat (pid_val (ssp_participant_id s))) \<mapsto> v s)"
  have "insert_signature_share B s acc = Inr ?acc"
    using Cons.prems [of s] participant_share_index_Inr_iff [OF big]
    by (simp add: insert_signature_share_def encoded(2) [OF B] rbind_Inr_iff scalar_of_u16_eq)
  then have "try_for (insert_signature_share B) (s # ss) acc = try_for (insert_signature_share B) ss ?acc" by simp
  also have "\<dots> = Inr (?acc ++ map_of (rev (map (\<lambda>s. (of_nat (unat (pid_val (ssp_participant_id s))), v s)) ss)))"
    by (rule Cons.IH) (simp add: Cons.prems)
  finally show ?case by simp
qed simp

text \<open>The aggregation takes exactly one share of this session for each signer.\<close>

lemma validate_signature_share_set_iff:
  assumes d: "distinct (sr_signer_set request)"
  shows "validate_signature_share_set shares request = Inr u \<longleftrightarrow>
    (\<forall>s\<in>set shares. ssp_signing_session_id s = sr_session_id request)
    \<and> mset (map ssp_participant_id shares) = mset (sr_signer_set request)"
proof -
  let ?P = "\<lambda>s. ssp_signing_session_id s = sr_session_id request \<and> ssp_participant_id s \<in> set (sr_signer_set request)"
  let ?ids = "map ssp_participant_id shares"
  have step: "check_signature_share request s seen = Inr seen' \<longleftrightarrow> ?P s \<and> ssp_participant_id s \<notin> seen
      \<and> seen' = insert (ssp_participant_id s) seen" for s seen seen'
    by (auto simp: check_signature_share_def rbind_Inr_iff ensure_Inr_iff)
  have "validate_signature_share_set shares request = Inr u \<longleftrightarrow>
      (\<forall>s\<in>set shares. ?P s) \<and> distinct ?ids \<and> card (set ?ids) = length (sr_signer_set request)"
    by (auto simp: validate_signature_share_set_def rbind_Inr_iff ensure_Inr_iff
        try_for_distinct_iff [where f = "check_signature_share request" and key = ssp_participant_id, OF step])
  also have "\<dots> \<longleftrightarrow> (\<forall>s\<in>set shares. ssp_signing_session_id s = sr_session_id request) \<and> mset ?ids = mset (sr_signer_set request)"
  proof (intro iffI conjI)
    assume h: "(\<forall>s\<in>set shares. ?P s) \<and> distinct ?ids \<and> card (set ?ids) = length (sr_signer_set request)"
    then show "mset ?ids = mset (sr_signer_set request)" by (intro distinct_perm_mset) (auto dest: distinct_card)
  next
    assume h: "(\<forall>s\<in>set shares. ssp_signing_session_id s = sr_session_id request) \<and> mset ?ids = mset (sr_signer_set request)"
    then have "set ?ids = set (sr_signer_set request)" "distinct ?ids" using d by (metis mset_eq_setD, metis mset_eq_imp_distinct_iff)
    with d h show "\<forall>s\<in>set shares. ?P s" "distinct ?ids" "card (set ?ids) = length (sr_signer_set request)"
      by (auto simp: distinct_card)
  qed blast
  finally show ?thesis .
qed

lemma honest_aggregate_call:
  fixes B :: "('f::field, 'ki, 'ps, 'sk, 'nn, 'sg) bincode_lib"
  assumes R: "round_setup B request sk" and fr: "request_round S sk request rng sh cs z"
    and comb: "verify_and_combine S cs sk
        (map_of (map (\<lambda>j. (of_nat (request_index request j), z j)) [0..<length (sr_signer_set request)])) = Inr sig"
    and enc: "encode_binary (bc_signature B) sig = Inr bytes" "bytes \<noteq> []"
  shows "fss_aggregate B S (FrostSigningSession_new request)
      (map (share_package B S request rng sh z) [0..<length (sr_signer_set request)]) = Inr \<lparr>as_signature_bytes = bytes\<rparr>"
proof -
  note r = R [unfolded round_setup_def]
  let ?m = "length (sr_signer_set request)"
  let ?ss = "map (share_package B S request rng sh z) [0..<?m]"
  let ?kv = "map (\<lambda>j. (of_nat (request_index request j) :: 'f, z j)) [0..<?m]"
  have ids: "map ssp_participant_id ?ss = sr_signer_set request" by (simp add: share_package_def o_def map_nth)
  have valid: "validate_signature_share_set ?ss request = Inr ()"
    using r ids by (auto simp: validate_signature_share_set_iff share_package_def simp del: map_map)
  have "map (\<lambda>share. \<lparr>np_participant_id = ssp_participant_id share, np_signing_session_id = ssp_signing_session_id share,
      np_public_nonce_bytes = ssp_public_nonce_bytes share\<rparr>) ?ss = map (nonce_package B S request rng sh) [0..<?m]"
    by (simp add: share_package_def nonce_package_def)
  note nonces = honest_nonces_map [where 'f = 'f, OF _ _ _ _ refl this, folded request_index_def]
  have "inj_on (of_nat \<circ> request_index request :: nat \<Rightarrow> 'f) {0..<?m}"
  proof (rule inj_onI)
    fix x y assume xy: "x \<in> {0..<?m}" "y \<in> {0..<?m}" "(of_nat \<circ> request_index request) x = ((of_nat \<circ> request_index request) y :: 'f)"
    then have "sr_signer_set request ! x = sr_signer_set request ! y"
      using r scalar_of_u16_inj [where 'f = 'f] by (simp only: request_index_def scalar_of_u16_eq o_def ParticipantId.expand)
    with xy r show "x = y" by (simp add: nth_eq_iff_index_eq)
  qed
  then have d: "distinct (map fst ?kv)" by (simp add: o_def distinct_map)
  have shares: "try_for (insert_signature_share (bc_scalar B)) ?ss Map.empty = Inr (map_of ?kv)"
  proof -
    have v: "pid_val (ssp_participant_id s) \<noteq> 0 \<and> ssp_signature_share_bytes s
        = encoded (bc_scalar B) (projr (decode_binary (bc_scalar B) (ssp_signature_share_bytes s)))" if "s \<in> set ?ss" for s
      using that r by (auto simp: share_package_def encoded(2))
    have kv: "map (\<lambda>s. (of_nat (unat (pid_val (ssp_participant_id s))), projr (decode_binary (bc_scalar B) (ssp_signature_share_bytes s)))) ?ss = ?kv"
      using r by (simp add: share_package_def encoded(2) request_index_def)
    have "map_of (rev ?kv) = map_of ?kv" by (rule ext) (rule map_of_rev_distinct [OF d])
    then show ?thesis using insert_shares [OF _ _ v, of ?ss Map.empty] r unfolding kv by (simp only: map_add_empty empty_map_add)
  qed
  show ?thesis
    using r fr comb enc valid nonces shares
    by (simp add: fss_aggregate_def FrostSigningSession_new_def Let_def encoded(2) frost_round_def or_panic_def map_protocol_err_def AggregateSignature_new_def)
qed

section \<open>A signer set signs\<close>

lemma sign_request_succeeds:
  fixes B :: "('f::field, 'ki, 'ps, 'sk, 'nn, 'sg) bincode_lib"
  assumes R: "round_setup B request sk" and fr: "request_round S sk request rng sh cs z"
    and sel: "\<And>j. j < length (sr_signer_set request) \<Longrightarrow>
        select_share local_shares (sr_signer_set request ! j) = Inr (share j) \<and> holds_share B request sh j (share j)"
    and comb: "verify_and_combine S cs sk
        (map_of (map (\<lambda>j. (of_nat (request_index request j), z j)) [0..<length (sr_signer_set request)])) = Inr sig"
    and enc: "encode_binary (bc_signature B) sig = Inr bytes" "bytes \<noteq> []"
  shows "sign_request_with_shares B S rng request local_shares (sr_signer_set request) = Inr \<lparr>as_signature_bytes = bytes\<rparr>"
proof -
  let ?js = "[0..<length (sr_signer_set request)]"
  let ?s = "\<lambda>j. \<lparr>fss_request = request, fss_nonce_runtime = Some (drawn_nonce S (sr_session_id request) (rng j) (sh j))\<rparr>"
  let ?ns = "map (nonce_package B S request rng sh) ?js"
  have signers: "map (\<lambda>j. sr_signer_set request ! j) ?js = sr_signer_set request" by (rule map_nth)
  have selected: "collect (select_share local_shares) (sr_signer_set request) = Inr (map share ?js)"
    by (subst signers [symmetric], subst collect_map) (rule collect_map_Inr; simp add: sel)
  have enum: "enumerate 0 (zip (map (\<lambda>_. FrostSigningSession_new request) (map share ?js)) (map share ?js))
      = map (\<lambda>j. (j, FrostSigningSession_new request, share j)) ?js"
    by (rule nth_equalityI) (simp_all add: nth_enumerate_eq)
  have nonces: "collect (\<lambda>(i, session, share). call (fss_nonce B S (rng i) session share)) (map (\<lambda>j. (j, FrostSigningSession_new request, share j)) ?js)
      = Inr (map (\<lambda>j. (?s j, nonce_package B S request rng sh j)) ?js)"
    unfolding collect_map
    by (rule collect_map_Inr) (use R sel honest_nonce_call [of B request sh _ _ S rng] in \<open>simp add: call_def round_setup_def\<close>)
  have zip: "zip (map fst (map (\<lambda>j. (?s j, nonce_package B S request rng sh j)) ?js)) (map share ?js) = map (\<lambda>j. (?s j, share j)) ?js"
    unfolding map_map o_def fst_conv by (rule zip_map_same)
  have ns: "map snd (map (\<lambda>j. (?s j, nonce_package B S request rng sh j)) ?js) = ?ns" by simp
  have shares: "collect (\<lambda>(session, share). call (fss_sign_share B S session share ?ns)) (map (\<lambda>j. (?s j, share j)) ?js)
      = Inr (map (\<lambda>j. (FrostSigningSession_new request, share_package B S request rng sh z j)) ?js)"
    unfolding collect_map
    by (rule collect_map_Inr) (use sel honest_share_call [OF R fr] in \<open>simp add: call_def\<close>)
  show ?thesis
    unfolding sign_request_with_shares_def selected lift_err_simps rbind.simps Let_def enum nonces ns zip shares
    using honest_aggregate_call [OF R fr comb enc] by (simp add: o_def)
qed

text \<open>After an honest key generation, the signers' shares are found and belong to them.\<close>

lemma dealt_share_held:
  assumes i: "1 \<le> i" "i \<le> n" "n \<le> 65535"
  shows "select_share (map (dealt_share B K ag ps) [1..<Suc n]) (party i) = Inr (dealt_share B K ag ps i)"
proof -
  have "find (\<lambda>share. lks_participant_id share = party i) (map (dealt_share B K ag ps) [1..<Suc n]) = Some (dealt_share B K ag ps i)"
    unfolding find_Some_iff
    by (intro exI [of _ "i - 1"]) (use i in \<open>auto simp: dealt_share_def Let_def party_inj simp del: upt_Suc\<close>)
  then show ?thesis by (simp add: select_share_def ok_or_def)
qed

text \<open>
  The nonces of a signing are usable: not among those the library promises nothing for. The
  signer at position \<open>j\<close> seeds with the \<open>j\<close>-th draw, its share and the session name.
\<close>

definition nonces_usable where
  "nonces_usable K S bad t n rng sid srng signers digest \<longleftrightarrow> (\<forall>ag ps. honest_keygen K t n rng ag ps \<longrightarrow>
     \<not> bad (final_key K ag) (map (\<lambda>j. drawn_nonce S sid (srng j) (final_share K ps (unat (pid_val (signers ! j))))) [0..<length signers])
         (frost_message digest))"

text \<open>The positions of an accepted signer set without participant 0 stand for distinct participants \<open>1..n\<close>.\<close>

lemma signer_positions:
  assumes "validate_signer_set signers \<lparr>tc_threshold = t, tc_participants = n\<rparr> = Inr ()" "ParticipantId 0 \<notin> set signers"
  defines "ix \<equiv> \<lambda>j. unat (pid_val (signers ! j))"
  shows "inj_on ix {..<length signers}" "j < length signers \<Longrightarrow> 1 \<le> ix j \<and> ix j \<le> unat n" "signers ! j = party (ix j)"
    "x \<in> set signers \<Longrightarrow> pid_val x \<noteq> 0" "unat t \<le> length signers" "distinct signers"
proof -
  show v: "unat t \<le> length signers" "distinct signers" using assms(1) by (simp_all add: validate_signer_set_iff)
  show nz: "pid_val x \<noteq> 0" if "x \<in> set signers" for x using that assms(2) by (metis ParticipantId.collapse)
  have le: "pid_val x \<le> n" if "x \<in> set signers" for x using that assms(1) by (simp add: validate_signer_set_iff)
  show "signers ! j = party (ix j)" for j by (simp add: ix_def party_def as_u16_def)
  show "1 \<le> ix j \<and> ix j \<le> unat n" if "j < length signers"
    using le [of "signers ! j"] nz [of "signers ! j"] that by (simp add: ix_def word_le_nat_alt Suc_le_eq unat_gt_0)
  show "inj_on ix {..<length signers}"
    using v(2) by (intro inj_onI) (simp add: ix_def nth_eq_iff_index_eq [symmetric] ParticipantId.expand word_unat_eq_iff)
qed

text \<open>Signing takes an accepted signer set and a local share of each of its members.\<close>

lemma sign_digest_needs:
  assumes "sign_digest_with_shares B S srng sname tc gk digest shares signers = Inr sig"
  shows "validate_signer_set signers tc = Inr ()" "set signers \<subseteq> lks_participant_id ` set shares"
proof -
  from assms have v: "validate_signer_set signers tc = Inr ()"
    and "\<exists>sel. collect (select_share shares) signers = Inr sel"
    by (auto simp: sign_digest_with_shares_def sign_request_with_shares_def rbind_Inr_iff lift_err_Inr_iff)
  then have "\<exists>share. select_share shares x = Inr share" if "x \<in> set signers" for x
    using that by (auto simp: collect_Inr_iff list_all2_conv_all_nth in_set_conv_nth)
  then have "find (\<lambda>share. lks_participant_id share = x) shares \<noteq> None" if "x \<in> set signers" for x
    using that by (fastforce simp: select_share_def ok_or_def split: option.splits)
  then show "set signers \<subseteq> lks_participant_id ` set shares" by (fastforce simp: find_None_iff)
  from v show "validate_signer_set signers tc = Inr ()" .
qed

lemma party_nonzero: "1 \<le> i \<Longrightarrow> i \<le> 65535 \<Longrightarrow> pid_val (party i) \<noteq> 0"
  by (metis ParticipantId.sel as_u16_id not_one_le_zero party_def unat_0)

lemma dealt_shares_exclude_zero: "ParticipantId 0 \<notin> lks_participant_id ` set (map (dealt_share B K ag ps) [1..<Suc (unat (n :: u16))])"
proof
  assume "ParticipantId 0 \<in> lks_participant_id ` set (map (dealt_share B K ag ps) [1..<Suc (unat n)])"
  then obtain i where "1 \<le> i" "i \<le> unat n" "party i = ParticipantId 0" by (auto simp: dealt_share_def Let_def simp del: upt_Suc)
  with unat_u16_le [of n] party_nonzero [of i] show False by simp
qed

lemma frost_signs_after_keygen:
  fixes C :: "('f::field, 'p) secp"
  assumes F: "frost_setup C B K" and SL: "signing_laws C K S bad" and SC: "signing_codecs_ok C B"
    and t: "0 < t" "t \<le> n" and h: "honest_keygen K (ucast t) (unat n) rng ag ps" and nz: "keygen_nonzero K (ucast t) (unat n) rng"
    and signers: "validate_signer_set signers \<lparr>tc_threshold = t, tc_participants = n\<rparr> = Inr ()" "ParticipantId 0 \<notin> set signers"
    and sname: "SessionId_new sname = Inr sid" and len: "\<And>sig. length (signature_to_bytes C sig) = 64"
    and usable: "nonces_usable K S bad (ucast t) (unat n) rng sid srng signers digest"
  defines "shares \<equiv> map (dealt_share B K ag ps) [1..<Suc (unat n)]" and "gk \<equiv> lks_group_key (dealt_share B K ag ps 1)"
  shows "\<exists>sig. sign_digest_with_shares B S srng sname \<lparr>tc_threshold = t, tc_participants = n\<rparr> gk digest shares signers = Inr sig
    \<and> valid_signature C (gk_xonly_public_key gk) digest sig"
proof -
  let ?tc = "\<lparr>tc_threshold = t, tc_participants = n\<rparr>"
  define request where "request = \<lparr>sr_session_id = sid, sr_group_key = gk, sr_message_digest = digest, sr_signer_set = signers\<rparr>"
  define ix where "ix = request_index request"
  define sh where "sh = (\<lambda>j. final_share K ps (ix j))"
  have ixj: "ix = (\<lambda>j. unat (pid_val (signers ! j)))" by (simp add: ix_def request_index_def request_def fun_eq_iff)
  note pos = signer_positions [OF signers, folded ixj]
  have range: "ix ` {..<length signers} \<subseteq> {1..unat n}" using pos(2) by (auto simp: ixj)
  have ut: "unat (ucast t :: u32) = unat t" using unat_u16_le [of t] by (simp add: unsigned_ucast_eq take_bit_nat_eq_self)
  have "\<not> bad (final_key K ag) (map (\<lambda>j. drawn_nonce S sid (srng j) (sh j)) [0..<length signers]) (frost_message digest)"
    using usable h by (simp add: nonces_usable_def sh_def ixj)
  then obtain cs zs X sig where round: "frost_round S (final_key K ag) (length signers) ix sh
        (\<lambda>j. drawn_nonce S sid (srng j) (sh j)) (frost_message digest) cs zs"
      and sig: "verify_and_combine S cs (final_key K ag) (map_of (map (\<lambda>j. (of_nat (ix j), zs j)) [0..<length signers])) = Inr sig"
        "from_xonly_bytes C (key_xonly_bytes K (final_key K ag)) = Some X" "schnorr_verify C X (frost_message digest) sig"
    using SL [unfolded signing_laws_def, rule_format, of "ucast t" "length signers" "unat n" rng ag ps ix
        "\<lambda>j. drawn_nonce S sid (srng j) (sh j)" "frost_message digest"] t(1) ut unat_u16_le [of n] h nz pos(1,5) range
    unfolding sh_def by (auto simp: word_less_nat_alt)
  have gk: "gk = \<lparr>gk_xonly_public_key = key_xonly_bytes K (final_key K ag),
      gk_verification_key_bytes = encoded (bc_shared_key B) (final_key K ag)\<rparr>"
    by (simp add: gk_def dealt_share_def final_key_def Let_def)
  have R: "round_setup B request (final_key K ag)"
    using F SC pos(4,6) by (auto simp: round_setup_def frost_setup_def bincode_ok_def signing_codecs_ok_def request_def gk)
  have sel: "select_share shares (sr_signer_set request ! j) = Inr (dealt_share B K ag ps (ix j))
      \<and> holds_share B request sh j (dealt_share B K ag ps (ix j))" if "j < length (sr_signer_set request)" for j
    using dealt_share_held [of "ix j" "unat n" B K ag ps] pos(2,3) [of j] unat_u16_le [of n] that
    by (simp add: ixj shares_def request_def holds_share_def dealt_share_def gk final_key_def final_share_def sh_def Let_def)
  have "encode_binary (bc_signature B) sig = Inr (signature_to_bytes C sig)" "signature_to_bytes C sig \<noteq> []"
    using SC len [of sig] by (cases sig; force simp: signing_codecs_ok_def encode_binary_def map_serialization_err_def)+
  from sign_request_succeeds [OF R _ sel _ this, of S srng cs zs]
  have "sign_request_with_shares B S srng request shares signers = Inr \<lparr>as_signature_bytes = signature_to_bytes C sig\<rparr>"
    using round sig(1) by (simp add: ix_def request_def)
  then have "sign_digest_with_shares B S srng sname ?tc gk digest shares signers = Inr \<lparr>as_signature_bytes = signature_to_bytes C sig\<rparr>"
    using signers(1) sname by (simp add: sign_digest_with_shares_def SigningRequest_new_def request_def)
  moreover have "valid_signature C (gk_xonly_public_key gk) digest \<lparr>as_signature_bytes = signature_to_bytes C sig\<rparr>"
    unfolding valid_signature_def using sig(2,3) by (intro exI [of _ X] exI [of _ sig]) (simp add: gk)
  ultimately show ?thesis by blast
qed

end
