(* ===== verification/Examples.thy ===== *)
theory Examples
  imports Vault Frost_Signing
begin

text \<open>
  The example programs without a relay. \<open>nostr-dkg-cli\<close> runs a FROST key generation of three
  participants over the local Nostr transport; \<open>bitcoin-message-signing\<close> and the \<open>main\<close> of
  \<open>vault-service\<close> generate keys, derive an address and sign an authorisation. Printing is left
  out: a program returns what it prints. The state of a program is lost when it fails, so
  only results are kept.
\<close>

section \<open>Errors\<close>

text \<open>What ends an example: an error or panic of the crates, an \<open>anyhow\<close> error, a failed \<open>ensure!\<close>.\<close>

datatype demo_error = DemoFault fault | DemoText string | ConditionFailed string

definition demo_fault :: "'a outcome \<Rightarrow> demo_error + 'a" where
  "demo_fault r = (case r of Inl f \<Rightarrow> Inl (DemoFault f) | Inr x \<Rightarrow> Inr x)"

definition demo_dkg :: "'a result \<Rightarrow> demo_error + 'a" where
  "demo_dkg r = demo_fault (lift_err r)"

definition demo_text :: "'a anyhow \<Rightarrow> demo_error + 'a" where
  "demo_text r = (case r of Inl e \<Rightarrow> Inl (DemoText e) | Inr x \<Rightarrow> Inr x)"

text \<open>A fallible call on a coordinator: the coordinator it leaves behind and its value.\<close>

definition attempt :: "'s \<times> 'a result \<Rightarrow> demo_error + 's \<times> 'a" where
  "attempt sr = (case sr of (s, r) \<Rightarrow> rbind (demo_dkg r) (\<lambda>x. Inr (s, x)))"

lemma demo_result_simps [simp]:
  "demo_fault (Inr x) = Inr x" "demo_dkg (Inr x) = Inr x" "demo_text (Inr x) = Inr x" "attempt (s, Inr x) = Inr (s, x)"
  by (simp_all add: demo_fault_def demo_dkg_def demo_text_def attempt_def)

lemma demo_Inr_iff [result_simps]:
  "demo_fault r = Inr x \<longleftrightarrow> r = Inr x" "demo_dkg q = Inr y \<longleftrightarrow> q = Inr y" "demo_text a = Inr z \<longleftrightarrow> a = Inr z"
  by (auto simp: demo_fault_def demo_dkg_def demo_text_def lift_err_def split: sum.splits)

section \<open>\<open>nostr-dkg-cli\<close>\<close>

record cli_codecs =
  cc_message :: "ProtocolMessage codec"
  cc_round1 :: "Round1Package codec"
  cc_round2 :: "Round2Package codec"

record cli_report =
  cr_round1_events :: nat
  cr_round2_events :: nat
  cr_remaining_events :: nat
  cr_group_key :: bytes

abbreviation cli_transport :: "cli_codecs \<Rightarrow> LocalNostrEventTransport Transport" where
  "cli_transport V \<equiv> local_nostr_ops (cc_message V)"

type_synonym cli_coordinator = "LocalNostrEventTransport FrostCoordinator"

text \<open>The bodies of the loops; the sessions they leave behind are collected.\<close>

definition cli_round1 ::
    "bool \<Rightarrow> ('f::field, 'p) secp \<Rightarrow> ('f, 'ki, 'ps, 'sk, 'nn, 'sg) bincode_lib
      \<Rightarrow> ('f, 'ct, 'ki, 'co, 'ag, 'ps, 'sk, 'r) keygen_lib \<Rightarrow> cli_codecs \<Rightarrow> SessionId \<Rightarrow> (nat \<Rightarrow> 'r)
      \<Rightarrow> nat \<times> 'ct FrostDkgSession \<Rightarrow> cli_coordinator \<times> 'ct FrostDkgSession list
      \<Rightarrow> demo_error + cli_coordinator \<times> 'ct FrostDkgSession list" where
  "cli_round1 oc C B K V session_id rng is st =
     (let (i, session) = is; (coordinator, done) = st in
      rbind (demo_fault (call (fds_round1 oc C B K (rng i) session))) (\<lambda>(session, round1).
      rbind (attempt (publish_round1 (cli_transport V) (cc_round1 V) coordinator session_id round1)) (\<lambda>(coordinator, _).
      Inr (coordinator, done @ [session]))))"

definition cli_round2 ::
    "bool \<Rightarrow> ('f, 'ki, 'ps, 'sk, 'nn, 'sg) bincode_lib \<Rightarrow> ('f, 'ct, 'ki, 'co, 'ag, 'ps, 'sk, 'r) keygen_lib
      \<Rightarrow> cli_codecs \<Rightarrow> SessionId \<Rightarrow> Round1Package list
      \<Rightarrow> 'ct FrostDkgSession \<Rightarrow> cli_coordinator \<times> 'ct FrostDkgSession list
      \<Rightarrow> demo_error + cli_coordinator \<times> 'ct FrostDkgSession list" where
  "cli_round2 oc B K V session_id round1_packages session st =
     (let (coordinator, done) = st in
      rbind (demo_fault (call (fds_round2 oc B K session round1_packages))) (\<lambda>(session, packages).
      rbind (try_for (\<lambda>round2 coordinator.
               rbind (attempt (publish_round2 (cli_transport V) (cc_round2 V) coordinator session_id round2)) (\<lambda>(coordinator, _).
               Inr coordinator)) packages coordinator) (\<lambda>coordinator.
      Inr (coordinator, done @ [session]))))"

definition cli_drain ::
    "cli_codecs \<Rightarrow> SessionId \<Rightarrow> u16 \<Rightarrow> cli_coordinator \<times> Round2Package list list
      \<Rightarrow> demo_error + cli_coordinator \<times> Round2Package list list" where
  "cli_drain V session_id recipient st =
     (let (coordinator, drained) = st in
      rbind (demo_dkg (ParticipantId_new recipient)) (\<lambda>recipient.
      rbind (attempt (drain_round2_for (cli_transport V) (cc_round2 V) coordinator session_id recipient)) (\<lambda>(coordinator, packages).
      Inr (coordinator, drained @ [packages]))))"

definition cli_main ::
    "bool \<Rightarrow> ('f::field, 'p) secp \<Rightarrow> ('f, 'ki, 'ps, 'sk, 'nn, 'sg) bincode_lib
      \<Rightarrow> ('f, 'ct, 'ki, 'co, 'ag, 'ps, 'sk, 'r) keygen_lib \<Rightarrow> cli_codecs \<Rightarrow> (nat \<Rightarrow> 'r) \<Rightarrow> demo_error + cli_report" where
  "cli_main oc C B K V rng =
     rbind (demo_dkg (collect (create_frost_session ''nostr-local-demo'' 2 3) [1, 2, 3])) (\<lambda>dkg_sessions.
     let session_id = dsc_session_id (fds_config (dkg_sessions ! 0)) in
     rbind (attempt (fc_connect (cli_transport V) (FrostCoordinator_new LocalNostrEventTransport_default))) (\<lambda>(coordinator, _).
     rbind (try_for (cli_round1 oc C B K V session_id rng) (enumerate 0 dkg_sessions) (coordinator, [])) (\<lambda>(coordinator, dkg_sessions).
     let nostr_round1_events = ln_pending_len (fc_transport coordinator) in
     rbind (attempt (drain_round1 (cli_transport V) (cc_round1 V) coordinator session_id)) (\<lambda>(coordinator, round1_packages).
     rbind (try_for (cli_round2 oc B K V session_id round1_packages) dkg_sessions (coordinator, [])) (\<lambda>(coordinator, dkg_sessions).
     let nostr_round2_events = ln_pending_len (fc_transport coordinator) in
     rbind (try_for (cli_drain V session_id) [1, 2, 3] (coordinator, [])) (\<lambda>(coordinator, round2).
     rbind (demo_fault (collect (\<lambda>(session, packages). fds_finalize oc B K session packages) (zip dkg_sessions round2))) (\<lambda>shares.
     rbind (ensure (lks_group_key (shares ! 0) = lks_group_key (shares ! 1))
              (ConditionFailed ''alice_share.group_key == bob_share.group_key'')) (\<lambda>_.
     rbind (ensure (lks_group_key (shares ! 1) = lks_group_key (shares ! 2))
              (ConditionFailed ''bob_share.group_key == carol_share.group_key'')) (\<lambda>_.
     Inr \<lparr>cr_round1_events = nostr_round1_events, cr_round2_events = nostr_round2_events,
          cr_remaining_events = ln_pending_len (fc_transport coordinator),
          cr_group_key = gk_xonly_public_key (lks_group_key (shares ! 0))\<rparr>)))))))))"

section \<open>\<open>bitcoin-message-signing\<close>\<close>

record ('ad) signing_report =
  sgr_address :: 'ad
  sgr_text :: string
  sgr_digest :: bytes
  sgr_verified :: bool
  sgr_signature :: bytes

definition payment_authorization :: BitcoinAuthorizationMessage where
  "payment_authorization = \<lparr>bam_network = ''signet'', bam_action = ''approve-payment'',
     bam_recipient = Some ''tb1p...demo-recipient'', bam_amount_sats = Some 100000,
     bam_memo = Some ''hackathon demo payout'', bam_nonce = ''demo-session-001''\<rparr>"

definition message_signing_main ::
    "bool \<Rightarrow> ('f::field, 'p) secp \<Rightarrow> ('f, 'ki, 'ps, 'sk, 'nn, 'sg) bincode_lib
      \<Rightarrow> ('f, 'ct, 'ki, 'co, 'ag, 'ps, 'sk, 'r) keygen_lib \<Rightarrow> ('f, 'p, 'ps, 'sk, 'nk, 'nn, 'cs, 'pt, 'sg, 'r) signing_lib
      \<Rightarrow> ('f, 'p, 'ad) btc_lib \<Rightarrow> (nat \<Rightarrow> 'r) \<Rightarrow> (nat \<Rightarrow> 'r) \<Rightarrow> demo_error + 'ad signing_report" where
  "message_signing_main oc C B K S L keygen_rng signing_rng =
     rbind (demo_fault (run_local_frost_dkg oc C B K keygen_rng ''demo-dkg'' 2 3)) (\<lambda>local_shares.
     let group_key = lks_group_key (local_shares ! 0);
         group_key_hex = hex_encode L (gk_xonly_public_key group_key) in
     rbind (demo_text (taproot_address_from_xonly_hex L group_key_hex Signet)) (\<lambda>address.
     let authorization = payment_authorization;
         digest = bam_digest L authorization in
     rbind (demo_dkg (ThresholdConfig_new 2 3)) (\<lambda>threshold.
     rbind (demo_dkg (collect ParticipantId_new [1, 2])) (\<lambda>signer_set.
     rbind (demo_fault (sign_digest_with_shares B S signing_rng ''demo-signing'' threshold group_key digest local_shares signer_set)) (\<lambda>aggregate.
     rbind (demo_text (verify_aggregate_signature_digest L (lks_group_key (local_shares ! 0)) digest aggregate)) (\<lambda>verified.
     rbind (ensure verified (DemoText ''aggregate signature did not verify against group key'')) (\<lambda>_.
     Inr \<lparr>sgr_address = address, sgr_text = canonical_text authorization, sgr_digest = digest, sgr_verified = verified,
          sgr_signature = as_signature_bytes aggregate\<rparr>)))))))"

section \<open>The \<open>main\<close> of \<open>vault-service\<close>\<close>

record vault_report =
  vr_vault_id :: string
  vr_group_key :: bytes
  vr_path :: string
  vr_address :: string
  vr_signers :: "u16 list"
  vr_digest :: bytes
  vr_first_share :: u16
  vr_remaining_events :: nat

definition of_vault :: "'s \<times> (vault_error + 'a) \<Rightarrow> demo_error + 's \<times> 'a" where
  "of_vault sr = (case sr of
      (s, Inl (FromDkg e)) \<Rightarrow> Inl (DemoFault (Err e))
    | (s, Inl (Message e)) \<Rightarrow> Inl (DemoText e)
    | (s, Inr x) \<Rightarrow> Inr (s, x))"

definition vault_authorization :: "BitcoinAddressDescriptor \<Rightarrow> BitcoinAuthorizationMessage" where
  "vault_authorization address = \<lparr>bam_network = ''regtest'', bam_action = ''approve-payment'',
     bam_recipient = Some (bad_address address), bam_amount_sats = Some 100000,
     bam_memo = Some ''vault-service spec execution'', bam_nonce = ''approval-001''\<rparr>"

text \<open>
  \<open>key_rnd i\<close> are the draws of the \<open>i\<close>-th participant for the key generation, \<open>nonce_rnd i\<close>
  is the nonce of the \<open>i\<close>-th signer. \<open>service.group_key\<close> is read with \<open>expect\<close>.
\<close>

definition vault_main ::
    "vault_codecs \<Rightarrow> ('f::field, 'p::ab_group_add) secp \<Rightarrow> ('f, 'p, 'ad) btc_lib \<Rightarrow> (nat \<Rightarrow> nat \<Rightarrow> 'f) \<Rightarrow> (nat \<Rightarrow> 'f)
      \<Rightarrow> demo_error + vault_report" where
  "vault_main V C L key_rnd nonce_rnd =
     rbind (demo_dkg grouped_config_123_of_235) (\<lambda>grouped_config.
     rbind (demo_dkg (vault_new ''treasury-demo'' ''treasury-demo-dkg'' ''regtest'' (replicate 32 42) grouped_config)) (\<lambda>service.
     rbind (attempt (connect_transport V service)) (\<lambda>(service, _).
     rbind (attempt (run_htss_dkg V C key_rnd service)) (\<lambda>(service, _).
     rbind (demo_text (derive_receive_address L service 0 0 0)) (\<lambda>address.
     let authorization = vault_authorization address in
     rbind (demo_dkg (collect ParticipantId_new [1, 3, 4, 6, 7, 8])) (\<lambda>signer_set.
     rbind (of_vault (sign_authorization V C L nonce_rnd service ''treasury-demo-signing'' authorization signer_set)) (\<lambda>(service, first_share).
     rbind (demo_fault (expect (vs_group_key service) ''DKG finalized'')) (\<lambda>group_key.
     Inr \<lparr>vr_vault_id = vs_vault_id service, vr_group_key = gk_xonly_public_key group_key,
          vr_path = display_path (bad_path address), vr_address = bad_address address,
          vr_signers = map pid_val signer_set, vr_digest = bam_digest L authorization,
          vr_first_share = pid_val (hss_participant_id first_share),
          vr_remaining_events = ln_pending_len (fc_transport (vs_coordinator service))\<rparr>))))))))"

section \<open>Three participants over the local transport\<close>

definition cli_codecs_ok :: "cli_codecs \<Rightarrow> bool" where
  "cli_codecs_ok V \<longleftrightarrow> json_ok (cc_message V) \<and> codec_ok (cc_round1 V) \<and> codec_ok (cc_round2 V)"

definition cli_carries :: "cli_codecs \<Rightarrow> cli_coordinator \<Rightarrow> ProtocolMessage list \<Rightarrow> bool" where
  "cli_carries V c ms \<longleftrightarrow> ln_ok (cc_message V) (fc_transport c) \<and> ln_pending (cc_message V) (fc_transport c) = ms"

lemma cli_carries_len: "cli_carries V c ms \<Longrightarrow> ln_pending_len (fc_transport c) = length ms"
  by (auto simp: cli_carries_def ln_pending_def ln_pending_len_def)

lemma cli_publish:
  assumes "cli_carries V c ms" "deliverable m"
  shows "\<exists>c'. fc_publish (cli_transport V) c (Inr m) = (c', Inr ()) \<and> cli_carries V c' (ms @ [m])"
  using message_queue.fc_publish_step [OF local_nostr.message_queue_axioms [of "cc_message V"], of c "Inr m" m] assms
  by (auto simp: cli_carries_def)

lemma cli_drain_packages:
  assumes "cli_carries V c (map g ks)" "\<And>k. k \<in> set ks \<Longrightarrow> from_message (g k) = Inr k"
    "\<And>k. k \<in> set ks \<Longrightarrow> pm_session_id (g k) = sid" "\<And>k. k \<in> set ks \<Longrightarrow> P (g k) \<longleftrightarrow> Q k"
  shows "\<exists>c'. fc_drain (cli_transport V) c sid P from_message = (c', Inr (filter Q ks))
    \<and> cli_carries V c' (map g (filter (\<lambda>k. \<not> Q k) ks))"
  using drain_queue.fc_drain_packages [OF local_nostr.drain_queue_axioms [of "cc_message V"], of c g ks from_message sid P Q] assms
  by (auto simp: cli_carries_def)

definition cli_message1 where
  "cli_message1 V sid k = projr (Round1Package_to_protocol_message (cc_round1 V) k sid)"

definition cli_message2 where
  "cli_message2 V sid k = projr (Round2Package_to_protocol_message (cc_round2 V) k sid)"

lemma cli_codecsD:
  assumes "cli_codecs_ok V"
  shows "json_ok (cc_message V)" "codec_ok (cc_round1 V)" "codec_ok (cc_round2 V)"
  using assms by (simp_all add: cli_codecs_ok_def)

lemma frost_kind_names [simp]: "named FrostDkgRound1" "named FrostDkgRound2"
  by (simp_all add: named_def white1_def white2_def white3_def)

lemmas cli_delivered1 = package_delivered [OF round1.package_message_axioms cli_codecsD(2), folded cli_message1_def, simplified]
lemmas cli_delivered2 = package_delivered [OF round2.package_message_axioms cli_codecsD(3), folded cli_message2_def, simplified]

lemma cli_round1_loop:
  assumes V: "cli_codecs_ok V" and S: "frost_setup C B K" and t: "0 < t" "t \<le> n" and sid: "proper sid" and c: "cli_carries V c []"
  shows "\<exists>c'. try_for (cli_round1 oc C B K V sid rng)
        (map (\<lambda>j. (j, FrostDkgSession_new (party_config sid t n j))) [0..<unat n]) (c, [])
      = Inr (c', map (\<lambda>j. party_session C B K sid t n rng [(party (Suc j), round1_of B K t n rng j)] j) [0..<unat n])
    \<and> cli_carries V c' (map (cli_message1 V sid) (all_round1 B K t n rng))"
proof -
  let ?s1 = "\<lambda>j. party_session C B K sid t n rng [(party (Suc j), round1_of B K t n rng j)] j"
  let ?g = "\<lambda>j. cli_message1 V sid (round1_of B K t n rng j)"
  let ?body = "\<lambda>j. cli_round1 oc C B K V sid rng (j, FrostDkgSession_new (party_config sid t n j))"
  let ?I = "\<lambda>js st. \<exists>c'. st = (c', map ?s1 js) \<and> cli_carries V c' (map ?g js)"
  have "\<exists>st. try_for ?body [0..<unat n] (c, []) = Inr st \<and> ?I [0..<unat n] st"
  proof (rule try_for_invariant)
    show "?I [] (c, [])" using c by simp
    fix ys j zs st
    assume js: "[0..<unat n] = ys @ j # zs" and "?I ys st"
    then obtain c' where st: "st = (c', map ?s1 ys)" "cli_carries V c' (map ?g ys)" by blast
    have "j \<in> set [0..<unat n]" unfolding js by simp
    then have j: "j < unat n" by simp
    then have "deliverable (?g j)"
      by (intro cli_delivered1(6) [OF V sid]) (use unat_u16_le [of n] in \<open>simp add: round1_of_def party_nonzero\<close>)
    from cli_publish [OF st(2) this] obtain c'' where "fc_publish (cli_transport V) c' (Inr (?g j)) = (c'', Inr ())"
      "cli_carries V c'' (map ?g (ys @ [j]))" by auto
    then show "\<exists>st'. ?body j st = Inr st' \<and> ?I (ys @ [j]) st'"
      using honest_round1_call [OF S t j, of oc rng sid] cli_delivered1(1) [OF V, of "round1_of B K t n rng j" sid]
      by (simp add: cli_round1_def st(1) call_def publish_round1_def)
  qed
  then show ?thesis unfolding try_for_map by (auto simp: all_round1_def o_def)
qed

lemma round2_of_parties:
  assumes S: "frost_setup C B K" and t: "0 < t" "t \<le> n" "j < unat n" and p: "p \<in> set (round2_of C B K t n rng j)"
  shows "r2_sender p = party (Suc j)" "\<exists>i\<in>{1..unat n}. r2_recipient p = party i"
proof -
  from p obtain x v where xv: "(x, v) \<in> set (snd (snd (contribution16 K t n rng j)))" "r2_sender p = party (Suc j)"
    "r2_recipient p = projr (participant_id_from_scalar_bytes (scalar_to_bytes C x))"
    by (auto simp: round2_of_def pending_of_def)
  then have "x \<in> fst ` set (snd (snd (contribution16 K t n rng j)))" by force
  with keygen_lawsD(2) [of K t n j rng] S t obtain i where i: "i \<in> {1..unat n}" "x = of_nat i"
    by (auto simp: frost_setup_def party_indices_eq)
  with xv(3) participant_id_of_index [of C i] S unat_u16_le [of n] have "r2_recipient p = party i" by (simp add: frost_setup_def)
  with i xv(2) show "r2_sender p = party (Suc j)" "\<exists>i\<in>{1..unat n}. r2_recipient p = party i" by blast+
qed

lemma cli_publish_round2:
  assumes V: "cli_codecs_ok V" and sid: "proper sid" and c: "cli_carries V c ms"
    and ks: "\<And>k. k \<in> set ks \<Longrightarrow> pid_val (r2_sender k) \<noteq> 0 \<and> pid_val (r2_recipient k) \<noteq> 0"
  shows "\<exists>c'. try_for (\<lambda>round2 coordinator. rbind (attempt (publish_round2 (cli_transport V) (cc_round2 V) coordinator sid round2))
        (\<lambda>(coordinator, _). Inr coordinator)) ks c = Inr c'
    \<and> cli_carries V c' (ms @ map (cli_message2 V sid) ks)"
proof (rule try_for_invariant [where I = "\<lambda>done c. cli_carries V c (ms @ map (cli_message2 V sid) done)"])
  show "cli_carries V c (ms @ map (cli_message2 V sid) [])" using c by simp
  fix ys k zs c'
  assume "ks = ys @ k # zs" and c': "cli_carries V c' (ms @ map (cli_message2 V sid) ys)"
  then have "deliverable (cli_message2 V sid k)" using ks [of k] by (intro cli_delivered2(6) [OF V sid]) simp_all
  from cli_publish [OF c' this] cli_delivered2(1) [OF V, of k sid]
  show "\<exists>s'. rbind (attempt (publish_round2 (cli_transport V) (cc_round2 V) c' sid k)) (\<lambda>(coordinator, _). Inr coordinator) = Inr s'
      \<and> cli_carries V s' (ms @ map (cli_message2 V sid) (ys @ [k]))"
    by (auto simp: publish_round2_def)
qed

lemma cli_round2_loop:
  assumes V: "cli_codecs_ok V" and S: "frost_setup C B K" and t: "0 < t" "t \<le> n" and sid: "proper sid" and c: "cli_carries V c []"
    and h: "honest_keygen K (ucast t) (unat n) rng ag ps"
  shows "\<exists>c'. try_for (cli_round2 oc B K V sid (all_round1 B K t n rng))
        (map (\<lambda>j. party_session C B K sid t n rng (pkgs j) j) [0..<unat n]) (c, [])
      = Inr (c', map (party_session C B K sid t n rng (keyed (all_round1 B K t n rng))) [0..<unat n])
    \<and> cli_carries V c' (map (cli_message2 V sid) (concat (map (round2_of C B K t n rng) [0..<unat n])))"
proof -
  let ?s2 = "party_session C B K sid t n rng (keyed (all_round1 B K t n rng))"
  let ?g = "\<lambda>js. map (cli_message2 V sid) (concat (map (round2_of C B K t n rng) js))"
  let ?body = "\<lambda>j. cli_round2 oc B K V sid (all_round1 B K t n rng) (party_session C B K sid t n rng (pkgs j) j)"
  let ?I = "\<lambda>js st. \<exists>c'. st = (c', map ?s2 js) \<and> cli_carries V c' (?g js)"
  have "\<exists>st. try_for ?body [0..<unat n] (c, []) = Inr st \<and> ?I [0..<unat n] st"
  proof (rule try_for_invariant)
    show "?I [] (c, [])" using c by simp
    fix ys j zs st
    assume js: "[0..<unat n] = ys @ j # zs" and "?I ys st"
    then obtain c' where st: "st = (c', map ?s2 ys)" "cli_carries V c' (?g ys)" by blast
    have "j \<in> set [0..<unat n]" unfolding js by simp
    then have j: "j < unat n" by simp
    have "pid_val (r2_sender k) \<noteq> 0 \<and> pid_val (r2_recipient k) \<noteq> 0" if "k \<in> set (round2_of C B K t n rng j)" for k
      using round2_of_parties [OF S t j that] j unat_u16_le [of n] by (auto simp: party_nonzero)
    from cli_publish_round2 [OF V sid st(2) this, of "round2_of C B K t n rng j"]
    show "\<exists>st'. ?body j st = Inr st' \<and> ?I (ys @ [j]) st'"
      using honest_round2_call [OF S h refl, of oc sid "pkgs j" j] by (auto simp: cli_round2_def st(1) call_def)
  qed
  then show ?thesis unfolding try_for_map by auto
qed

text \<open>Everybody drains the packages for it, from what the others left.\<close>

lemma cli_drain_loop:
  assumes V: "cli_codecs_ok V" and c: "cli_carries V c (map (cli_message2 V sid) ks)" and n: "n \<le> 65535"
    and ks: "\<And>k. k \<in> set ks \<Longrightarrow> \<exists>i\<in>{1..n}. r2_recipient k = party i"
  shows "\<exists>c'. try_for (cli_drain V sid) (map (\<lambda>j. as_u16 (Suc j)) [0..<n]) (c, [])
      = Inr (c', map (\<lambda>j. filter (\<lambda>k. r2_recipient k = party (Suc j)) ks) [0..<n])
    \<and> cli_carries V c' []"
proof -
  let ?rest = "\<lambda>js. filter (\<lambda>k. r2_recipient k \<notin> (\<lambda>j. party (Suc j)) ` set js) ks"
  let ?I = "\<lambda>js st. \<exists>c'. st = (c', map (\<lambda>j. filter (\<lambda>k. r2_recipient k = party (Suc j)) ks) js)
      \<and> cli_carries V c' (map (cli_message2 V sid) (?rest js))"
  have "\<exists>st. try_for (\<lambda>j. cli_drain V sid (as_u16 (Suc j))) [0..<n] (c, []) = Inr st \<and> ?I [0..<n] st"
  proof (rule try_for_invariant)
    show "?I [] (c, [])" using c by simp
    fix ys j zs st
    assume js: "[0..<n] = ys @ j # zs" and "?I ys st"
    then obtain c' where st: "st = (c', map (\<lambda>j. filter (\<lambda>k. r2_recipient k = party (Suc j)) ks) ys)"
      "cli_carries V c' (map (cli_message2 V sid) (?rest ys))" by blast
    have "distinct (ys @ j # zs)" "set (ys @ j # zs) = {0..<n}" unfolding js [symmetric] by simp_all
    then have j: "j < n" "j \<notin> set ys" "\<forall>k\<in>set ys. k < n" by auto
    then have fresh: "\<forall>k\<in>set ys. party (Suc k) \<noteq> party (Suc j)" using n by (auto simp: party_inj)
    have id: "ParticipantId_new (as_u16 (Suc j)) = Inr (party (Suc j))"
      using party_nonzero [of "Suc j"] j n by (simp add: ParticipantId_new_def party_def)
    obtain c'' where dr: "drain_round2_for (cli_transport V) (cc_round2 V) c' sid (party (Suc j))
          = (c'', Inr (filter (\<lambda>k. r2_recipient k = party (Suc j)) (?rest ys)))"
      "cli_carries V c'' (map (cli_message2 V sid) (filter (\<lambda>k. r2_recipient k \<noteq> party (Suc j)) (?rest ys)))"
      using cli_drain_packages [OF st(2), where from_message = "Round2Package_from_protocol_message (cc_round2 V)" and sid = sid
        and P = "\<lambda>m. pm_kind m = FrostDkgRound2 \<and> is_for m (party (Suc j))" and Q = "\<lambda>k. r2_recipient k = party (Suc j)"]
      by (auto simp: cli_delivered2 [OF V] is_for_def drain_round2_for_def)
    have "filter (\<lambda>k. r2_recipient k = party (Suc j)) (?rest ys) = filter (\<lambda>k. r2_recipient k = party (Suc j)) ks"
      using fresh by (auto intro!: filter_cong)
    moreover have "filter (\<lambda>k. r2_recipient k \<noteq> party (Suc j)) (?rest ys) = ?rest (ys @ [j])" by (auto intro!: filter_cong)
    ultimately show "\<exists>st'. cli_drain V sid (as_u16 (Suc j)) st = Inr st' \<and> ?I (ys @ [j]) st'"
      using dr by (simp add: cli_drain_def st(1) id)
  qed
  moreover have "?rest [0..<n] = []"
  proof -
    have "r2_recipient k \<in> (\<lambda>j. party (Suc j)) ` {0..<n}" if k: "k \<in> set ks" for k
    proof -
      from ks [OF k] obtain i where i: "1 \<le> i" "i \<le> n" "r2_recipient k = party i" by auto
      then show ?thesis by (intro image_eqI [of _ _ "i - 1"]) auto
    qed
    then show ?thesis by (simp add: filter_empty_conv)
  qed
  ultimately show ?thesis unfolding try_for_map by auto
qed

lemma of_nat_index_inj:
  assumes big: "big_characteristic TYPE('f::field)" and le: "i \<le> 65535" "j \<le> 65535" and eq: "(of_nat i :: 'f) = of_nat j"
  shows "i = j"
  using scalar_of_u16_inj [OF big, of "as_u16 i" "as_u16 j"] le eq by (simp add: scalar_of_u16_eq as_u16_id) (metis as_u16_id)

lemma round2_of_length:
  assumes S: "frost_setup C B K" and t: "0 < t" "t \<le> n" "j < unat n"
  shows "length (round2_of (C :: ('f::field, 'p) secp) B K t n rng j) = unat n"
proof -
  note laws = keygen_lawsD [of K t n j rng]
  have "length (round2_of C B K t n rng j) = card (fst ` set (snd (snd (contribution16 K t n rng j))))"
    using laws(1) S t distinct_card [of "map fst (snd (snd (contribution16 K t n rng j)))"]
    by (simp add: frost_setup_def round2_of_def pending_of_def)
  also have "\<dots> = card (set (party_indices (unat n) :: 'f list))" using laws(2) S t by (simp add: frost_setup_def)
  also have "\<dots> = unat n"
  proof -
    have "inj_on (of_nat :: nat \<Rightarrow> 'f) {1..<Suc (unat n)}"
      using S unat_u16_le [of n] by (auto intro!: inj_onI of_nat_index_inj simp: frost_setup_def)
    then show ?thesis by (simp add: party_indices_def card_image del: upt_Suc)
  qed
  finally show ?thesis .
qed

lemma all_round2_length:
  assumes "frost_setup C B K" "0 < t" "t \<le> n"
  shows "length (concat (map (round2_of (C :: ('f::field, 'p) secp) B K t n rng) [0..<unat n])) = unat n * unat n"
proof -
  have "map length (map (round2_of C B K t n rng) [0..<unat n]) = map (\<lambda>_. unat n) [0..<unat n]"
    using round2_of_length [OF assms] by simp
  then have "length (concat (map (round2_of C B K t n rng) [0..<unat n])) = sum_list (map (\<lambda>_. unat n) [0..<unat n])"
    unfolding length_concat by (rule arg_cong)
  then show ?thesis by (simp add: sum_list_triv)
qed

lemma cli_finalize_all:
  fixes C :: "('f::field, 'p) secp"
  assumes S: "frost_setup C B K" and t: "0 < t" "t \<le> n"
    and h: "honest_keygen K (ucast t) (unat n) rng ag ps" and nz: "keygen_nonzero K (ucast t) (unat n) rng"
  shows "collect (\<lambda>(session, packages). fds_finalize oc B K session packages)
      (zip (map (party_session C B K sid t n rng (keyed (all_round1 B K t n rng))) [0..<unat n])
         (map (\<lambda>j. filter (\<lambda>k. r2_recipient k = party (Suc j)) (concat (map (round2_of C B K t n rng) [0..<unat n]))) [0..<unat n]))
    = Inr (map (\<lambda>j. dealt_share B K ag ps (Suc j)) [0..<unat n])"
  unfolding zip_map_same collect_map prod.case
proof (rule collect_map_Inr)
  fix j assume j: "j \<in> set [0..<unat n]"
  let ?ins = "filter (\<lambda>k. r2_recipient k = party (Suc j)) (concat (map (round2_of C B K t n rng) [0..<unat n]))"
  from j have "mset (filter (\<lambda>k. r2_recipient k = party (Suc j)) ?ins) = mset (map (secret_package B K t n rng (Suc j)) [0..<unat n])"
    unfolding filter_filter using all_round2_for [OF S t, of "Suc j" rng] by simp
  then show "fds_finalize oc B K (party_session C B K sid t n rng (keyed (all_round1 B K t n rng)) j) ?ins
      = Inr (dealt_share B K ag ps (Suc j))"
    by (rule honest_finalize_call [OF S h nz, rotated]) (use j in simp)
qed

lemma cli_main_succeeds:
  fixes C :: "('f::field, 'p) secp"
  assumes V: "cli_codecs_ok V" and S: "frost_setup C B K" and h: "honest_keygen K 2 3 rng ag ps" and nz: "keygen_nonzero K 2 3 rng"
  shows "cli_main oc C B K V rng = Inr \<lparr>cr_round1_events = 3, cr_round2_events = 9, cr_remaining_events = 0,
    cr_group_key = gk_xonly_public_key (lks_group_key (dealt_share B K ag ps 1))\<rparr>"
proof -
  let ?t = "2 :: u16" and ?n = "3 :: u16" and ?sid = "SessionId ''nostr-local-demo''" and ?js = "[0..<unat (3 :: u16)]"
  let ?r1 = "all_round1 B K ?t ?n rng" and ?s0 = "\<lambda>j. FrostDkgSession_new (party_config (SessionId ''nostr-local-demo'') 2 3 j)"
  let ?r2 = "concat (map (round2_of C B K ?t ?n rng) ?js)"
  have t: "0 < ?t" "?t \<le> ?n" by simp_all
  have h': "honest_keygen K (ucast ?t) (unat ?n) rng ag ps" and nz': "keygen_nonzero K (ucast ?t) (unat ?n) rng"
    using h nz by simp_all
  have name: "SessionId_new ''nostr-local-demo'' = Inr ?sid" by code_simp
  then have sid: "proper ?sid" by (rule SessionId_new_proper)
  have ids: "[1, 2, 3] = map (\<lambda>j. as_u16 (Suc j)) ?js" by code_simp
  have created: "collect (create_frost_session ''nostr-local-demo'' 2 3) [1, 2, 3] = Inr (map ?s0 ?js)"
    unfolding ids collect_map by (rule collect_map_Inr) (use create_party_session [OF name t] in auto)
  have enum: "enumerate 0 (map ?s0 ?js) = map (\<lambda>j. (j, ?s0 j)) ?js" by (rule enumerate_map_upt)
  have sid0: "dsc_session_id (fds_config (map ?s0 ?js ! 0)) = ?sid"
    by (simp add: FrostDkgSession_new_def party_config_def)
  obtain c0 where connect: "fc_connect (cli_transport V) (FrostCoordinator_new LocalNostrEventTransport_default) = (c0, Inr ())"
    "cli_carries V c0 []"
    using cli_codecsD(1) [OF V]
    by (simp add: fc_connect_def local_nostr_ops_def ln_connect_def FrostCoordinator_new_def LocalNostrEventTransport_default_def
        cli_carries_def ln_ok_def ln_pending_def)
  let ?s1 = "\<lambda>j. party_session C B K ?sid ?t ?n rng [(party (Suc j), round1_of B K ?t ?n rng j)] j"
  let ?s2 = "party_session C B K ?sid ?t ?n rng (keyed ?r1)"
  obtain c1 where loop1: "try_for (cli_round1 oc C B K V ?sid rng) (map (\<lambda>j. (j, ?s0 j)) ?js) (c0, []) = Inr (c1, map ?s1 ?js)"
    "cli_carries V c1 (map (cli_message1 V ?sid) ?r1)"
    using cli_round1_loop [OF V S t sid connect(2), of oc rng] by blast
  obtain c2 where drain1: "drain_round1 (cli_transport V) (cc_round1 V) c1 ?sid = (c2, Inr ?r1)" "cli_carries V c2 []"
    using cli_drain_packages [OF loop1(2), where from_message = "Round1Package_from_protocol_message (cc_round1 V)" and sid = ?sid
      and P = "\<lambda>m. pm_kind m = FrostDkgRound1" and Q = "\<lambda>_. True"]
    by (auto simp: cli_delivered1 [OF V] drain_round1_def)
  obtain c3 where loop2: "try_for (cli_round2 oc B K V ?sid ?r1) (map ?s1 ?js) (c2, []) = Inr (c3, map ?s2 ?js)"
    "cli_carries V c3 (map (cli_message2 V ?sid) ?r2)"
    using cli_round2_loop [OF V S t sid drain1(2) h', of oc "\<lambda>j. [(party (Suc j), round1_of B K ?t ?n rng j)]"] by blast
  have recips: "\<exists>i\<in>{1..unat ?n}. r2_recipient k = party i" if "k \<in> set ?r2" for k
    using that round2_of_parties(2) [OF S t] by fastforce
  obtain c4 where drain2: "try_for (cli_drain V ?sid) [1, 2, 3] (c3, [])
      = Inr (c4, map (\<lambda>j. filter (\<lambda>k. r2_recipient k = party (Suc j)) ?r2) ?js)" "cli_carries V c4 []"
    using cli_drain_loop [OF V loop2(2) unat_u16_le recips] unfolding ids by blast
  have len: "ln_pending_len (fc_transport c1) = 3" "ln_pending_len (fc_transport c3) = 9" "ln_pending_len (fc_transport c4) = 0"
    using cli_carries_len [OF loop1(2)] cli_carries_len [OF loop2(2)] cli_carries_len [OF drain2(2)] all_round2_length [OF S t, of rng]
    by (simp_all add: all_round1_def)
  have key: "lks_group_key (dealt_share B K ag ps i) = lks_group_key (dealt_share B K ag ps 1)" for i
    by (simp add: dealt_share_def Let_def)
  show ?thesis
    unfolding cli_main_def created demo_result_simps rbind.simps Let_def sid0 connect(1) prod.case enum loop1(1) drain1(1) loop2(1) drain2(1)
      cli_finalize_all [OF S t h' nz']
    by (simp add: len key [of "Suc (Suc i)" for i])
qed

section \<open>The demonstration vault\<close>

text \<open>
  The program of the vault service ends with the verified approval, and its report names the
  key of the library's key generation, the derived address and the first signer.
\<close>

lemma vault_main_succeeds:
  fixes C :: "('f::field, 'p::ab_group_add) secp" and key_rnd :: "nat \<Rightarrow> nat \<Rightarrow> 'f"
  assumes V: "vault_codecs_ok V" and C: "secp_laws C" and L: "btc_laws C L" and g: "grouped_config_123_of_235 = Inr g"
  defines "c \<equiv> \<lparr>hc_threshold = gc_required_signer_count g, hc_participants = gc_participants g\<rparr>"
    and "signers \<equiv> map ParticipantId [1, 3, 4, 6, 7, 8]"
  assumes rnd: "\<And>k j. key_rnd k j \<noteq> 0" and ks: "run_distributed_htss_keygen C key_rnd c = Inr ks"
    and quorum: "regular_quorum C c signers" and nonce: "\<And>i. nonce_rnd i \<noteq> 0" "(\<Sum>i<length signers. nonce_rnd i) \<noteq> 0"
    and address: "taproot_child_address_descriptor_for_network L (BitcoinAccountKey_new (ks_group_key ks) (replicate 32 42))
      ''regtest'' (bip86 0 0 0) = Inr address"
  shows "\<exists>report. vault_main V C L key_rnd nonce_rnd = Inr report \<and> vr_group_key report = gk_xonly_public_key (ks_group_key ks)
    \<and> vr_address report = bad_address address \<and> vr_digest report = bam_digest L (vault_authorization address)
    \<and> vr_signers report = [1, 3, 4, 6, 7, 8] \<and> vr_first_share report = 1 \<and> vr_remaining_events report = 0"
proof -
  have gv: "gc_validated g" "validate_grouped_threshold_signer_set signers g = Inr ()"
    using demonstration_policy unfolding g sum.case signers_def by blast+
  have "SessionId_new ''treasury-demo-dkg'' = Inr (SessionId ''treasury-demo-dkg'')" by code_simp
  then obtain v0 where v0: "vault_new ''treasury-demo'' ''treasury-demo-dkg'' ''regtest'' (replicate 32 42) g = Inr v0"
    using hierarchical_config_from_grouped_validated(1) [OF gv(1)] by (simp add: vault_new_def HtssDkgService_new_def)
  obtain v1 r where v1: "connect_transport V v0 = (v1, r)" by fastforce
  note n = vault_new_connected [OF V gv(1) v0 v1, folded c_def]
  have sum: "(\<Sum>k<length (gc_participants g). key_rnd k 0) \<noteq> 0"
    using run_distributed_htss_keygen_dealt(1) [where rnd = key_rnd, OF C n(1) rnd] ks n(1) by (auto simp: c_def hc_wf_def)
  from vault_keygen [where rnd = key_rnd, OF V C gv(1) v0 v1 rnd ks [folded n(4)]] obtain v2
    where v2: "run_htss_dkg V C key_rnd v1 = (v2, Inr ())" "vs_group_key v2 = Some (ks_group_key ks)"
      "vs_network v2 = ''regtest''" "vs_chain_code v2 = replicate 32 42" by blast
  have "SessionId_new ''treasury-demo-signing'' = Inr (SessionId ''treasury-demo-signing'')" by code_simp
  from vault_signs [where rnd = key_rnd and nonce_rnd = nonce_rnd and auth = "vault_authorization address",
      OF V C L gv(1) v0 v1 rnd sum gv(2) quorum [folded n(4)] this nonce] v2(1)
  obtain v3 share where v3: "sign_authorization V C L nonce_rnd v2 ''treasury-demo-signing'' (vault_authorization address) signers = (v3, Inr share)"
    "hss_participant_id share = hd signers" "vs_group_key v3 = vs_group_key v2" "ln_pending_len (fc_transport (vs_coordinator v3)) = 0"
    by auto
  have addr: "derive_receive_address L v2 0 0 0 = Inr address"
    using address v2(2-4) by (simp add: derive_receive_address_def ok_or_def)
  have signers: "collect ParticipantId_new [1, 3, 4, 6, 7, 8] = Inr signers" by (simp add: ParticipantId_new_def signers_def)
  show ?thesis
    unfolding vault_main_def g demo_result_simps rbind.simps v0 v1 n(11) prod.case v2(1) addr Let_def signers v3(1)
    using v3(2,3,4) v2(2) by (simp add: of_vault_def expect_def ok_or_def signers_def)
qed

section \<open>The demonstration of message signing\<close>

text \<open>\<open>hex\<close> reads back what it writes; an x-only public key has 32 bytes.\<close>

definition key_text_ok :: "('f, 'p, 'ad) btc_lib \<Rightarrow> ('f, 'ct, 'ki, 'co, 'ag, 'ps, 'sk, 'r) keygen_lib \<Rightarrow> bool" where
  "key_text_ok L K \<longleftrightarrow> (\<forall>b. hex_decode L (hex_encode L b) = Inr b) \<and> (\<forall>sk. length (key_xonly_bytes K sk) = 32)"

text \<open>
  The program generates keys, derives the address of the group key, signs with participants
  1 and 2 and ends with the verified signature.
\<close>

lemma message_signing_succeeds:
  fixes C :: "('f::field, 'p::ab_group_add) secp"
  assumes C: "secp_laws C" and L: "btc_laws C L" and T: "key_text_ok L K" and F: "frost_setup C B K"
    and SL: "signing_laws C K S bad" and SC: "signing_codecs_ok C B" and nz: "keygen_nonzero K 2 3 rng"
    and usable: "nonces_usable K S bad 2 3 rng (SessionId ''demo-signing'') srng [ParticipantId 1, ParticipantId 2]
      (bam_digest L payment_authorization)"
  shows "\<exists>shares X sig. run_local_frost_dkg oc C B K rng ''demo-dkg'' 2 3 = Inr shares
    \<and> from_xonly_bytes C (gk_xonly_public_key (lks_group_key (shares ! 0))) = Some X
    \<and> valid_signature C (gk_xonly_public_key (lks_group_key (shares ! 0))) (bam_digest L payment_authorization) sig
    \<and> message_signing_main oc C B K S L rng srng = Inr \<lparr>sgr_address = p2tr_tweaked L X Signet,
        sgr_text = canonical_text payment_authorization, sgr_digest = bam_digest L payment_authorization, sgr_verified = True,
        sgr_signature = as_signature_bytes sig\<rparr>"
proof -
  let ?signers = "[ParticipantId 1, ParticipantId 2]" and ?tc = "\<lparr>tc_threshold = 2, tc_participants = 3\<rparr> :: ThresholdConfig"
  obtain ag ps where h: "honest_keygen K (ucast (2 :: u16)) (unat (3 :: u16)) rng ag ps"
    using keygen_lawsD(3) [of K 2 3 0 rng] F by (auto simp: frost_setup_def)
  let ?shares = "map (dealt_share B K ag ps) [1..<Suc (unat (3 :: u16))]"
  have names: "SessionId_new ''demo-dkg'' = Inr (SessionId ''demo-dkg'')" "SessionId_new ''demo-signing'' = Inr (SessionId ''demo-signing'')"
    by code_simp+
  have run: "run_local_frost_dkg oc C B K rng ''demo-dkg'' 2 3 = Inr ?shares"
    by (rule run_local_frost_dkg_honest [OF F _ _ names(1) h]) (use nz in simp_all)
  have hd: "?shares ! 0 = dealt_share B K ag ps 1" by (subst nth_map) simp_all
  let ?gk = "lks_group_key (dealt_share B K ag ps 1)" and ?d = "bam_digest L payment_authorization"
  have v: "validate_signer_set ?signers ?tc = Inr ()" by (simp add: validate_signer_set_iff)
  have len: "length (signature_to_bytes C sig) = 64" for sig using secp_lawsD(5) [OF C] unfolding schnorr_ok_def by blast
  obtain sig where sig: "sign_digest_with_shares B S srng ''demo-signing'' ?tc ?gk ?d ?shares ?signers = Inr sig"
    "valid_signature C (gk_xonly_public_key ?gk) ?d sig"
    using frost_signs_after_keygen [OF F SL SC _ _ h _ v _ names(2) len, of srng ?d] nz usable by auto
  have verified: "verify_aggregate_signature_digest L ?gk ?d sig = Inr True" by (rule valid_signature_verifies [OF C L sig(2)])
  from sig(2) obtain X where X: "from_xonly_bytes C (gk_xonly_public_key ?gk) = Some X" by (auto simp: valid_signature_def)
  have "length (gk_xonly_public_key ?gk) = 32" using T by (simp add: key_text_ok_def dealt_share_def Let_def)
  moreover have "xonly_from_slice L (gk_xonly_public_key ?gk) = Inr X" using X by (simp only: xonly_from_slice_iff [OF btc_lawsD(1) [OF L]])
  ultimately have addr: "taproot_address_from_xonly_hex L (hex_encode L (gk_xonly_public_key ?gk)) Signet = Inr (p2tr_tweaked L X Signet)"
    using T
    by (simp add: taproot_address_from_xonly_hex_def parse_xonly_public_key_hex_def key_text_ok_def with_context_def
        try_into_array_def taproot_address_def anyhow_err_def)
  have small: "ThresholdConfig_new 2 3 = Inr ?tc" "collect ParticipantId_new [1, 2] = Inr ?signers"
    by (simp_all add: ThresholdConfig_new_def ParticipantId_new_def)
  have "message_signing_main oc C B K S L rng srng = Inr \<lparr>sgr_address = p2tr_tweaked L X Signet,
      sgr_text = canonical_text payment_authorization, sgr_digest = ?d, sgr_verified = True, sgr_signature = as_signature_bytes sig\<rparr>"
    unfolding message_signing_main_def run demo_result_simps rbind.simps Let_def hd addr small sig(1) verified by simp
  then show ?thesis using run X sig(2) unfolding hd [symmetric] by blast
qed

end
