(* ===== verification/Live_Service.thy ===== *)
theory Live_Service
  imports Examples Live
begin

text \<open>
  \<open>examples/nostr-transport-service\<close>: a FROST key generation of three devices, each with its
  own live transport. The devices meet only over the relay, so time and the relay are an
  argument, \<open>relay_env\<close>: what the clock shows, how the relay thread answers, and what it
  does to the buffer of a device between two drains. A run may not end when the clock stands
  still: \<open>None\<close>. The theorems say when it ends and when the devices agree.
\<close>

section \<open>The polling loop of \<open>nostr-transport-service\<close>\<close>

text \<open>
  \<open>collect\<close> of the service. \<open>now k\<close> is what \<open>Instant::now()\<close> gives at the \<open>k\<close>-th test of the
  loop, in milliseconds; \<open>deliver k\<close> is what the relay thread does to the coordinator before
  the \<open>k\<close>-th drain. The loop may run forever when the clock stands still: \<open>None\<close>.
\<close>

partial_function (option) poll ::
    "('c \<Rightarrow> 'c \<times> ('e + 'a list)) \<Rightarrow> (nat \<Rightarrow> nat) \<Rightarrow> (nat \<Rightarrow> 'c \<Rightarrow> 'c) \<Rightarrow> nat \<Rightarrow> nat \<Rightarrow> nat \<Rightarrow> 'a list \<Rightarrow> 'c
      \<Rightarrow> ('c \<times> ('e + 'a list)) option" where
  "poll drain now deliver want deadline k acc coordinator =
     (if length acc < want \<and> now k < deadline
      then case drain (deliver k coordinator) of
          (coordinator, Inl e) \<Rightarrow> Some (coordinator, Inl e)
        | (coordinator, Inr items) \<Rightarrow> poll drain now deliver want deadline (Suc k) (acc @ items) coordinator
      else Some (coordinator, Inr acc))"

text \<open>\<open>start\<close> is the time at which the deadline is computed, before the first test.\<close>

definition poll_collect ::
    "('c \<Rightarrow> 'c \<times> ('e + 'a list)) \<Rightarrow> nat \<Rightarrow> (nat \<Rightarrow> nat) \<Rightarrow> (nat \<Rightarrow> 'c \<Rightarrow> 'c) \<Rightarrow> nat \<Rightarrow> nat \<Rightarrow> 'c
      \<Rightarrow> ('c \<times> ('e + 'a list)) option" where
  "poll_collect drain start now deliver want timeout coordinator =
     poll drain now deliver want (start + timeout) 0 [] coordinator"

text \<open>A step that may not return, and a loop of such steps.\<close>

definition tbind :: "('e + 'a) option \<Rightarrow> ('a \<Rightarrow> ('e + 'b) option) \<Rightarrow> ('e + 'b) option" where
  "tbind m f = (case m of None \<Rightarrow> None | Some (Inl e) \<Rightarrow> Some (Inl e) | Some (Inr x) \<Rightarrow> f x)"

primrec tfor :: "('a \<Rightarrow> 's \<Rightarrow> ('e + 's) option) \<Rightarrow> 'a list \<Rightarrow> 's \<Rightarrow> ('e + 's) option" where
  "tfor f [] s = Some (Inr s)"
| "tfor f (x # xs) s = tbind (f x s) (tfor f xs)"

section \<open>The service\<close>

type_synonym ('k, 'pk) device = "('k, 'pk) LiveNostrTransport FrostCoordinator"

text \<open>Random bytes of the encryption, whether the relay thread takes the command, what it answers in time.\<close>

type_synonym 'r answer = "'r \<times> bool \<times> unit result option"

text \<open>The clock and the relay during one call of \<open>collect\<close>.\<close>

record ('k, 'pk) polling =
  po_start :: nat
  po_now :: "nat \<Rightarrow> nat"
  po_deliver :: "nat \<Rightarrow> ('k, 'pk) device \<Rightarrow> ('k, 'pk) device"

record ('k, 'pk, 'r) relay_env =
  env_test_relay :: "string option"                \<comment> \<open>\<open>DKGKIT_TEST_RELAY\<close>\<close>
  env_nanos :: nat
  env_keys :: "nat \<Rightarrow> 'k"
  env_ready :: "nat \<Rightarrow> unit result option"
  env_round1 :: "nat \<Rightarrow> 'r answer"
  env_round2 :: "nat \<Rightarrow> nat \<Rightarrow> 'r answer"              \<comment> \<open>device, package\<close>
  env_poll1 :: "nat \<Rightarrow> ('k, 'pk) polling"
  env_poll2 :: "nat \<Rightarrow> ('k, 'pk) polling"

record service_codecs =
  sv_message :: "ProtocolMessage codec"
  sv_round1 :: "Round1Package codec"
  sv_round2 :: "Round2Package codec"

definition relay_url :: "('k, 'pk, 'r) relay_env \<Rightarrow> string" where
  "relay_url env = (case env_test_relay env of None \<Rightarrow> ''ws://127.0.0.1:7777'' | Some url \<Rightarrow> url)"

definition service_pid :: "u16 \<Rightarrow> ParticipantId outcome" where
  "service_pid value = expect (ok_option (ParticipantId_new value)) ''participant id >= 1''"

text \<open>Timeouts in milliseconds.\<close>

definition make_transport ::
    "('k, 'pk, 'r) relay_env \<Rightarrow> string \<Rightarrow> u16 \<Rightarrow> 'k \<Rightarrow> 'pk ParticipantDirectory \<Rightarrow> ('k, 'pk) LiveNostrTransport outcome" where
  "make_transport env vault self_id keys directory =
     rbind (service_pid self_id) (\<lambda>self_id.
     Inr (LiveNostrTransport_new \<lparr>lc_relays = [relay_url env], lc_vault_tag = vault, lc_self_id = self_id, lc_keys = keys,
       lc_directory = directory, lc_connect_timeout = 15000, lc_publish_timeout = 15000\<rparr>))"

text \<open>
  \<open>publish_round1\<close> and \<open>publish_round2\<close> of a coordinator on a live transport, whose
  \<open>publish\<close> may panic; connecting and draining cannot.
\<close>

definition device_publish ::
    "ProtocolMessage codec \<Rightarrow> ('k, 'pk, 'id, 'r) nostr_lib \<Rightarrow> 'r answer \<Rightarrow> ('k, 'pk) device \<Rightarrow> ProtocolMessage result
      \<Rightarrow> demo_error + ('k, 'pk) device" where
  "device_publish J N answer device message =
     (let (rng, alive, ack) = answer in
      rbind (demo_dkg message) (\<lambda>m.
      let (transport, r, _) = lt_publish J N rng alive ack (fc_transport device) m in
      rbind (demo_fault r) (\<lambda>_. Inr (device\<lparr>fc_transport := transport\<rparr>))))"

abbreviation device_ops :: "unit result option \<Rightarrow> ('k, 'pk) LiveNostrTransport Transport" where
  "device_ops ready \<equiv> live_ops ready (\<lambda>transport _. (transport, Inr ()))"

definition service_directory ::
    "('k, 'pk, 'id, 'r) nostr_lib \<Rightarrow> ('k, 'pk, 'r) relay_env \<Rightarrow> 'pk ParticipantDirectory outcome" where
  "service_directory N env =
     try_for (\<lambda>idx directory. rbind (service_pid (as_u16 idx + 1)) (\<lambda>i.
       Inr (directory_insert directory i (public_key N (env_keys env idx))))) [0..<3] directory_new"

definition service_device ::
    "('k, 'pk, 'r) relay_env \<Rightarrow> string \<Rightarrow> 'pk ParticipantDirectory \<Rightarrow> nat \<Rightarrow> ('k, 'pk) device outcome" where
  "service_device env vault directory idx =
     rbind (make_transport env vault (as_u16 idx + 1) (env_keys env idx) directory) (\<lambda>transport.
     Inr (FrostCoordinator_new transport))"

text \<open>The body of the round 1 loop; devices are updated in place.\<close>

definition service_round1 ::
    "bool \<Rightarrow> ('f::field, 'p) secp \<Rightarrow> ('f, 'ki, 'ps, 'sk, 'nn, 'sg) bincode_lib
      \<Rightarrow> ('f, 'ct, 'ki, 'co, 'ag, 'ps, 'sk, 'g) keygen_lib \<Rightarrow> service_codecs \<Rightarrow> ('k, 'pk, 'id, 'r) nostr_lib
      \<Rightarrow> ('k, 'pk, 'r) relay_env \<Rightarrow> (nat \<Rightarrow> 'g) \<Rightarrow> SessionId \<Rightarrow> nat \<times> 'ct FrostDkgSession
      \<Rightarrow> ('k, 'pk) device list \<times> 'ct FrostDkgSession list \<Rightarrow> demo_error + ('k, 'pk) device list \<times> 'ct FrostDkgSession list" where
  "service_round1 oc C B K V N env rng session is st =
     (let (idx, dkg) = is; (devices, done) = st in
      rbind (demo_fault (call (fds_round1 oc C B K (rng idx) dkg))) (\<lambda>(dkg, round1).
      rbind (device_publish (sv_message V) N (env_round1 env idx) (devices ! idx)
               (Round1Package_to_protocol_message (sv_round1 V) round1 session)) (\<lambda>device.
      Inr (devices[idx := device], done @ [dkg]))))"

definition service_collect1 ::
    "service_codecs \<Rightarrow> ('k, 'pk, 'r) relay_env \<Rightarrow> SessionId \<Rightarrow> nat \<Rightarrow> ('k, 'pk) device list \<times> Round1Package list list
      \<Rightarrow> (demo_error + ('k, 'pk) device list \<times> Round1Package list list) option" where
  "service_collect1 V env session idx st =
     (let (devices, collected) = st; po = env_poll1 env idx in
      case poll_collect (\<lambda>c. drain_round1 (device_ops (env_ready env idx)) (sv_round1 V) c session)
             (po_start po) (po_now po) (po_deliver po) 3 20000 (devices ! idx) of
        None \<Rightarrow> None
      | Some (device, r) \<Rightarrow> Some (
          rbind (demo_dkg r) (\<lambda>packages.
          rbind (ensure (length packages = 3) (DemoText (fmt [''a device only collected '', show_nat (length packages),
                   ''/3 round1 packages'']))) (\<lambda>_.
          Inr (devices[idx := device], collected @ [packages])))))"

definition service_round2 ::
    "bool \<Rightarrow> ('f, 'ki, 'ps, 'sk, 'nn, 'sg) bincode_lib \<Rightarrow> ('f, 'ct, 'ki, 'co, 'ag, 'ps, 'sk, 'g) keygen_lib
      \<Rightarrow> service_codecs \<Rightarrow> ('k, 'pk, 'id, 'r) nostr_lib \<Rightarrow> ('k, 'pk, 'r) relay_env \<Rightarrow> SessionId
      \<Rightarrow> nat \<times> 'ct FrostDkgSession \<times> Round1Package list
      \<Rightarrow> ('k, 'pk) device list \<times> 'ct FrostDkgSession list \<Rightarrow> demo_error + ('k, 'pk) device list \<times> 'ct FrostDkgSession list" where
  "service_round2 oc B K V N env session is st =
     (let (idx, dkg, round1_packages) = is; (devices, done) = st in
      rbind (demo_fault (call (fds_round2 oc B K dkg round1_packages))) (\<lambda>(dkg, packages).
      rbind (try_for (\<lambda>(k, package) device. device_publish (sv_message V) N (env_round2 env idx k) device
               (Round2Package_to_protocol_message (sv_round2 V) package session)) (enumerate 0 packages) (devices ! idx)) (\<lambda>device.
      Inr (devices[idx := device], done @ [dkg]))))"

definition service_finalize ::
    "bool \<Rightarrow> ('f::field, 'ki, 'ps, 'sk, 'nn, 'sg) bincode_lib \<Rightarrow> ('f, 'ct, 'ki, 'co, 'ag, 'ps, 'sk, 'g) keygen_lib
      \<Rightarrow> service_codecs \<Rightarrow> ('k, 'pk, 'r) relay_env \<Rightarrow> SessionId \<Rightarrow> nat \<times> 'ct FrostDkgSession
      \<Rightarrow> ('k, 'pk) device list \<times> LocalKeyShare list \<Rightarrow> (demo_error + ('k, 'pk) device list \<times> LocalKeyShare list) option" where
  "service_finalize oc B K V env session is st =
     (let (idx, dkg) = is; (devices, shares) = st; po = env_poll2 env idx in
      tbind (Some (demo_fault (service_pid (as_u16 idx + 1)))) (\<lambda>recipient.
      case poll_collect (\<lambda>c. drain_round2_for (device_ops (env_ready env idx)) (sv_round2 V) c session recipient)
             (po_start po) (po_now po) (po_deliver po) 3 20000 (devices ! idx) of
        None \<Rightarrow> None
      | Some (device, r) \<Rightarrow> Some (
          rbind (demo_dkg r) (\<lambda>round2.
          rbind (ensure (length round2 = 3) (DemoText (fmt [''participant '', show_u16 (pid_val recipient), '' only collected '',
                   show_nat (length round2), ''/3 round2 shares'']))) (\<lambda>_.
          rbind (demo_fault (fds_finalize oc B K dkg round2)) (\<lambda>share.
          Inr (devices[idx := device], shares @ [share])))))))"

record service_report =
  rep_relay :: string
  rep_topic :: string
  rep_group_key :: bytes
  rep_all_match :: bool

text \<open>From the set-up to the collected round 1 packages.\<close>

definition service_start ::
    "bool \<Rightarrow> ('f::field, 'p) secp \<Rightarrow> ('f, 'ki, 'ps, 'sk, 'nn, 'sg) bincode_lib
      \<Rightarrow> ('f, 'ct, 'ki, 'co, 'ag, 'ps, 'sk, 'g) keygen_lib \<Rightarrow> service_codecs \<Rightarrow> ('k, 'pk, 'id, 'r) nostr_lib
      \<Rightarrow> ('k, 'pk, 'r) relay_env \<Rightarrow> (nat \<Rightarrow> 'g) \<Rightarrow> string \<Rightarrow> SessionId
      \<Rightarrow> (demo_error + ('k, 'pk) device list \<times> 'ct FrostDkgSession list \<times> Round1Package list list) option" where
  "service_start oc C B K V N env rng vault session =
     tbind (Some (demo_fault (service_directory N env))) (\<lambda>directory.
     tbind (Some (demo_fault (collect (service_device env vault directory) [0..<3]))) (\<lambda>devices.
     tbind (Some (collect (\<lambda>(idx, device). rbind (attempt (fc_connect (device_ops (env_ready env idx)) device)) (\<lambda>(device, _). Inr device))
              (enumerate 0 devices))) (\<lambda>devices.
     tbind (Some (demo_dkg (collect (create_frost_session (session_str session) 2 3) [1, 2, 3]))) (\<lambda>sessions.
     tbind (Some (try_for (service_round1 oc C B K V N env rng session) (enumerate 0 sessions) (devices, []))) (\<lambda>(devices, sessions).
     tbind (tfor (service_collect1 V env session) [0..<3] (devices, [])) (\<lambda>(devices, round1_per_device).
     Some (Inr (devices, sessions, round1_per_device))))))))"

text \<open>Round 2, finalisation and the comparison of the keys.\<close>

definition service_finish ::
    "bool \<Rightarrow> ('f::field, 'ki, 'ps, 'sk, 'nn, 'sg) bincode_lib \<Rightarrow> ('f, 'ct, 'ki, 'co, 'ag, 'ps, 'sk, 'g) keygen_lib
      \<Rightarrow> service_codecs \<Rightarrow> ('k, 'pk, 'id, 'r) nostr_lib \<Rightarrow> ('k, 'pk, 'r) relay_env \<Rightarrow> string \<Rightarrow> SessionId
      \<Rightarrow> ('k, 'pk) device list \<Rightarrow> 'ct FrostDkgSession list \<Rightarrow> Round1Package list list \<Rightarrow> (demo_error + service_report) option" where
  "service_finish oc B K V N env vault session devices sessions round1_per_device =
     tbind (Some (try_for (service_round2 oc B K V N env session) (enumerate 0 (zip sessions round1_per_device)) (devices, [])))
       (\<lambda>(devices, sessions).
     tbind (tfor (service_finalize oc B K V env session) (enumerate 0 sessions) (devices, [])) (\<lambda>(devices, shares).
     let group_key = lks_group_key (shares ! 0);
         all_match = list_all (\<lambda>s. lks_group_key s = group_key) shares in
     tbind (Some (ensure all_match (DemoText ''participants derived different group keys''))) (\<lambda>_.
     tbind (Some (collect (\<lambda>(idx, device). attempt (fc_disconnect (device_ops (env_ready env idx)) device)) (enumerate 0 devices))) (\<lambda>_.
     Some (Inr \<lparr>rep_relay = relay_url env, rep_topic = ''dkgkit:'' @ vault,
       rep_group_key = gk_xonly_public_key group_key, rep_all_match = all_match\<rparr>)))))"

definition service_main ::
    "bool \<Rightarrow> ('f::field, 'p) secp \<Rightarrow> ('f, 'ki, 'ps, 'sk, 'nn, 'sg) bincode_lib
      \<Rightarrow> ('f, 'ct, 'ki, 'co, 'ag, 'ps, 'sk, 'g) keygen_lib \<Rightarrow> service_codecs \<Rightarrow> ('k, 'pk, 'id, 'r) nostr_lib
      \<Rightarrow> ('k, 'pk, 'r) relay_env \<Rightarrow> (nat \<Rightarrow> 'g) \<Rightarrow> (demo_error + service_report) option" where
  "service_main oc C B K V N env rng =
     (let vault = ''nostr-transport-service-'' @ show_nat (env_nanos env) in
      tbind (Some (demo_dkg (SessionId_new (vault @ ''-dkg'')))) (\<lambda>session.
      tbind (service_start oc C B K V N env rng vault session) (\<lambda>(devices, sessions, round1_per_device).
      service_finish oc B K V N env vault session devices sessions round1_per_device)))"

section \<open>Polling ends\<close>

text \<open>The coordinator and the items after \<open>m\<close> drains, and when the loop stops.\<close>

primrec rounds :: "('c \<Rightarrow> 'c \<times> ('e + 'a list)) \<Rightarrow> (nat \<Rightarrow> 'c \<Rightarrow> 'c) \<Rightarrow> 'c \<Rightarrow> nat \<Rightarrow> 'c \<times> ('e + 'a list)" where
  "rounds drain deliver c 0 = (c, Inr [])"
| "rounds drain deliver c (Suc m) =
     (case rounds drain deliver c m of
        (c, Inl e) \<Rightarrow> (c, Inl e)
      | (c, Inr acc) \<Rightarrow> (case drain (deliver m c) of
            (c, Inl e) \<Rightarrow> (c, Inl e)
          | (c, Inr items) \<Rightarrow> (c, Inr (acc @ items))))"

definition poll_stops where
  "poll_stops drain now deliver want deadline c m \<longleftrightarrow>
     (case snd (rounds drain deliver c m) of Inl _ \<Rightarrow> True | Inr acc \<Rightarrow> want \<le> length acc) \<or> deadline \<le> now m"

lemma poll_rounds:
  assumes "rounds drain deliver c k = (ck, Inr acc)" "k \<le> m" "poll_stops drain now deliver want deadline c m"
    "\<And>i. k \<le> i \<Longrightarrow> i < m \<Longrightarrow> \<not> poll_stops drain now deliver want deadline c i"
  shows "poll drain now deliver want deadline k acc ck = Some (rounds drain deliver c m)"
  using assms
proof (induction "m - k" arbitrary: k acc ck)
  case 0
  then have "m = k" by simp
  with 0 show ?case by (subst poll.simps) (auto simp: poll_stops_def)
next
  case (Suc d)
  then have k: "k < m" by simp
  with Suc.prems(4) [of k] Suc.prems(1) have go: "length acc < want" "now k < deadline" by (auto simp: poll_stops_def)
  obtain c' r where dr: "drain (deliver k ck) = (c', r)" by (cases "drain (deliver k ck)")
  show ?case
  proof (cases r)
    case (Inl e)
    with dr Suc.prems(1) have r: "rounds drain deliver c (Suc k) = (c', Inl e)" by simp
    then have "poll_stops drain now deliver want deadline c (Suc k)" by (simp add: poll_stops_def)
    with Suc.prems(4) [of "Suc k"] k have "m = Suc k" by force
    with go dr Inl r show ?thesis by (subst poll.simps) simp
  next
    case (Inr items)
    with dr Suc.prems(1) have r: "rounds drain deliver c (Suc k) = (c', Inr (acc @ items))" by simp
    have "poll drain now deliver want deadline (Suc k) (acc @ items) c' = Some (rounds drain deliver c m)"
      using Suc.hyps Suc.prems k by (intro Suc.hyps(1) r) auto
    with go dr Inr show ?thesis by (subst poll.simps) simp
  qed
qed

text \<open>A clock that advances 100 milliseconds with every sleep passes the deadline after so many tests.\<close>

lemma clock_passes:
  assumes "\<And>k. now k + 100 \<le> now (Suc k)" "start \<le> now 0"
  shows "start + 100 * k \<le> (now k :: nat)"
proof (induction k)
  case (Suc k)
  with assms(1) [of k] show ?case by simp
qed (simp add: assms(2))

lemma poll_ends:
  fixes now :: "nat \<Rightarrow> nat"
  assumes clock: "\<And>k. now k + 100 \<le> now (Suc k)" "start \<le> now 0"
  shows "\<exists>m \<le> Suc (timeout div 100). poll_collect drain start now deliver want timeout c = Some (rounds drain deliver c m)
    \<and> poll_stops drain now deliver want (start + timeout) c m \<and> (\<forall>i<m. \<not> poll_stops drain now deliver want (start + timeout) c i)"
proof -
  define stop where "stop = poll_stops drain now deliver want (start + timeout) c"
  have "timeout < 100 + 100 * (timeout div 100)" by (rule dividend_less_times_div) simp
  then have "start + timeout \<le> start + 100 * Suc (timeout div 100)" unfolding mult_Suc_right by linarith
  also have "\<dots> \<le> now (Suc (timeout div 100))" by (rule clock_passes [OF clock])
  finally have ex: "stop (Suc (timeout div 100))" unfolding stop_def poll_stops_def by (rule disjI2)
  define m where "m = (LEAST m. stop m)"
  have m: "stop m" "m \<le> Suc (timeout div 100)" unfolding m_def by (rule LeastI [of stop, OF ex], rule Least_le [of stop, OF ex])
  have least: "\<not> stop i" if "i < m" for i using that unfolding m_def by (rule not_less_Least)
  have "poll drain now deliver want (start + timeout) 0 [] c = Some (rounds drain deliver c m)"
    using m(1) least unfolding stop_def by (intro poll_rounds) simp_all
  with m least show ?thesis unfolding poll_collect_def stop_def by blast
qed

section \<open>The service ends\<close>

lemma tbind_simps [simp]: "tbind (Some (Inr x)) f = f x" "tbind (Some (Inl e)) f = Some (Inl e)" "tbind None f = None"
  by (simp_all add: tbind_def)

lemma tbind_Inr_iff: "tbind m f = Some (Inr y) \<longleftrightarrow> (\<exists>x. m = Some (Inr x) \<and> f x = Some (Inr y))"
  by (auto simp: tbind_def split: option.splits sum.splits)

lemma tbind_Inl_iff: "tbind m f = Some (Inl e) \<longleftrightarrow> m = Some (Inl e) \<or> (\<exists>x. m = Some (Inr x) \<and> f x = Some (Inl e))"
  by (auto simp: tbind_def split: option.splits sum.splits)

lemma tbind_None_iff: "tbind m f = None \<longleftrightarrow> m = None \<or> (\<exists>x. m = Some (Inr x) \<and> f x = None)"
  by (auto simp: tbind_def split: option.splits sum.splits)

lemma tfor_ends: "(\<And>x s. x \<in> set xs \<Longrightarrow> f x s \<noteq> None) \<Longrightarrow> tfor f xs s \<noteq> None"
  by (induction xs arbitrary: s) (auto simp: tbind_def split: option.splits sum.splits)

lemma tfor_Some: "tfor (\<lambda>x s. Some (f x s)) xs s = Some (try_for f xs s)"
proof (induction xs arbitrary: s)
  case (Cons x xs)
  then show ?case by (cases "f x s") simp_all
qed simp

text \<open>A clock that advances at least as long as the service sleeps.\<close>

definition steady :: "('k, 'pk) polling \<Rightarrow> bool" where
  "steady po \<longleftrightarrow> po_start po \<le> po_now po 0 \<and> (\<forall>k. po_now po k + 100 \<le> po_now po (Suc k))"

lemma steady_poll_ends: "steady po \<Longrightarrow> poll_collect drain (po_start po) (po_now po) deliver want timeout c \<noteq> None"
  using poll_ends [of "po_now po" "po_start po" timeout drain deliver want c] unfolding steady_def by auto

lemma collect_Inr_member: "y \<in> set ys \<Longrightarrow> collect f xs = Inr ys \<Longrightarrow> \<exists>x\<in>set xs. f x = Inr y"
  by (auto simp: collect_Inr_iff list_all2_conv_all_nth in_set_conv_nth) (metis nth_mem)

text \<open>Loops that append one value in each step.\<close>

lemma tfor_collects:
  assumes step: "\<And>x d acc d' acc'. x \<in> set xs \<Longrightarrow> f x (d, acc) = Some (Inr (d', acc')) \<Longrightarrow> \<exists>y. acc' = acc @ [y] \<and> R x y"
    and run: "tfor f xs (d, acc) = Some (Inr (d', acc'))"
  shows "\<exists>ys. acc' = acc @ ys \<and> list_all2 R xs ys"
  using assms
proof (induction xs arbitrary: d acc)
  case (Cons x xs)
  from Cons.prems(2) obtain d1 acc1 where x: "f x (d, acc) = Some (Inr (d1, acc1))" "tfor f xs (d1, acc1) = Some (Inr (d', acc'))"
    by (auto simp: tbind_Inr_iff)
  from Cons.prems(1) [OF _ x(1)] obtain y where y: "acc1 = acc @ [y]" "R x y" by auto
  have "\<exists>ys. acc' = acc1 @ ys \<and> list_all2 R xs ys" by (rule Cons.IH [OF _ x(2)]) (rule Cons.prems(1); simp)
  then obtain ys where "acc' = acc1 @ ys" "list_all2 R xs ys" by blast
  with y show ?case by (intro exI [of _ "y # ys"]) simp
qed simp

lemma try_for_collects:
  assumes "\<And>x d acc d' acc'. x \<in> set xs \<Longrightarrow> f x (d, acc) = Inr (d', acc') \<Longrightarrow> \<exists>y. acc' = acc @ [y] \<and> R x y"
    and "try_for f xs (d, acc) = Inr (d', acc')"
  shows "\<exists>ys. acc' = acc @ ys \<and> list_all2 R xs ys"
  by (rule tfor_collects [where f = "\<lambda>x s. Some (f x s)"]) (use assms in \<open>auto simp: tfor_Some\<close>)

lemma service_round1_loop:
  assumes "try_for (service_round1 oc C B K V N env rng session) (enumerate 0 sessions) (devices, []) = Inr (devices', sessions')"
  shows "list_all2 (\<lambda>s s'. fds_config s' = fds_config s) sessions sessions'"
proof -
  have "\<exists>ys. sessions' = [] @ ys \<and> list_all2 (\<lambda>(i, s) s'. fds_config s' = fds_config s) (enumerate 0 sessions) ys"
    by (rule try_for_collects [OF _ assms]) (auto simp: service_round1_def Let_def rbind_Inr_iff demo_Inr_iff call_Inr_iff
        dest!: fds_round1_config)
  then show ?thesis by (auto simp: list_all2_conv_all_nth nth_enumerate_eq)
qed

lemma service_round2_loop:
  assumes "try_for (service_round2 oc B K V N env session) (enumerate 0 (zip sessions r1)) (devices, []) = Inr (devices', sessions')"
  shows "list_all2 (\<lambda>(s, pkgs) s'. \<exists>out. fds_round2 oc B K s pkgs = (s', Inr out)) (zip sessions r1) sessions'"
proof -
  have "\<exists>ys. sessions' = [] @ ys \<and> list_all2 (\<lambda>(i, s, pkgs) s'. \<exists>out. fds_round2 oc B K s pkgs = (s', Inr out))
      (enumerate 0 (zip sessions r1)) ys"
    by (rule try_for_collects [OF _ assms]) (auto simp: service_round2_def Let_def rbind_Inr_iff demo_Inr_iff call_Inr_iff)
  then show ?thesis by (auto simp: list_all2_conv_all_nth nth_enumerate_eq) (metis min_less_iff_conj)
qed

lemma service_finalize_loop:
  assumes "tfor (service_finalize oc B K V env session) (enumerate 0 sessions) (devices, []) = Some (Inr (devices', shares))"
  shows "list_all2 (\<lambda>s share. \<exists>r2. fds_finalize oc B K s r2 = Inr share) sessions shares"
proof -
  have "\<exists>ys. shares = [] @ ys \<and> list_all2 (\<lambda>(i, s) share. \<exists>r2. fds_finalize oc B K s r2 = Inr share) (enumerate 0 sessions) ys"
    by (rule tfor_collects [OF _ assms]) (auto simp: service_finalize_def Let_def tbind_Inr_iff rbind_Inr_iff demo_Inr_iff
        split: prod.splits option.splits, blast)
  then show ?thesis by (auto simp: list_all2_conv_all_nth nth_enumerate_eq)
qed

lemma service_collect1_loop:
  assumes "tfor (service_collect1 V env session) [0..<3] (devices, []) = Some (Inr (devices', r1))"
  shows "length r1 = 3"
proof -
  have "\<exists>ys. r1 = [] @ ys \<and> list_all2 (\<lambda>i pkgs. True) [0..<3] ys"
    by (rule tfor_collects [OF _ assms]) (auto simp: service_collect1_def Let_def rbind_Inr_iff split: sum.splits prod.splits option.splits)
  then show ?thesis by (auto dest: list_all2_lengthD)
qed

text \<open>What the first half hands on: three sessions with one threshold, and three sets of packages.\<close>

lemma service_start_Inr:
  assumes "service_start oc C B K V N env rng vault session = Some (Inr (devices, sessions, r1))"
  shows "length sessions = 3" "length r1 = 3" "s \<in> set sessions \<Longrightarrow> dsc_threshold (fds_config s) = \<lparr>tc_threshold = 2, tc_participants = 3\<rparr>"
proof -
  from assms obtain sessions0 d0 d1 where s0: "collect (create_frost_session (session_str session) 2 3) [1, 2, 3] = Inr sessions0"
    and l1: "try_for (service_round1 oc C B K V N env rng session) (enumerate 0 sessions0) (d0, []) = Inr (d1, sessions)"
    and l2: "tfor (service_collect1 V env session) [0..<3] (d1, []) = Some (Inr (devices, r1))"
    unfolding service_start_def by (auto simp: tbind_Inr_iff demo_Inr_iff simp del: collect.simps)
  note c = service_round1_loop [OF l1]
  show "length sessions = 3" using collect_Inr_length [OF s0] list_all2_lengthD [OF c] by simp
  show "length r1 = 3" by (rule service_collect1_loop [OF l2])
  show "dsc_threshold (fds_config s) = \<lparr>tc_threshold = 2, tc_participants = 3\<rparr>" if s: "s \<in> set sessions"
  proof -
    from s obtain i where i: "i < length sessions" "s = sessions ! i" by (auto simp: in_set_conv_nth)
    with c have s': "sessions0 ! i \<in> set sessions0" "fds_config s = fds_config (sessions0 ! i)" by (auto simp: list_all2_conv_all_nth)
    from collect_Inr_member [OF s'(1) s0] obtain k where "create_frost_session (session_str session) 2 3 k = Inr (sessions0 ! i)"
      by blast
    with s'(2) show ?thesis by (simp add: create_frost_session_Inr(2))
  qed
qed

lemma service_main_ends:
  assumes "\<And>i. i < 3 \<Longrightarrow> steady (env_poll1 env i)" "\<And>i. i < 3 \<Longrightarrow> steady (env_poll2 env i)"
  shows "service_main oc C B K V N env rng \<noteq> None"
proof -
  have c1: "service_collect1 V env session i st \<noteq> None" if i: "i \<in> set [0..<3]" for session i st
  proof -
    obtain devices collected where st: "st = (devices, collected)" by (cases st)
    from i have "i < 3" by simp
    from steady_poll_ends [OF assms(1) [OF this], of "\<lambda>c. drain_round1 (device_ops (env_ready env i)) (sv_round1 V) c session"
        "po_deliver (env_poll1 env i)" 3 20000 "devices ! i"]
    show ?thesis by (auto simp: service_collect1_def st Let_def)
  qed
  have c2: "service_finalize oc B K V env session ix st \<noteq> None" if i: "fst ix < 3" for session ix st
  proof -
    obtain devices shares where st: "st = (devices, shares)" by (cases st)
    obtain idx dkg where ix: "ix = (idx, dkg)" by (cases ix)
    have "poll_collect (\<lambda>c. drain_round2_for (device_ops (env_ready env idx)) (sv_round2 V) c session recipient)
        (po_start (env_poll2 env idx)) (po_now (env_poll2 env idx)) (po_deliver (env_poll2 env idx)) 3 20000 (devices ! idx) \<noteq> None"
      for recipient
      by (rule steady_poll_ends) (use assms(2) i ix in simp)
    then show ?thesis unfolding service_finalize_def st ix Let_def prod.case
      by (auto simp: tbind_None_iff simp del: not_None_eq split: option.splits)
  qed
  have "tfor (service_finalize oc B K V env session) (enumerate 0 ss) st \<noteq> None" if "length ss \<le> 3" for session ss st
    by (rule tfor_ends, rule c2) (use that in \<open>auto simp: in_set_enumerate_eq\<close>)
  moreover have "service_start oc C B K V N env rng vault session \<noteq> None" for vault session
  proof -
    have "tfor (service_collect1 V env session) [0..<3] st \<noteq> None" for st by (rule tfor_ends, rule c1)
    then show ?thesis unfolding service_start_def by (auto simp: tbind_None_iff simp del: not_None_eq collect.simps)
  qed
  moreover have "length sessions' \<le> 3"
    if "try_for (service_round2 oc B K V N env session) (enumerate 0 (zip sessions r1)) (devices, []) = Inr (devices', sessions')"
      "service_start oc C B K V N env rng vault session = Some (Inr (devices, sessions, r1))"
    for sessions' sessions r1 devices devices' vault session
    using list_all2_lengthD [OF service_round2_loop [OF that(1)]] service_start_Inr(1) [OF that(2)] by simp
  ultimately show ?thesis
    unfolding service_main_def service_finish_def Let_def
    by (auto simp: tbind_None_iff simp del: not_None_eq collect.simps)
qed

section \<open>The devices agree\<close>

definition keys_differ :: demo_error where
  "keys_differ = DemoText ''participants derived different group keys''"

lemma try_for_error:
  assumes "\<And>x s e. f x s = Inl e \<Longrightarrow> P e" "try_for f xs s = Inl e"
  shows "P e"
  using assms(2)
proof (induction xs arbitrary: s)
  case (Cons x xs)
  with assms(1) show ?case by (auto simp: rbind_Inl_iff)
qed simp

lemma tfor_error:
  assumes "\<And>x s e. f x s = Some (Inl e) \<Longrightarrow> P e" "tfor f xs s = Some (Inl e)"
  shows "P e"
  using assms(2)
proof (induction xs arbitrary: s)
  case (Cons x xs)
  with assms(1) show ?case by (auto simp: tbind_Inl_iff)
qed simp

lemma demo_Inl: "demo_fault r = Inl e \<Longrightarrow> e \<noteq> keys_differ" "demo_dkg q = Inl e \<Longrightarrow> e \<noteq> keys_differ"
    "attempt sq = Inl e \<Longrightarrow> e \<noteq> keys_differ"
  by (auto simp: demo_fault_def demo_dkg_def attempt_def rbind_Inl_iff keys_differ_def split: sum.splits prod.splits)

lemma device_publish_Inl: "device_publish J N answer device message = Inl e \<Longrightarrow> e \<noteq> keys_differ"
  by (auto simp: device_publish_def rbind_Inl_iff Let_def case_prod_unfold dest: demo_Inl)

lemma service_round2_Inl:
  assumes "service_round2 oc B K V N env session ix st = Inl e"
  shows "e \<noteq> keys_differ"
proof -
  have publish: "e \<noteq> keys_differ" if "try_for (\<lambda>(k, package) device. device_publish (sv_message V) N (env_round2 env i k) device
      (Round2Package_to_protocol_message (sv_round2 V) package session)) ks d = Inl e" for i ks d e
    by (rule try_for_error [OF _ that]) (auto dest: device_publish_Inl)
  show ?thesis using assms by (auto simp: service_round2_def Let_def rbind_Inl_iff dest: demo_Inl publish split: prod.splits)
qed

lemma service_finalize_Inl:
  assumes "service_finalize oc B K V env session ix st = Some (Inl e)"
  shows "e \<noteq> keys_differ"
proof -
  have "DemoText (fmt [''participant '', x, '' only collected '', y, ''/3 round2 shares'']) \<noteq> keys_differ" for x y
    by (simp add: keys_differ_def fmt_def)
  with assms show ?thesis
    by (auto simp: service_finalize_def Let_def tbind_Inl_iff rbind_Inl_iff ensure_def dest: demo_Inl
        split: prod.splits option.splits if_splits)
qed

text \<open>Devices that collected the same round 1 packages, in any order, end with one key.\<close>

lemma service_keys_agree:
  assumes start: "service_start oc C B K V N env rng vault session = Some (Inr (devices, sessions, r1))"
    and same: "\<And>a b. a \<in> set r1 \<Longrightarrow> b \<in> set r1 \<Longrightarrow> mset a = mset b"
    and r2: "try_for (service_round2 oc B K V N env session) (enumerate 0 (zip sessions r1)) (devices, []) = Inr (devices', sessions')"
    and fin: "tfor (service_finalize oc B K V env session) (enumerate 0 sessions') (devices', []) = Some (Inr (devices'', shares))"
  shows "list_all (\<lambda>s. lks_group_key s = lks_group_key (shares ! 0)) shares"
proof -
  note s = service_start_Inr [OF start] and l2 = service_round2_loop [OF r2] and l3 = service_finalize_loop [OF fin]
  have len: "length sessions' = 3" "length shares = 3"
    using s(1,2) list_all2_lengthD [OF l2] list_all2_lengthD [OF l3] by simp_all
  have "lks_group_key (shares ! i) = lks_group_key (shares ! 0)" if i: "i < 3" for i
  proof -
    have step: "\<exists>out r. fds_round2 oc B K (sessions ! k) (r1 ! k) = (sessions' ! k, Inr out) \<and> fds_finalize oc B K (sessions' ! k) r = Inr (shares ! k)"
      if "k < 3" for k
      using list_all2_nthD [OF l2, of k] list_all2_nthD [OF l3, of k] that len s(1,2) by simp
    from step [OF i] obtain out r where a: "fds_round2 oc B K (sessions ! i) (r1 ! i) = (sessions' ! i, Inr out)"
      "fds_finalize oc B K (sessions' ! i) r = Inr (shares ! i)" by blast
    from step [of 0] obtain out' r' where b: "fds_round2 oc B K (sessions ! 0) (r1 ! 0) = (sessions' ! 0, Inr out')"
      "fds_finalize oc B K (sessions' ! 0) r' = Inr (shares ! 0)" by auto
    have "dsc_threshold (fds_config (sessions ! i)) = dsc_threshold (fds_config (sessions ! 0))"
      using s(1) s(3) [of "sessions ! i"] s(3) [of "sessions ! 0"] i by simp
    moreover have "mset (r1 ! i) = mset (r1 ! 0)" by (rule same) (use s(2) i in simp_all)
    ultimately show ?thesis by (rule frost_keys_agree [OF a(1) b(1) _ _ a(2) b(2)])
  qed
  then show ?thesis unfolding list_all_length len(2) by blast
qed

lemma disconnect_Inl: "collect (\<lambda>(idx, device). attempt (fc_disconnect (T idx) device)) xs \<noteq> Inl keys_differ"
  by (induction xs) (auto simp: rbind_Inl_iff dest: demo_Inl)

lemma service_never_differs:
  assumes start: "service_start oc C B K V N env rng vault session = Some (Inr (devices, sessions, r1))"
    and same: "\<And>a b. a \<in> set r1 \<Longrightarrow> b \<in> set r1 \<Longrightarrow> mset a = mset b"
  shows "service_finish oc B K V N env vault session devices sessions r1 \<noteq> Some (Inl keys_differ)"
proof
  assume err: "service_finish oc B K V N env vault session devices sessions r1 = Some (Inl keys_differ)"
  have e2: "try_for (service_round2 oc B K V N env session) xs st \<noteq> Inl keys_differ" for xs st
    using try_for_error [of "service_round2 oc B K V N env session" "\<lambda>e. e \<noteq> keys_differ" xs st keys_differ] service_round2_Inl by blast
  have e3: "tfor (service_finalize oc B K V env session) xs st \<noteq> Some (Inl keys_differ)" for xs st
    using tfor_error [of "service_finalize oc B K V env session" "\<lambda>e. e \<noteq> keys_differ" xs st keys_differ] service_finalize_Inl by blast
  from err e2 e3 obtain devices' sessions' devices'' shares
    where r2: "try_for (service_round2 oc B K V N env session) (enumerate 0 (zip sessions r1)) (devices, []) = Inr (devices', sessions')"
      and fin: "tfor (service_finalize oc B K V env session) (enumerate 0 sessions') (devices', []) = Some (Inr (devices'', shares))"
      and bad: "\<not> list_all (\<lambda>s. lks_group_key s = lks_group_key (shares ! 0)) shares"
    by (auto simp: service_finish_def tbind_Inl_iff Let_def ensure_def disconnect_Inl split: if_splits)
  with service_keys_agree [OF start same] show False by blast
qed

end
