(* ===== verification/Live_Complete.thy ===== *)
theory Live_Complete
  imports Live_Service
begin

text \<open>
  The live service completes. A relay that accepts what is published and hands every event to
  every other device before the deadline, in any order, in any portions and possibly more than
  once, brings \<open>nostr-transport-service\<close> to its report: the devices end with the group key
  of the local run. \<open>relay_delivers\<close> describes the relay by the handler of inbound events.
\<close>

section \<open>Polling that succeeds\<close>

text \<open>\<open>K\<close> drains before the deadline that return \<open>want\<close> items in all: polling returns them.\<close>

lemma poll_delivers:
  assumes step: "\<And>k c. k < K \<Longrightarrow> Q k c \<Longrightarrow> \<exists>c'. drain (deliver k c) = (c', Inr (items k)) \<and> Q (Suc k) c'"
    and total: "length (concat (map items [0..<K])) = want" and clock: "\<And>k. k < K \<Longrightarrow> now k < start + timeout" and Q: "Q 0 c"
  shows "\<exists>c' m. poll_collect drain start now deliver want timeout c = Some (c', Inr (concat (map items [0..<K]))) \<and> Q m c'
    \<and> length (concat (map items [0..<m])) = want"
proof -
  have "\<exists>c' m. poll drain now deliver want (start + timeout) k (concat (map items [0..<k])) c = Some (c', Inr (concat (map items [0..<K])))
      \<and> Q m c' \<and> length (concat (map items [0..<m])) = want" if "k \<le> K" "Q k c" for k c
    using that
  proof (induction "K - k" arbitrary: k c)
    case 0
    then have "k = K" by simp
    with 0 total show ?case by (subst poll.simps) auto
  next
    case (Suc d)
    show ?case
    proof (cases "length (concat (map items [0..<k])) < want")
      case True
      have k: "k < K" using Suc.hyps(2) by simp
      from step [OF k Suc.prems(2)] obtain c' where c': "drain (deliver k c) = (c', Inr (items k))" "Q (Suc k) c'" by blast
      from Suc.hyps(1) [OF _ _ c'(2)] Suc.hyps(2) k
      have "\<exists>c'' m. poll drain now deliver want (start + timeout) (Suc k) (concat (map items [0..<Suc k])) c' = Some (c'', Inr (concat (map items [0..<K])))
          \<and> Q m c'' \<and> length (concat (map items [0..<m])) = want" by simp
      then show ?thesis using True clock [OF k] c'(1) by (subst poll.simps) simp
    next
      case False
      have "concat (map items [0..<K]) = concat (map items [0..<k]) @ concat (map items [k..<K])"
        using Suc.prems(1) by (metis concat_append le_add_diff_inverse map_append upt_add_eq_append zero_le)
      with total False have "concat (map items [k..<K]) = []" "length (concat (map items [0..<k])) = want" by auto
      with \<open>concat (map items [0..<K]) = _\<close> False Suc.prems(2) show ?thesis by (subst poll.simps) auto
    qed
  qed
  from this [of 0 c] Q show ?thesis by (simp add: poll_collect_def)
qed

section \<open>A device and the relay\<close>

text \<open>A connected device with these messages in its buffer.\<close>

definition live_device :: "('k, 'pk) LiveNostrTransportConfig \<Rightarrow> ProtocolMessage list \<Rightarrow> ('k, 'pk) device" where
  "live_device cfg ms = FrostCoordinator_new \<lparr>lt_cfg = cfg, lt_cmd_tx = True, lt_inbound = ms, lt_handle = True, lt_connected = True\<rparr>"

text \<open>
  During one wait the relay thread handles the events in portions \<open>batch k\<close>, with the events
  it has seen before; the new ones among them are \<open>es\<close>, and all come before the deadline.
\<close>

definition relay_delivers ::
    "ProtocolMessage codec \<Rightarrow> ('k, 'pk, 'id, 'r) nostr_lib \<Rightarrow> ('k, 'pk) LiveNostrTransportConfig
      \<Rightarrow> ('id, 'pk) nostr_event list \<Rightarrow> ('k, 'pk) polling \<Rightarrow> bool" where
  "relay_delivers J N cfg es po \<longleftrightarrow> (\<exists>seen K batch. 0 < K
     \<and> mset (fresh_events seen (concat (map batch [0..<K]))) = mset es
     \<and> (\<forall>k<K. po_now po k < po_start po + 20000
        \<and> (\<forall>d. po_deliver po k d = d\<lparr>fc_transport := (fc_transport d)\<lparr>lt_inbound := snd (fold
             (handle_inbound_event J N (lc_keys cfg) (lc_self_id cfg)) (batch k)
             (ev_id ` set (concat (map batch [0..<k])) \<union> seen, lt_inbound (fc_transport d)))\<rparr>\<rparr>)))"

lemma fresh_events_append:
  "fresh_events seen (xs @ ys) = fresh_events seen xs @ fresh_events (ev_id ` set xs \<union> seen) ys"
  by (induction seen xs rule: fresh_events.induct) (auto simp: insert_absorb)

lemma fresh_events_concat:
  "concat (map (\<lambda>k. fresh_events (ev_id ` set (concat (map batch [0..<k])) \<union> seen) (batch k)) [0..<K])
    = fresh_events seen (concat (map batch [0..<K]))"
  by (induction K) (simp_all add: fresh_events_append)

lemma map_filter_concat: "List.map_filter f (concat xss) = concat (map (List.map_filter f) xss)"
  by (induction xss) (simp_all add: List.map_filter_def)

lemma map_filter_map_Some: "(\<And>x. x \<in> set xs \<Longrightarrow> f (h x) = Some (g x)) \<Longrightarrow> List.map_filter f (map h xs) = map g xs"
  by (induction xs) (simp_all add: List.map_filter_simps)

lemma map_filter_if: "List.map_filter (\<lambda>x. if P x then Some (f x) else None) xs = map f (filter P xs)"
  by (induction xs) (simp_all add: List.map_filter_simps)

lemma mset_map_filter: "mset xs = mset ys \<Longrightarrow> mset (List.map_filter f xs) = mset (List.map_filter f ys)"
  by (simp add: List.map_filter_def)

text \<open>What arrives in the buffer: the messages of the events, in portions.\<close>

lemma relay_arrivals:
  assumes "relay_delivers J N cfg es po"
  obtains K arr where "0 < K" "\<And>k. k < K \<Longrightarrow> po_now po k < po_start po + 20000"
    "\<And>k ms. k < K \<Longrightarrow> po_deliver po k (live_device cfg ms) = live_device cfg (ms @ arr k)"
    "mset (concat (map arr [0..<K])) = mset (List.map_filter (event_message J N (lc_keys cfg) (lc_self_id cfg)) es)"
proof -
  let ?em = "event_message J N (lc_keys cfg) (lc_self_id cfg)"
  from assms obtain seen K batch where K: "0 < K" and es: "mset (fresh_events seen (concat (map batch [0..<K]))) = mset es"
    and now: "\<And>k. k < K \<Longrightarrow> po_now po k < po_start po + 20000"
    and del: "\<And>k d. k < K \<Longrightarrow> po_deliver po k d = d\<lparr>fc_transport := (fc_transport d)\<lparr>lt_inbound := snd (fold
        (handle_inbound_event J N (lc_keys cfg) (lc_self_id cfg)) (batch k)
        (ev_id ` set (concat (map batch [0..<k])) \<union> seen, lt_inbound (fc_transport d)))\<rparr>\<rparr>"
    unfolding relay_delivers_def by blast
  define arr where "arr = (\<lambda>k. List.map_filter ?em (fresh_events (ev_id ` set (concat (map batch [0..<k])) \<union> seen) (batch k)))"
  have arrives: "po_deliver po k (live_device cfg ms) = live_device cfg (ms @ arr k)" if "k < K" for k ms
    unfolding del [OF that] handle_events_eq by (simp add: live_device_def FrostCoordinator_new_def arr_def)
  have all: "concat (map arr [0..<K]) = List.map_filter ?em (fresh_events seen (concat (map batch [0..<K])))"
    unfolding fresh_events_concat [symmetric] map_filter_concat by (simp add: arr_def o_def)
  show ?thesis by (rule that [OF K now arrives]) (simp_all only: all mset_map_filter [OF es])
qed

lemma device_drain:
  "fc_drain (device_ops ready) (live_device cfg ms) sid P reads =
     (live_device cfg (filter (\<lambda>m. \<not> (pm_session_id m = sid \<and> P m)) ms), collect reads (filter (\<lambda>m. pm_session_id m = sid \<and> P m) ms))"
  by (simp add: fc_drain_def live_device_def FrostCoordinator_new_def live_ops_def lt_drain_matching_def lt_drain_loop)

text \<open>Portions of encoded packages are encodings of portions of the packages.\<close>

lemma portions_unpacked:
  assumes arr: "mset (concat (map arr [0..<K])) = mset (map g xs)" and inj: "\<forall>x\<in>set xs. unpack (g x) = x"
  shows "k < K \<Longrightarrow> arr k = map g (map unpack (arr k))" "k < K \<Longrightarrow> set (map unpack (arr k)) \<subseteq> set xs"
    "mset (concat (map (\<lambda>k. map unpack (arr k)) [0..<K])) = mset xs"
proof -
  show "arr k = map g (map unpack (arr k))" "set (map unpack (arr k)) \<subseteq> set xs" if "k < K"
  proof -
    have "arr k \<in> lists (g ` set xs)" using mset_eq_setD [OF arr] that by auto
    then obtain ys where "arr k = map g ys" "set ys \<subseteq> set xs" by (auto simp: lists_image)
    with inj show "arr k = map g (map unpack (arr k))" "set (map unpack (arr k)) \<subseteq> set xs" by (auto simp: subset_iff)
  qed
  have "concat (map (\<lambda>k. map unpack (arr k)) [0..<K]) = map unpack (concat (map arr [0..<K]))" by (simp add: map_concat o_def)
  moreover have "map unpack (map g xs) = xs" using inj by (simp add: map_idI)
  ultimately show "mset (concat (map (\<lambda>k. map unpack (arr k)) [0..<K])) = mset xs" by (metis arr mset_map)
qed

lemma mset_concat_append: "mset (concat (map (\<lambda>k. xs k @ ys k) ks)) = mset (concat (map xs ks)) + mset (concat (map ys ks))"
  by (induction ks) simp_all

lemma device_drain_all:
  assumes "\<And>x. x \<in> set xs \<Longrightarrow> reads (g x) = Inr x \<and> pm_session_id (g x) = sid \<and> P (g x)"
  shows "fc_drain (device_ops ready) (live_device cfg (map g xs)) sid P reads = (live_device cfg [], Inr xs)"
proof -
  have "filter (\<lambda>m. pm_session_id m = sid \<and> P m) (map g xs) = map g xs" "filter (\<lambda>m. \<not> (pm_session_id m = sid \<and> P m)) (map g xs) = []"
    using assms by (auto intro!: filter_True simp: filter_empty_conv)
  moreover have "collect reads (map g xs) = Inr (map id xs)" unfolding collect_map by (rule collect_map_Inr) (use assms in auto)
  ultimately show ?thesis unfolding device_drain by simp
qed

text \<open>A device that waits: its own packages and those in the events, in some order.\<close>

lemma device_collects:
  assumes R: "relay_delivers J N cfg es po"
    and es: "mset (List.map_filter (event_message J N (lc_keys cfg) (lc_self_id cfg)) es) = mset (map g others)"
    and g: "\<And>x. x \<in> set (own @ others) \<Longrightarrow> reads (g x) = Inr x \<and> pm_session_id (g x) = sid \<and> P (g x)" and ne: "own @ others \<noteq> []"
    and want: "want = length (own @ others)"
  shows "\<exists>pkgs. poll_collect (\<lambda>c. fc_drain (device_ops ready) c sid P reads) (po_start po) (po_now po) (po_deliver po) want 20000
      (live_device cfg (map g own)) = Some (live_device cfg [], Inr pkgs) \<and> mset pkgs = mset (own @ others)"
proof -
  obtain K arr where K: "0 < K" and now: "\<And>k. k < K \<Longrightarrow> po_now po k < po_start po + 20000"
    and del: "\<And>k ms. k < K \<Longrightarrow> po_deliver po k (live_device cfg ms) = live_device cfg (ms @ arr k)"
    and arr: "mset (concat (map arr [0..<K])) = mset (map g others)"
    by (rule relay_arrivals [OF R]) (use es in auto)
  define unpack where "unpack = (\<lambda>m. projr (reads m))"
  have "\<forall>x\<in>set others. unpack (g x) = x" using g by (simp add: unpack_def)
  note portions = portions_unpacked [OF arr this]
  define items where "items = (\<lambda>k. (if k = 0 then own else []) @ map unpack (arr k))"
  let ?Q = "\<lambda>k c. c = live_device cfg (if k = 0 then map g own else [])"
  have step: "\<exists>c'. fc_drain (device_ops ready) (po_deliver po k c) sid P reads = (c', Inr (items k)) \<and> ?Q (Suc k) c'"
    if k: "k < K" and c: "?Q k c" for k c
  proof -
    have "po_deliver po k c = live_device cfg ((if k = 0 then map g own else []) @ arr k)" using c del [OF k] by simp
    also have "\<dots> = live_device cfg (map g (items k))" by (subst portions(1) [OF k]) (simp add: items_def)
    finally have "po_deliver po k c = live_device cfg (map g (items k))" .
    moreover have "set (items k) \<subseteq> set (own @ others)" using portions(2) [OF k] by (auto simp: items_def)
    ultimately show ?thesis using device_drain_all [of "items k" reads g sid P ready cfg] g by (simp add: subset_iff)
  qed
  have "concat (map (\<lambda>k. if k = 0 then own else []) [0..<K]) = own" using K by (induction K) auto
  then have total: "mset (concat (map items [0..<K])) = mset (own @ others)" unfolding items_def mset_concat_append portions(3) by simp
  have "\<exists>c' m. poll_collect (\<lambda>c. fc_drain (device_ops ready) c sid P reads) (po_start po) (po_now po) (po_deliver po) want 20000
      (live_device cfg (map g own)) = Some (c', Inr (concat (map items [0..<K]))) \<and> ?Q m c' \<and> length (concat (map items [0..<m])) = want"
  proof (rule poll_delivers)
    show "length (concat (map items [0..<K])) = want" using mset_eq_length [OF total] want by simp
  qed (use step now in simp_all)
  then obtain c' m where m: "poll_collect (\<lambda>c. fc_drain (device_ops ready) c sid P reads) (po_start po) (po_now po) (po_deliver po)
      want 20000 (live_device cfg (map g own)) = Some (c', Inr (concat (map items [0..<K])))" "?Q m c'"
      "length (concat (map items [0..<m])) = want" by blast
  from m(3) ne have "m \<noteq> 0" by (cases m) (simp_all add: want)
  with m(1,2) total show ?thesis by auto
qed

section \<open>The devices of the service\<close>

definition service_codecs_ok :: "service_codecs \<Rightarrow> bool" where
  "service_codecs_ok V \<longleftrightarrow> json_ok (sv_message V) \<and> codec_ok (sv_round1 V) \<and> codec_ok (sv_round2 V)"

lemma service_codecsD:
  assumes "service_codecs_ok V"
  shows "json_ok (sv_message V)" "codec_ok (sv_round1 V)" "codec_ok (sv_round2 V)"
  using assms by (simp_all add: service_codecs_ok_def)

definition service_message1 where
  "service_message1 V sid k = projr (Round1Package_to_protocol_message (sv_round1 V) k sid)"

definition service_message2 where
  "service_message2 V sid k = projr (Round2Package_to_protocol_message (sv_round2 V) k sid)"

lemmas service_delivered1 = package_delivered [OF round1.package_message_axioms service_codecsD(2), folded service_message1_def, simplified]
lemmas service_delivered2 = package_delivered [OF round2.package_message_axioms service_codecsD(3), folded service_message2_def, simplified]

text \<open>The directory lists everybody's key; the device at position \<open>i\<close> is participant \<open>i + 1\<close>.\<close>

definition service_keys :: "('k, 'pk, 'id, 'r) nostr_lib \<Rightarrow> ('k, 'pk, 'r) relay_env \<Rightarrow> 'pk ParticipantDirectory" where
  "service_keys N env = [party 1 \<mapsto> public_key N (env_keys env 0), party 2 \<mapsto> public_key N (env_keys env 1),
     party 3 \<mapsto> public_key N (env_keys env 2)]"

definition service_config ::
    "('k, 'pk, 'id, 'r) nostr_lib \<Rightarrow> ('k, 'pk, 'r) relay_env \<Rightarrow> string \<Rightarrow> nat \<Rightarrow> ('k, 'pk) LiveNostrTransportConfig" where
  "service_config N env vault i = \<lparr>lc_relays = [relay_url env], lc_vault_tag = vault, lc_self_id = party (Suc i),
     lc_keys = env_keys env i, lc_directory = service_keys N env, lc_connect_timeout = 15000, lc_publish_timeout = 15000\<rparr>"

lemma upt3: "[0..<3] = [0, 1, 2 :: nat]"
  by (simp add: upt_rec)

lemma below3: "i < 3 \<longleftrightarrow> i = 0 \<or> i = 1 \<or> i = (2 :: nat)"
  by auto

lemma service_keys_party: "i < 3 \<Longrightarrow> service_keys N env (party (Suc i)) = Some (public_key N (env_keys env i))"
proof -
  have d: "party 1 \<noteq> party 2" "party 1 \<noteq> party 3" "party 2 \<noteq> party 3" by (simp_all add: party_inj)
  assume "i < 3"
  then consider "Suc i = 1" "i = 0" | "Suc i = 2" "i = 1" | "Suc i = 3" "i = 2" by linarith
  then show ?thesis by cases (simp_all only: service_keys_def, use d in simp_all)
qed

lemma service_pid_party: "i < 3 \<Longrightarrow> service_pid (as_u16 i + 1) = Inr (party (Suc i))"
proof -
  assume i: "i < 3"
  have "as_u16 i + 1 = as_u16 (Suc i)" by (simp add: as_u16_def)
  moreover have "as_u16 (Suc i) \<noteq> 0" using party_nonzero [of "Suc i"] i by (simp add: party_def)
  ultimately show ?thesis by (simp add: service_pid_def ParticipantId_new_def party_def ok_option_def expect_def)
qed

lemma service_directory_eq: "service_directory N env = Inr (service_keys N env)"
proof -
  have "service_pid 1 = Inr (party 1)" "service_pid 2 = Inr (party 2)" "service_pid 3 = Inr (party 3)"
    using service_pid_party [of 0] service_pid_party [of 1] service_pid_party [of 2] by (simp_all add: as_u16_def eval_nat_numeral)
  then show ?thesis
    by (simp add: service_directory_def upt3 service_keys_def directory_insert_def directory_new_def as_u16_def)
qed

lemma service_devices_eq:
  "collect (service_device env vault (service_keys N env)) [0..<3]
    = Inr (map (\<lambda>i. FrostCoordinator_new (LiveNostrTransport_new (service_config N env vault i))) [0..<3])"
  by (rule collect_map_Inr) (simp add: service_device_def make_transport_def service_pid_party service_config_def)

lemma service_connected:
  assumes "\<forall>i<3. env_ready env i = Some (Inr ())"
  shows "collect (\<lambda>(idx, device). rbind (attempt (fc_connect (device_ops (env_ready env idx)) device)) (\<lambda>(device, _). Inr device))
      (enumerate 0 (map (\<lambda>i. FrostCoordinator_new (LiveNostrTransport_new (cfg i))) [0..<3]))
    = Inr (map (\<lambda>i. live_device (cfg i) []) [0..<3])"
  unfolding enumerate_map_upt collect_map prod.case
  by (rule collect_map_Inr)
    (simp add: assms fc_connect_def live_ops_def lt_connect_def LiveNostrTransport_new_def FrostCoordinator_new_def live_device_def)

section \<open>Publishing\<close>

text \<open>The event a message is published as.\<close>

definition published_event ::
    "ProtocolMessage codec \<Rightarrow> ('k, 'pk, 'id, 'r) nostr_lib \<Rightarrow> 'r \<Rightarrow> ('k, 'pk) LiveNostrTransportConfig \<Rightarrow> ProtocolMessage
      \<Rightarrow> ('id, 'pk) nostr_event" where
  "published_event J N r cfg m = (case projr (sealed_event J N r cfg m) of (content, tags) \<Rightarrow> build_event N (lc_keys cfg) content tags)"

lemma device_publish_ok:
  assumes "is_ok (sealed_event J N r cfg m)"
  shows "device_publish J N (r, True, Some (Inr ())) (live_device cfg ms) (Inr m)
    = Inr (live_device cfg (ms @ (if is_for m (lc_self_id cfg) then [m] else [])))"
proof -
  from assms obtain content tags where "sealed_event J N r cfg m = Inr (content, tags)" by (auto simp: is_ok_iff)
  then show ?thesis by (simp add: device_publish_def lt_publish_def live_device_def FrostCoordinator_new_def)
qed

lemma broadcast_sealed:
  assumes "nostr_laws N" "json_ok J" "deliverable m" "pm_recipient m = None"
  shows "is_ok (sealed_event J N r cfg m)"
proof -
  from envelope_roundtrip [OF assms(2,3)] obtain env where "NostrEnvelopeEvent_from_protocol_message J m = Inr env" by blast
  then show ?thesis using assms(4) by (simp add: sealed_event_def build_event_tags_eq [OF assms(1)] is_ok_iff)
qed

lemma published_event_read:
  assumes "nostr_laws N" "json_ok J" "deliverable m" "is_ok (sealed_event J N r cfg m)" "lc_directory cfg i = Some (public_key N keys)"
  shows "event_message J N keys i (published_event J N r cfg m) = (if is_for m i then Some m else None)"
proof -
  from assms(4) obtain content tags where "sealed_event J N r cfg m = Inr (content, tags)" by (auto simp: is_ok_iff)
  with event_delivered [OF assms(1-3) this, of i keys] assms(5) show ?thesis by (simp add: published_event_def)
qed

section \<open>Loops over the devices\<close>

text \<open>A loop that replaces device \<open>j\<close> in place and appends a value.\<close>

lemma tfor_in_place:
  assumes f: "\<And>j devs acc. j < n \<Longrightarrow> length devs = n \<Longrightarrow> devs ! j = B j \<Longrightarrow>
      f j (devs, acc) = Some (Inr (devs[j := A j], acc @ [y j]))"
  shows "tfor f [0..<n] (map B [0..<n], []) = Some (Inr (map A [0..<n], map y [0..<n]))"
proof -
  have "tfor f [k..<n] (map A [0..<k] @ map B [k..<n], map y [0..<k]) = Some (Inr (map A [0..<n], map y [0..<n]))" if "k \<le> n" for k
    using that
  proof (induction "n - k" arbitrary: k)
    case (Suc d)
    then have k: "k < n" by simp
    have "map B [k..<n] = B k # map B [Suc k..<n]" using k by (simp add: upt_conv_Cons)
    then have "f k (map A [0..<k] @ map B [k..<n], map y [0..<k]) = Some (Inr (map A [0..<Suc k] @ map B [Suc k..<n], map y [0..<Suc k]))"
      using k by (subst f) (simp_all add: nth_append list_update_append)
    moreover have "[k..<n] = k # [Suc k..<n]" using k by (rule upt_conv_Cons)
    moreover have "tfor f [Suc k..<n] (map A [0..<Suc k] @ map B [Suc k..<n], map y [0..<Suc k]) = Some (Inr (map A [0..<n], map y [0..<n]))"
      using Suc.hyps(2) k by (intro Suc.hyps(1)) simp_all
    ultimately show ?case by (simp only: tfor.simps tbind_simps)
  qed simp
  from this [of 0] show ?thesis by simp
qed

lemma tfor_map: "tfor f (map g xs) = tfor (\<lambda>x. f (g x)) xs"
proof (induction xs)
  case (Cons x xs)
  show ?case by (rule ext) (simp add: Cons.IH)
qed (simp add: fun_eq_iff)

lemma try_for_in_place:
  assumes "\<And>j devs acc. j < n \<Longrightarrow> length devs = n \<Longrightarrow> devs ! j = B j \<Longrightarrow> f j (devs, acc) = Inr (devs[j := A j], acc @ [y j])"
  shows "try_for f [0..<n] (map B [0..<n], []) = Inr (map A [0..<n], map y [0..<n])"
  using tfor_in_place [of n B "\<lambda>j s. Some (f j s)" A y] assms by (simp add: tfor_Some)

section \<open>A relay that works\<close>

definition other_devices :: "nat \<Rightarrow> nat list" where
  "other_devices i = filter (\<lambda>j. j \<noteq> i) [0..<3]"

text \<open>The events of the first and of the second round of the device at position \<open>j\<close>.\<close>

definition round1_event where
  "round1_event B K V N env rng vault sid j = published_event (sv_message V) N (fst (env_round1 env j)) (service_config N env vault j)
     (service_message1 V sid (round1_of B K 2 3 rng j))"

definition round2_event where
  "round2_event C B K V N env rng vault sid j k = published_event (sv_message V) N (fst (env_round2 env j k)) (service_config N env vault j)
     (service_message2 V sid (round2_of C B K 2 3 rng j ! k))"

text \<open>
  The relay lets everybody connect and acknowledges every publication; NIP-44 takes the round 2
  messages; and in each round a device gets the events of the two others.
\<close>

definition relay_works ::
    "('f::field, 'p) secp \<Rightarrow> ('f, 'ki, 'ps, 'sk, 'nn, 'sg) bincode_lib \<Rightarrow> ('f, 'ct, 'ki, 'co, 'ag, 'ps, 'sk, 'g) keygen_lib
      \<Rightarrow> service_codecs \<Rightarrow> ('k, 'pk, 'id, 'r) nostr_lib \<Rightarrow> ('k, 'pk, 'r) relay_env \<Rightarrow> (nat \<Rightarrow> 'g) \<Rightarrow> string \<Rightarrow> SessionId \<Rightarrow> bool" where
  "relay_works C B K V N env rng vault sid \<longleftrightarrow> (\<forall>i<3.
     env_ready env i = Some (Inr ()) \<and> snd (env_round1 env i) = (True, Some (Inr ()))
     \<and> (\<forall>k<3. snd (env_round2 env i k) = (True, Some (Inr ()))
          \<and> is_ok (sealed_event (sv_message V) N (fst (env_round2 env i k)) (service_config N env vault i)
               (service_message2 V sid (round2_of C B K 2 3 rng i ! k))))
     \<and> relay_delivers (sv_message V) N (service_config N env vault i)
          (map (round1_event B K V N env rng vault sid) (other_devices i)) (env_poll1 env i)
     \<and> relay_delivers (sv_message V) N (service_config N env vault i)
          (concat (map (\<lambda>j. map (round2_event C B K V N env rng vault sid j) [0..<3]) (other_devices i))) (env_poll2 env i))"

text \<open>The set-up of the theorems of this section.\<close>

definition service_setup where
  "service_setup C B K V N env rng vault sid \<longleftrightarrow> service_codecs_ok V \<and> nostr_laws N \<and> frost_setup C B K \<and> proper sid
     \<and> relay_works C B K V N env rng vault sid"

lemma service_setupD:
  assumes "service_setup C B K V N env rng vault sid"
  shows "service_codecs_ok V" "nostr_laws N" "frost_setup C B K" "proper sid"
  using assms by (simp_all add: service_setup_def)

lemma relay_worksD:
  assumes "service_setup C B K V N env rng vault sid" "i < 3"
  shows "env_ready env i = Some (Inr ())" "env_round1 env i = (fst (env_round1 env i), True, Some (Inr ()))"
    "k < 3 \<Longrightarrow> env_round2 env i k = (fst (env_round2 env i k), True, Some (Inr ()))"
    "k < 3 \<Longrightarrow> is_ok (sealed_event (sv_message V) N (fst (env_round2 env i k)) (service_config N env vault i)
       (service_message2 V sid (round2_of C B K 2 3 rng i ! k)))"
    "relay_delivers (sv_message V) N (service_config N env vault i)
       (map (round1_event B K V N env rng vault sid) (other_devices i)) (env_poll1 env i)"
    "relay_delivers (sv_message V) N (service_config N env vault i)
       (concat (map (\<lambda>j. map (round2_event C B K V N env rng vault sid j) [0..<3]) (other_devices i))) (env_poll2 env i)"
proof -
  have w: "relay_works C B K V N env rng vault sid" using assms(1) by (simp add: service_setup_def)
  note w = w [unfolded relay_works_def, rule_format, OF assms(2)]
  from w show "env_ready env i = Some (Inr ())" by blast
  from w show "env_round1 env i = (fst (env_round1 env i), True, Some (Inr ()))" by (metis prod.collapse)
  show "env_round2 env i k = (fst (env_round2 env i k), True, Some (Inr ()))" if "k < 3" using w that by (metis prod.collapse)
  show "is_ok (sealed_event (sv_message V) N (fst (env_round2 env i k)) (service_config N env vault i)
       (service_message2 V sid (round2_of C B K 2 3 rng i ! k)))" if "k < 3" using w that by blast
  from w show "relay_delivers (sv_message V) N (service_config N env vault i)
       (map (round1_event B K V N env rng vault sid) (other_devices i)) (env_poll1 env i)"
    "relay_delivers (sv_message V) N (service_config N env vault i)
       (concat (map (\<lambda>j. map (round2_event C B K V N env rng vault sid j) [0..<3]) (other_devices i))) (env_poll2 env i)" by blast+
qed

section \<open>Round 1\<close>

definition round1_session where
  "round1_session C B K sid rng j = party_session C B K sid 2 3 rng [(party (Suc j), round1_of B K 2 3 rng j)] j"

lemma party_of_three: "j < 3 \<Longrightarrow> pid_val (party (Suc j)) \<noteq> 0" "i < 3 \<Longrightarrow> j < 3 \<Longrightarrow> party (Suc i) = party (Suc j) \<longleftrightarrow> i = j"
  by (simp_all add: party_nonzero party_inj)

lemma round1_message_deliverable:
  assumes "service_codecs_ok V" "proper sid" "j < 3"
  shows "deliverable (service_message1 V sid (round1_of B K 2 3 rng j))"
  by (rule service_delivered1(6) [OF assms(1,2)]) (use party_of_three(1) [OF assms(3)] in \<open>simp add: round1_of_def\<close>)

lemma round1_sealed:
  assumes "service_codecs_ok V" "nostr_laws N" "proper sid" "j < 3"
  shows "is_ok (sealed_event (sv_message V) N r cfg (service_message1 V sid (round1_of B K 2 3 rng j)))"
  by (rule broadcast_sealed [OF assms(2) service_codecsD(1) [OF assms(1)] round1_message_deliverable [OF assms(1,3,4)]])
    (simp add: service_delivered1(5) [OF assms(1)])

lemma service_round1_step:
  assumes S: "service_setup C B K V N env rng vault sid" and j: "j < 3" "length devs = 3"
    and d: "devs ! j = live_device (service_config N env vault j) []"
  shows "service_round1 oc C B K V N env rng sid (j, FrostDkgSession_new (party_config sid 2 3 j)) (devs, acc)
    = Inr (devs[j := live_device (service_config N env vault j) [service_message1 V sid (round1_of B K 2 3 rng j)]],
           acc @ [round1_session C B K sid rng j])"
proof -
  note S' = service_setupD [OF S]
  let ?m = "service_message1 V sid (round1_of B K 2 3 rng j)"
  from device_publish_ok [OF round1_sealed [OF S'(1,2,4) j(1)], where ms = "[]"]
  have "device_publish (sv_message V) N (env_round1 env j) (devs ! j) (Inr ?m) = Inr (live_device (service_config N env vault j) [?m])"
    unfolding d by (subst relay_worksD(2) [OF S j(1)]) (simp add: is_for_def service_delivered1(5) [OF S'(1)])
  then show ?thesis
    using honest_round1_call [OF S'(3), of 2 3 j oc rng sid] j service_delivered1(1) [OF S'(1)]
    by (simp add: service_round1_def call_def round1_session_def)
qed

text \<open>What the events of the others carry for a device.\<close>

lemma round1_events_read:
  assumes S: "service_setup C B K V N env rng vault sid" and i: "i < 3"
  shows "List.map_filter (event_message (sv_message V) N (env_keys env i) (party (Suc i))) (map (round1_event B K V N env rng vault sid) (other_devices i))
    = map (service_message1 V sid) (map (round1_of B K 2 3 rng) (other_devices i))"
proof -
  note S' = service_setupD [OF S]
  have "event_message (sv_message V) N (env_keys env i) (party (Suc i)) (round1_event B K V N env rng vault sid j)
      = Some (service_message1 V sid (round1_of B K 2 3 rng j))" if "j < 3" for j
  proof -
    note del = round1_message_deliverable [OF S'(1,4) that, of B K rng]
    note read = published_event_read [OF S'(2) service_codecsD(1) [OF S'(1)] del round1_sealed [OF S'(1,2,4) that]]
    show ?thesis using read [of _ "party (Suc i)" "env_keys env i"] service_keys_party [OF i, of N env]
      by (simp add: round1_event_def service_config_def is_for_def service_delivered1(5) [OF S'(1)])
  qed
  then show ?thesis unfolding map_map by (intro map_filter_map_Some) (simp add: other_devices_def)
qed

lemma choice_below: "(\<And>i. i < (n :: nat) \<Longrightarrow> \<exists>x. P i x) \<Longrightarrow> \<exists>f. \<forall>i<n. P i (f i)"
  by metis

lemma round1_collected:
  assumes S: "service_setup C B K V N env rng vault sid"
  shows "\<exists>pk. \<forall>i<3. poll_collect (\<lambda>c. drain_round1 (device_ops (env_ready env i)) (sv_round1 V) c sid)
      (po_start (env_poll1 env i)) (po_now (env_poll1 env i)) (po_deliver (env_poll1 env i)) 3 20000
      (live_device (service_config N env vault i) [service_message1 V sid (round1_of B K 2 3 rng i)])
    = Some (live_device (service_config N env vault i) [], Inr (pk i)) \<and> mset (pk i) = mset (all_round1 B K 2 3 rng)"
proof -
  note S' = service_setupD [OF S]
  have "\<exists>pkgs. poll_collect (\<lambda>c. drain_round1 (device_ops (env_ready env i)) (sv_round1 V) c sid)
      (po_start (env_poll1 env i)) (po_now (env_poll1 env i)) (po_deliver (env_poll1 env i)) 3 20000
      (live_device (service_config N env vault i) [service_message1 V sid (round1_of B K 2 3 rng i)])
    = Some (live_device (service_config N env vault i) [], Inr pkgs) \<and> mset pkgs = mset (all_round1 B K 2 3 rng)" if i: "i < 3" for i
  proof -
    let ?own = "[round1_of B K 2 3 rng i]" and ?others = "map (round1_of B K 2 3 rng) (other_devices i)"
    have all: "mset (?own @ ?others) = mset (all_round1 B K 2 3 rng)" "length (?own @ ?others) = 3"
      using i by (auto simp: below3 other_devices_def all_round1_def upt3)
    have "mset (List.map_filter (event_message (sv_message V) N (lc_keys (service_config N env vault i)) (lc_self_id (service_config N env vault i)))
        (map (round1_event B K V N env rng vault sid) (other_devices i))) = mset (map (service_message1 V sid) ?others)"
      using round1_events_read [OF S i] by (simp add: service_config_def)
    from device_collects [OF relay_worksD(5) [OF S i] this, of ?own "Round1Package_from_protocol_message (sv_round1 V)" sid
        "\<lambda>m. pm_kind m = FrostDkgRound1" 3 "env_ready env i"] all
    show ?thesis by (simp add: drain_round1_def service_delivered1 [OF S'(1)])
  qed
  then show ?thesis by (intro choice_below)
qed

text \<open>The first half: everybody has all round 1 packages, in some order.\<close>

lemma service_start_succeeds:
  assumes S: "service_setup C B K V N env rng vault sid" and name: "SessionId_new (session_str sid) = Inr sid"
  shows "\<exists>pk. service_start oc C B K V N env rng vault sid = Some (Inr (map (\<lambda>i. live_device (service_config N env vault i) []) [0..<3],
      map (round1_session C B K sid rng) [0..<3], map pk [0..<3])) \<and> (\<forall>i<3. mset (pk i) = mset (all_round1 B K 2 3 rng))"
proof -
  let ?cfg = "service_config N env vault" and ?s0 = "\<lambda>j. FrostDkgSession_new (party_config sid 2 3 j)"
  from round1_collected [OF S] obtain pk where pk': "\<forall>i<3. poll_collect (\<lambda>c. drain_round1 (device_ops (env_ready env i)) (sv_round1 V) c sid)
      (po_start (env_poll1 env i)) (po_now (env_poll1 env i)) (po_deliver (env_poll1 env i)) 3 20000
      (live_device (?cfg i) [service_message1 V sid (round1_of B K 2 3 rng i)]) = Some (live_device (?cfg i) [], Inr (pk i))
      \<and> mset (pk i) = mset (all_round1 B K 2 3 rng)" ..
  note pk = pk' [rule_format]
  have ids: "[1, 2, 3] = map (\<lambda>j. as_u16 (Suc j)) [0..<3]" by code_simp
  have created: "collect (create_frost_session (session_str sid) 2 3) [1, 2, 3] = Inr (map ?s0 [0..<3])"
    unfolding ids collect_map by (rule collect_map_Inr) (use create_party_session [OF name, of 2 3] in auto)
  have round1: "try_for (service_round1 oc C B K V N env rng sid) (enumerate 0 (map ?s0 [0..<3])) (map (\<lambda>i. live_device (?cfg i) []) [0..<3], [])
      = Inr (map (\<lambda>i. live_device (?cfg i) [service_message1 V sid (round1_of B K 2 3 rng i)]) [0..<3], map (round1_session C B K sid rng) [0..<3])"
    unfolding enumerate_map_upt try_for_map by (rule try_for_in_place) (rule service_round1_step [OF S]; simp)
  have collected: "tfor (service_collect1 V env sid) [0..<3]
      (map (\<lambda>i. live_device (?cfg i) [service_message1 V sid (round1_of B K 2 3 rng i)]) [0..<3], [])
      = Some (Inr (map (\<lambda>i. live_device (?cfg i) []) [0..<3], map pk [0..<3]))"
  proof (rule tfor_in_place)
    fix j devs acc
    assume j: "j < 3" "devs ! j = live_device (?cfg j) [service_message1 V sid (round1_of B K 2 3 rng j)]"
    have "length (pk j) = 3" using mset_eq_length [OF conjunct2 [OF pk [OF j(1)]]] by (simp add: all_round1_def)
    with pk [OF j(1)] j(2) show "service_collect1 V env sid j (devs, acc) = Some (Inr (devs[j := live_device (?cfg j) []], acc @ [pk j]))"
      by (simp add: service_collect1_def Let_def)
  qed
  have "\<forall>i<3. env_ready env i = Some (Inr ())" using relay_worksD(1) [OF S] by blast
  note connected = service_connected [OF this, of ?cfg]
  have "service_start oc C B K V N env rng vault sid = Some (Inr (map (\<lambda>i. live_device (?cfg i) []) [0..<3],
      map (round1_session C B K sid rng) [0..<3], map pk [0..<3]))"
    unfolding service_start_def service_directory_eq demo_result_simps tbind_simps service_devices_eq
      connected created round1 prod.case collected ..
  moreover have "\<forall>i<3. mset (pk i) = mset (all_round1 B K 2 3 rng)" using pk by simp
  ultimately show ?thesis by (intro exI [of _ pk] conjI)
qed

section \<open>Round 2\<close>

lemma round2_package_of_three:
  assumes S': "service_codecs_ok V" "proper sid" "frost_setup C B K" and j: "j < 3" and p: "p \<in> set (round2_of C B K 2 3 rng j)"
  shows "deliverable (service_message2 V sid p)" "is_for (service_message2 V sid p) i \<longleftrightarrow> r2_recipient p = i"
proof -
  from round2_of_parties [OF S'(3), of 2 3 j p rng] j p obtain i where i: "r2_sender p = party (Suc j)" "i \<in> {1..3}" "r2_recipient p = party i" by auto
  then show "deliverable (service_message2 V sid p)"
    by (intro service_delivered2(6) [OF S'(1,2)]) (use party_of_three(1) [OF j] in \<open>simp_all add: party_nonzero\<close>)
  show "is_for (service_message2 V sid p) i \<longleftrightarrow> r2_recipient p = i" for i by (simp add: is_for_def service_delivered2(5) [OF S'(1)])
qed

text \<open>A device publishes its packages and keeps the one for itself.\<close>

lemma round2_published:
  assumes S: "service_setup C B K V N env rng vault sid" and j: "j < 3"
  shows "try_for (\<lambda>(k, package) device. device_publish (sv_message V) N (env_round2 env j k) device
        (Round2Package_to_protocol_message (sv_round2 V) package sid)) (enumerate 0 (round2_of C B K 2 3 rng j))
      (live_device (service_config N env vault j) [])
    = Inr (live_device (service_config N env vault j) [service_message2 V sid (secret_package B K 2 3 rng (Suc j) j)])"
proof -
  note S' = service_setupD [OF S]
  let ?r2 = "round2_of C B K 2 3 rng j" and ?cfg = "service_config N env vault j"
  have len: "length ?r2 = 3" using round2_of_length [OF S'(3), of 2 3 j rng] j by simp
  let ?body = "\<lambda>k device. device_publish (sv_message V) N (env_round2 env j k) device (Round2Package_to_protocol_message (sv_round2 V) (?r2 ! k) sid)"
  let ?mine = "\<lambda>ks. filter (\<lambda>p. r2_recipient p = party (Suc j)) (map (\<lambda>k. ?r2 ! k) ks)"
  have enum: "enumerate 0 ?r2 = map (\<lambda>k. (k, ?r2 ! k)) [0..<3]" using enumerate_map_upt [of 0 "\<lambda>k. ?r2 ! k" 3] map_nth [of ?r2] len by simp
  have "\<exists>d. try_for ?body [0..<3] (live_device ?cfg []) = Inr d \<and> d = live_device ?cfg (map (service_message2 V sid) (?mine [0..<3]))"
  proof (rule try_for_invariant [where I = "\<lambda>ks d. d = live_device ?cfg (map (service_message2 V sid) (?mine ks))"])
    fix ys k zs d
    assume ks: "[0..<3] = ys @ k # zs" and d: "d = live_device ?cfg (map (service_message2 V sid) (?mine ys))"
    have "k \<in> set [0..<3]" unfolding ks by simp
    then have k: "k < 3" by simp
    then have p: "?r2 ! k \<in> set ?r2" using len by simp
    show "\<exists>d'. ?body k d = Inr d' \<and> d' = live_device ?cfg (map (service_message2 V sid) (?mine (ys @ [k])))"
      unfolding d service_delivered2(1) [OF S'(1)]
      by (subst relay_worksD(3) [OF S j k], subst device_publish_ok [OF relay_worksD(4) [OF S j k]])
        (simp add: round2_package_of_three(2) [OF S'(1,4,3) j p] service_config_def)
  qed simp
  moreover have "?mine [0..<3] = [secret_package B K 2 3 rng (Suc j) j]"
    using round2_for [OF S'(3), of 2 3 j "Suc j" rng] j map_nth [of ?r2] len by simp
  ultimately show ?thesis unfolding enum try_for_map by simp
qed

lemma round2_events_read:
  assumes S: "service_setup C B K V N env rng vault sid" and i: "i < 3"
  shows "List.map_filter (event_message (sv_message V) N (env_keys env i) (party (Suc i)))
      (concat (map (\<lambda>j. map (round2_event C B K V N env rng vault sid j) [0..<3]) (other_devices i)))
    = map (service_message2 V sid) (map (secret_package B K 2 3 rng (Suc i)) (other_devices i))"
proof -
  note S' = service_setupD [OF S]
  let ?em = "event_message (sv_message V) N (env_keys env i) (party (Suc i))"
  have one: "List.map_filter ?em (map (round2_event C B K V N env rng vault sid j) [0..<3])
      = [service_message2 V sid (secret_package B K 2 3 rng (Suc i) j)]" if j: "j < 3" for j
  proof -
    let ?r2 = "round2_of C B K 2 3 rng j"
    have len: "length ?r2 = 3" using round2_of_length [OF S'(3), of 2 3 j rng] j by simp
    have em: "?em (round2_event C B K V N env rng vault sid j k)
        = (if r2_recipient (?r2 ! k) = party (Suc i) then Some (service_message2 V sid (?r2 ! k)) else None)" if k: "k < 3" for k
    proof -
      have p: "?r2 ! k \<in> set ?r2" using len k by simp
      show ?thesis
        using published_event_read [OF S'(2) service_codecsD(1) [OF S'(1)] round2_package_of_three(1) [OF S'(1,4,3) j p] relay_worksD(4) [OF S j k],
            of "party (Suc i)" "env_keys env i"] service_keys_party [OF i, of N env]
        by (simp add: round2_event_def service_config_def round2_package_of_three(2) [OF S'(1,4,3) j p])
    qed
    have "List.map_filter ?em (map (round2_event C B K V N env rng vault sid j) [0..<3])
        = List.map_filter (\<lambda>p. if r2_recipient p = party (Suc i) then Some (service_message2 V sid p) else None) (map (\<lambda>k. ?r2 ! k) [0..<3])"
      using em by (simp add: upt3 List.map_filter_simps)
    also have "map (\<lambda>k. ?r2 ! k) [0..<3] = ?r2" using map_nth [of ?r2] len by simp
    also have "List.map_filter (\<lambda>p. if r2_recipient p = party (Suc i) then Some (service_message2 V sid p) else None) ?r2
        = map (service_message2 V sid) (filter (\<lambda>p. r2_recipient p = party (Suc i)) ?r2)"
      by (rule map_filter_if)
    also have "filter (\<lambda>p. r2_recipient p = party (Suc i)) ?r2 = [secret_package B K 2 3 rng (Suc i) j]"
      using round2_for [OF S'(3), of 2 3 j "Suc i" rng] j i by simp
    finally show ?thesis by simp
  qed
  have "map (\<lambda>j. List.map_filter ?em (map (round2_event C B K V N env rng vault sid j) [0..<3])) (other_devices i)
      = map (\<lambda>j. [service_message2 V sid (secret_package B K 2 3 rng (Suc i) j)]) (other_devices i)"
    using one by (simp add: other_devices_def)
  then show ?thesis unfolding map_filter_concat map_map o_def by (simp only: concat_map_singleton)
qed

lemma round2_collected:
  assumes S: "service_setup C B K V N env rng vault sid"
  shows "\<exists>pk. \<forall>i<3. poll_collect (\<lambda>c. drain_round2_for (device_ops (env_ready env i)) (sv_round2 V) c sid (party (Suc i)))
      (po_start (env_poll2 env i)) (po_now (env_poll2 env i)) (po_deliver (env_poll2 env i)) 3 20000
      (live_device (service_config N env vault i) [service_message2 V sid (secret_package B K 2 3 rng (Suc i) i)])
    = Some (live_device (service_config N env vault i) [], Inr (pk i)) \<and> mset (pk i) = mset (map (secret_package B K 2 3 rng (Suc i)) [0..<3])"
proof (rule choice_below)
  fix i :: nat assume i: "i < 3"
  note S' = service_setupD [OF S]
  let ?own = "[secret_package B K 2 3 rng (Suc i) i]" and ?others = "map (secret_package B K 2 3 rng (Suc i)) (other_devices i)"
  have all: "mset (?own @ ?others) = mset (map (secret_package B K 2 3 rng (Suc i)) [0..<3])" "length (?own @ ?others) = 3"
    using i by (auto simp: below3 other_devices_def upt3)
  have "mset (List.map_filter (event_message (sv_message V) N (lc_keys (service_config N env vault i)) (lc_self_id (service_config N env vault i)))
      (concat (map (\<lambda>j. map (round2_event C B K V N env rng vault sid j) [0..<3]) (other_devices i)))) = mset (map (service_message2 V sid) ?others)"
    using round2_events_read [OF S i] by (simp add: service_config_def)
  moreover have "Round2Package_from_protocol_message (sv_round2 V) (service_message2 V sid x) = Inr x
      \<and> pm_session_id (service_message2 V sid x) = sid
      \<and> (pm_kind (service_message2 V sid x) = FrostDkgRound2 \<and> is_for (service_message2 V sid x) (party (Suc i)))"
    if "x \<in> set (?own @ ?others)" for x
  proof -
    have "r2_recipient x = party (Suc i)" using that by (auto simp: secret_package_def)
    then show ?thesis by (simp add: service_delivered2 [OF S'(1)] is_for_def)
  qed
  ultimately have "\<exists>pkgs. poll_collect (\<lambda>c. fc_drain (device_ops (env_ready env i)) c sid (\<lambda>m. pm_kind m = FrostDkgRound2 \<and> is_for m (party (Suc i)))
        (Round2Package_from_protocol_message (sv_round2 V)))
      (po_start (env_poll2 env i)) (po_now (env_poll2 env i)) (po_deliver (env_poll2 env i)) 3 20000
      (live_device (service_config N env vault i) (map (service_message2 V sid) ?own))
    = Some (live_device (service_config N env vault i) [], Inr pkgs) \<and> mset pkgs = mset (?own @ ?others)"
    by (rule device_collects [OF relay_worksD(6) [OF S i]]) (simp_all add: all(2) [symmetric])
  then show "\<exists>pkgs. poll_collect (\<lambda>c. drain_round2_for (device_ops (env_ready env i)) (sv_round2 V) c sid (party (Suc i)))
      (po_start (env_poll2 env i)) (po_now (env_poll2 env i)) (po_deliver (env_poll2 env i)) 3 20000
      (live_device (service_config N env vault i) [service_message2 V sid (secret_package B K 2 3 rng (Suc i) i)])
    = Some (live_device (service_config N env vault i) [], Inr pkgs) \<and> mset pkgs = mset (map (secret_package B K 2 3 rng (Suc i)) [0..<3])"
    unfolding drain_round2_for_def all(1) list.map .
qed

section \<open>The report\<close>

lemma service_round2_step:
  fixes C :: "('f::field, 'p) secp"
  assumes S: "service_setup C B K V N env rng vault sid" and h: "honest_keygen K 2 3 rng ag ps"
    and pk: "mset pkgs = mset (all_round1 B K 2 3 rng)" and j: "j < 3" and d: "devs ! j = live_device (service_config N env vault j) []"
  shows "service_round2 oc B K V N env sid (j, round1_session C B K sid rng j, pkgs) (devs, acc)
    = Inr (devs[j := live_device (service_config N env vault j) [service_message2 V sid (secret_package B K 2 3 rng (Suc j) j)]],
           acc @ [party_session C B K sid 2 3 rng (keyed (all_round1 B K 2 3 rng)) j])"
proof -
  have h': "honest_keygen K (ucast (2 :: u16)) (unat (3 :: u16)) rng ag ps" using h by simp
  note r2 = honest_round2_call [OF service_setupD(3) [OF S] h' pk, of oc sid "[(party (Suc j), round1_of B K 2 3 rng j)]" j, folded round1_session_def]
  show ?thesis unfolding service_round2_def Let_def prod.case r2 call_def rbind.simps demo_result_simps d round2_published [OF S j] ..
qed

lemma service_finalize_step:
  fixes C :: "('f::field, 'p) secp"
  assumes S: "service_setup C B K V N env rng vault sid" and h: "honest_keygen K 2 3 rng ag ps" and nz: "keygen_nonzero K 2 3 rng"
    and poll: "poll_collect (\<lambda>c. drain_round2_for (device_ops (env_ready env j)) (sv_round2 V) c sid (party (Suc j)))
      (po_start (env_poll2 env j)) (po_now (env_poll2 env j)) (po_deliver (env_poll2 env j)) 3 20000 (devs ! j) = Some (device, Inr pkgs)"
    and pk: "mset pkgs = mset (map (secret_package B K 2 3 rng (Suc j)) [0..<3])" and j: "j < 3"
  shows "service_finalize oc B K V env sid (j, party_session C B K sid 2 3 rng (keyed (all_round1 B K 2 3 rng)) j) (devs, acc)
    = Some (Inr (devs[j := device], acc @ [dealt_share B K ag ps (Suc j)]))"
proof -
  have h': "honest_keygen K (ucast (2 :: u16)) (unat (3 :: u16)) rng ag ps" and nz': "keygen_nonzero K (ucast (2 :: u16)) (unat (3 :: u16)) rng"
    using h nz by simp_all
  have "\<forall>p\<in>set pkgs. r2_recipient p = party (Suc j)" using mset_eq_setD [OF pk] by (auto simp: secret_package_def)
  then have "filter (\<lambda>p. r2_recipient p = party (Suc j)) pkgs = pkgs" by (intro filter_True)
  then have "mset (filter (\<lambda>p. r2_recipient p = party (Suc j)) pkgs) = mset (map (secret_package B K 2 3 rng (Suc j)) [0..<unat (3 :: u16)])"
    using pk by simp
  from honest_finalize_call [OF service_setupD(3) [OF S] h' nz' _ this, of oc sid] j
  have fin: "fds_finalize oc B K (party_session C B K sid 2 3 rng (keyed (all_round1 B K 2 3 rng)) j) pkgs = Inr (dealt_share B K ag ps (Suc j))" by simp
  have len: "length pkgs = 3" using mset_eq_length [OF pk] by simp
  show ?thesis
    unfolding service_finalize_def Let_def prod.case service_pid_party [OF j] demo_result_simps tbind_simps poll option.case
      rbind.simps len ensure_def fin by simp
qed

lemma service_finish_succeeds:
  fixes C :: "('f::field, 'p) secp"
  assumes S: "service_setup C B K V N env rng vault sid" and h: "honest_keygen K 2 3 rng ag ps" and nz: "keygen_nonzero K 2 3 rng"
    and pk: "\<forall>i<3. mset (pk i) = mset (all_round1 B K 2 3 rng)"
  shows "service_finish oc B K V N env vault sid (map (\<lambda>i. live_device (service_config N env vault i) []) [0..<3])
      (map (round1_session C B K sid rng) [0..<3]) (map pk [0..<3])
    = Some (Inr \<lparr>rep_relay = relay_url env, rep_topic = ''dkgkit:'' @ vault,
        rep_group_key = gk_xonly_public_key (lks_group_key (dealt_share B K ag ps 1)), rep_all_match = True\<rparr>)"
proof -
  let ?cfg = "service_config N env vault" and ?s2 = "party_session C B K sid 2 3 rng (keyed (all_round1 B K 2 3 rng))"
  let ?own = "\<lambda>i. live_device (?cfg i) [service_message2 V sid (secret_package B K 2 3 rng (Suc i) i)]"
  have round2: "try_for (service_round2 oc B K V N env sid) (enumerate 0 (zip (map (round1_session C B K sid rng) [0..<3]) (map pk [0..<3])))
      (map (\<lambda>i. live_device (?cfg i) []) [0..<3], []) = Inr (map ?own [0..<3], map ?s2 [0..<3])"
    unfolding zip_map_same enumerate_map_upt try_for_map
    by (rule try_for_in_place) (rule service_round2_step [OF S h]; use pk in simp)
  from round2_collected [OF S] obtain r2 where r2: "\<forall>i<3. poll_collect (\<lambda>c. drain_round2_for (device_ops (env_ready env i)) (sv_round2 V) c sid (party (Suc i)))
      (po_start (env_poll2 env i)) (po_now (env_poll2 env i)) (po_deliver (env_poll2 env i)) 3 20000 (?own i) = Some (live_device (?cfg i) [], Inr (r2 i))
      \<and> mset (r2 i) = mset (map (secret_package B K 2 3 rng (Suc i)) [0..<3])" ..
  have final: "tfor (service_finalize oc B K V env sid) (map (\<lambda>j. (j, ?s2 j)) [0..<3]) (map ?own [0..<3], [])
      = Some (Inr (map (\<lambda>i. live_device (?cfg i) []) [0..<3], map (\<lambda>j. dealt_share B K ag ps (Suc j)) [0..<3]))"
    unfolding tfor_map
  proof (rule tfor_in_place)
    fix j devs acc assume j: "j < 3" "devs ! j = ?own j"
    show "service_finalize oc B K V env sid (j, ?s2 j) (devs, acc) = Some (Inr (devs[j := live_device (?cfg j) []], acc @ [dealt_share B K ag ps (Suc j)]))"
      by (rule service_finalize_step [OF S h nz, where pkgs = "r2 j"]) (use r2 j in simp_all)
  qed
  have all: "list_all (\<lambda>s. lks_group_key s = lks_group_key (dealt_share B K ag ps (Suc 0))) (map (\<lambda>j. dealt_share B K ag ps (Suc j)) [0..<3])"
    by (simp add: list_all_iff dealt_share_def Let_def)
  have disc: "collect (\<lambda>(idx, device). attempt (fc_disconnect (device_ops (env_ready env idx)) device)) (enumerate 0 (map (\<lambda>i. live_device (?cfg i) []) [0..<3]))
      = Inr (map (\<lambda>i. (fst (fc_disconnect (device_ops (env_ready env i)) (live_device (?cfg i) [])), ())) [0..<3])"
    unfolding enumerate_map_upt collect_map prod.case
    by (rule collect_map_Inr) (simp add: fc_disconnect_def live_ops_def lt_disconnect_def)
  show ?thesis
    unfolding service_finish_def round2 tbind_simps prod.case enumerate_map_upt [of 0 ?s2] final Let_def disc
    using all by (simp add: ensure_def)
qed

text \<open>
  The names the service derives from the clock: the vault, and from it the session.
\<close>

definition service_vault :: "('k, 'pk, 'r) relay_env \<Rightarrow> string" where
  "service_vault env = ''nostr-transport-service-'' @ show_nat (env_nanos env)"

definition service_session :: "('k, 'pk, 'r) relay_env \<Rightarrow> SessionId" where
  "service_session env = SessionId (service_vault env @ ''-dkg'')"

lemma service_session_new: "SessionId_new (session_str (service_session env)) = Inr (service_session env)"
  by (simp add: SessionId_new_def service_session_def service_vault_def white1_def white2_def white3_def)

lemma service_main_succeeds:
  fixes C :: "('f::field, 'p) secp"
  assumes S: "service_setup C B K V N env rng (service_vault env) (service_session env)"
    and h: "honest_keygen K 2 3 rng ag ps" and nz: "keygen_nonzero K 2 3 rng"
  shows "service_main oc C B K V N env rng
    = Some (Inr \<lparr>rep_relay = relay_url env, rep_topic = ''dkgkit:'' @ service_vault env,
        rep_group_key = gk_xonly_public_key (lks_group_key (dealt_share B K ag ps 1)), rep_all_match = True\<rparr>)"
proof -
  from service_start_succeeds [OF S service_session_new, of oc] obtain pk where
    start: "service_start oc C B K V N env rng (service_vault env) (service_session env)
      = Some (Inr (map (\<lambda>i. live_device (service_config N env (service_vault env) i) []) [0..<3],
          map (round1_session C B K (service_session env) rng) [0..<3], map pk [0..<3]))"
    and pk: "\<forall>i<3. mset (pk i) = mset (all_round1 B K 2 3 rng)" by blast
  have name: "demo_dkg (SessionId_new (service_vault env @ ''-dkg'')) = Inr (service_session env)"
    using service_session_new [of env] by (simp add: service_session_def)
  show ?thesis
    unfolding service_main_def Let_def service_vault_def [symmetric] name tbind_simps start prod.case
    by (rule service_finish_succeeds [OF S h nz pk])
qed

section \<open>A relay that hands everything over at once\<close>

text \<open>
  The hypothesis \<open>relay_works\<close> can hold: with event ids that determine the tags, a relay that
  delivers the events of the others at the first poll of each wait is one.
\<close>

lemma published_tags:
  assumes N: "nostr_laws N" and ok: "is_ok (sealed_event J N r cfg m)"
  shows "tag_value (published_event J N r cfg m) ''sender'' = Some (show_u16 (pid_val (pm_sender m)))"
    "tag_value (published_event J N r cfg m) ''recipient'' = map_option (\<lambda>i. show_u16 (pid_val i)) (pm_recipient m)"
proof -
  from ok obtain content tags where s: "sealed_event J N r cfg m = Inr (content, tags)" by (auto simp: is_ok_iff)
  then obtain env q where env: "NostrEnvelopeEvent_from_protocol_message J m = Inr env"
    "build_event_tags N env (lc_vault_tag cfg) q = Inr tags" by (rule sealed_event_Inr) blast+
  from env(1) have f: "ne_sender env = pid_val (pm_sender m)" "ne_recipient env = map_option pid_val (pm_recipient m)"
    by (auto simp: NostrEnvelopeEvent_from_protocol_message_def rbind_Inr_iff)
  have e: "published_event J N r cfg m = build_event N (lc_keys cfg) content tags" by (simp add: published_event_def s)
  show "tag_value (published_event J N r cfg m) ''sender'' = Some (show_u16 (pid_val (pm_sender m)))"
    "tag_value (published_event J N r cfg m) ''recipient'' = map_option (\<lambda>i. show_u16 (pid_val i)) (pm_recipient m)"
    by (simp_all add: e event_tags_lookup [OF N env(2)] f option.map_comp o_def)
qed

lemma fresh_events_all: "distinct (map ev_id es) \<Longrightarrow> ev_id ` set es \<inter> seen = {} \<Longrightarrow> fresh_events seen es = es"
  by (induction es arbitrary: seen) (auto simp: image_iff)

definition one_portion ::
    "ProtocolMessage codec \<Rightarrow> ('k, 'pk, 'id, 'r) nostr_lib \<Rightarrow> ('k, 'pk) LiveNostrTransportConfig \<Rightarrow> 'id set
      \<Rightarrow> ('id, 'pk) nostr_event list \<Rightarrow> ('k, 'pk) polling" where
  "one_portion J N cfg seen es = \<lparr>po_start = 0, po_now = (\<lambda>k. 100 * k),
     po_deliver = (\<lambda>k d. if k = 0 then d\<lparr>fc_transport := (fc_transport d)\<lparr>lt_inbound :=
       snd (fold (handle_inbound_event J N (lc_keys cfg) (lc_self_id cfg)) es (seen, lt_inbound (fc_transport d)))\<rparr>\<rparr> else d)\<rparr>"

lemma one_portion_delivers:
  assumes "distinct (map ev_id es)" "ev_id ` set es \<inter> seen = {}"
  shows "relay_delivers J N cfg es (one_portion J N cfg seen es)"
  unfolding relay_delivers_def
  by (rule exI [of _ seen], rule exI [of _ 1], rule exI [of _ "\<lambda>_. es"]) (simp add: one_portion_def fresh_events_all [OF assms])

lemma distinct_recipients:
  fixes C :: "('f::field, 'p) secp"
  assumes S: "frost_setup C B K" and j: "j < 3"
  shows "distinct (map r2_recipient (round2_of C B K 2 3 rng j))"
proof -
  have "count (mset (map r2_recipient (round2_of C B K 2 3 rng j))) a = 1" if a: "a \<in> r2_recipient ` set (round2_of C B K 2 3 rng j)" for a
  proof -
    from a obtain p where "p \<in> set (round2_of C B K 2 3 rng j)" "a = r2_recipient p" by blast
    with round2_of_parties(2) [OF S, of 2 3 j p rng] j obtain i where "i \<in> {1..3}" "a = party i" by auto
    then show ?thesis
      using round2_for [OF S, of 2 3 j i rng] j
      by (simp add: count_mset count_list_eq_length_filter filter_map o_def eq_commute [of "party i"] del: mset_map)
  qed
  then show ?thesis unfolding distinct_count_atmost_1 by (auto simp: count_eq_zero_iff)
qed

definition ids_fix_tags :: "('k, 'pk, 'id, 'r) nostr_lib \<Rightarrow> bool" where
  "ids_fix_tags N \<longleftrightarrow> (\<forall>k c t k' c' t'. ev_id (build_event N k c t) = ev_id (build_event N k' c' t') \<longrightarrow> t = t')"

lemma published_same_id:
  assumes N: "nostr_laws N" "ids_fix_tags N" and ok: "is_ok (sealed_event J N r cfg m)" "is_ok (sealed_event J N r' cfg' m')"
    and id: "ev_id (published_event J N r cfg m) = ev_id (published_event J N r' cfg' m')"
  shows "pm_sender m = pm_sender m'" "pm_recipient m = pm_recipient m'"
proof -
  have "find_tag key (snd (projr (sealed_event J N r cfg m))) = tag_value (published_event J N r cfg m) key"
    "find_tag key (snd (projr (sealed_event J N r' cfg' m'))) = tag_value (published_event J N r' cfg' m') key" if "key \<noteq> ''p''" for key
    using that by (simp_all add: published_event_def event_tag [OF N(1)] split: prod.splits)
  moreover have "snd (projr (sealed_event J N r cfg m)) = snd (projr (sealed_event J N r' cfg' m'))"
    using id N(2) by (auto simp: published_event_def ids_fix_tags_def split: prod.splits)
  ultimately have "tag_value (published_event J N r cfg m) key = tag_value (published_event J N r' cfg' m') key" if "key \<noteq> ''p''" for key
    using that by metis
  from this [of "''sender''"] this [of "''recipient''"]
  have "show_u16 (pid_val (pm_sender m)) = show_u16 (pid_val (pm_sender m'))"
    "map_option (\<lambda>i. show_u16 (pid_val i)) (pm_recipient m) = map_option (\<lambda>i. show_u16 (pid_val i)) (pm_recipient m')"
    by (simp_all add: published_tags [OF N(1) ok(1)] published_tags [OF N(1) ok(2)])
  moreover have "show_u16 (pid_val i) = show_u16 (pid_val i') \<longleftrightarrow> i = i'" for i i'
    by (cases i; cases i') (simp add: word_unat_eq_iff)
  ultimately show "pm_sender m = pm_sender m'" "pm_recipient m = pm_recipient m'"
    by (cases "pm_recipient m"; cases "pm_recipient m'"; simp)+
qed

definition relaying ::
    "('f::field, 'p) secp \<Rightarrow> ('f, 'ki, 'ps, 'sk, 'nn, 'sg) bincode_lib \<Rightarrow> ('f, 'ct, 'ki, 'co, 'ag, 'ps, 'sk, 'g) keygen_lib
      \<Rightarrow> service_codecs \<Rightarrow> ('k, 'pk, 'id, 'r) nostr_lib \<Rightarrow> ('k, 'pk, 'r) relay_env \<Rightarrow> (nat \<Rightarrow> 'g) \<Rightarrow> ('k, 'pk, 'r) relay_env" where
  "relaying C B K V N env rng =
     (let vault = service_vault env; sid = service_session env;
        es1 = (\<lambda>i. map (round1_event B K V N env rng vault sid) (other_devices i));
        es2 = (\<lambda>i. concat (map (\<lambda>j. map (round2_event C B K V N env rng vault sid j) [0..<3]) (other_devices i))) in
      env\<lparr>env_poll1 := \<lambda>i. one_portion (sv_message V) N (service_config N env vault i) {} (es1 i),
          env_poll2 := \<lambda>i. one_portion (sv_message V) N (service_config N env vault i) (ev_id ` set (es1 i)) (es2 i)\<rparr>)"

text \<open>The names, the configurations and the events do not depend on the waits.\<close>

lemma relaying_names:
  "service_vault (relaying C B K V N env rng) = service_vault env"
  "service_session (relaying C B K V N env rng) = service_session env"
  "service_config N (relaying C B K V N env rng) vault i = service_config N env vault i"
  "env_round1 (relaying C B K V N env rng) = env_round1 env" "env_round2 (relaying C B K V N env rng) = env_round2 env"
  "env_ready (relaying C B K V N env rng) = env_ready env"
  by (simp_all add: relaying_def Let_def service_vault_def service_session_def service_config_def service_keys_def relay_url_def)

lemma relaying_events:
  "round1_event B K V N (relaying C B K V N env rng) rng vault sid = round1_event B K V N env rng vault sid"
  "round2_event C B K V N (relaying C B K V N env rng) rng vault sid = round2_event C B K V N env rng vault sid"
  by (simp_all add: fun_eq_iff round1_event_def round2_event_def relaying_names)

lemma direct_sealed:
  assumes "nostr_laws N" "json_ok J" "deliverable m" "pm_recipient m = Some i" "lc_directory cfg i = Some pk"
    and "\<And>k pk p. is_ok (nip44_encrypt N r k pk p)"
  shows "is_ok (sealed_event J N r cfg m)"
proof -
  from envelope_roundtrip [OF assms(2,3)] obtain env where env: "NostrEnvelopeEvent_from_protocol_message J m = Inr env" by blast
  from assms(6) [of "lc_keys cfg" pk "ne_content env"] obtain c where "nip44_encrypt N r (lc_keys cfg) pk (ne_content env) = Inr c"
    by (auto simp: is_ok_iff)
  with env show ?thesis
    using assms(4,5) by (simp add: sealed_event_def build_event_tags_eq [OF assms(1)] is_ok_iff directory_get_def encrypt_for_def)
qed

lemma round2_sealed:
  fixes C :: "('f::field, 'p) secp"
  assumes "service_codecs_ok V" "nostr_laws N" "proper sid" "frost_setup C B K" "j < 3" "k < 3"
    and "\<And>r k pk p. is_ok (nip44_encrypt N r k pk p)"
  shows "is_ok (sealed_event (sv_message V) N r (service_config N env vault j) (service_message2 V sid (round2_of C B K 2 3 rng j ! k)))"
proof -
  have p: "round2_of C B K 2 3 rng j ! k \<in> set (round2_of C B K 2 3 rng j)" (is "?p \<in> _")
    using round2_of_length [OF assms(4), of 2 3 j rng] assms(5,6) by simp
  from round2_of_parties(2) [OF assms(4), of 2 3 j ?p rng] p assms(5) obtain i where i: "i \<in> {1..3}" "r2_recipient ?p = party i" by auto
  then obtain i' where i': "i = Suc i'" "i' < 3" by (cases i) auto
  show ?thesis
    by (rule direct_sealed [OF assms(2) service_codecsD(1) [OF assms(1)] round2_package_of_three(1) [OF assms(1,3,4,5) p]])
      (use i service_keys_party [OF i'(2), of N env] in \<open>simp_all add: i'(1) service_delivered2(5) [OF assms(1)] service_config_def assms(7)\<close>)
qed

lemma relaying_setup:
  fixes C :: "('f::field, 'p) secp"
  assumes S': "service_codecs_ok V" "nostr_laws N" "frost_setup C B K" and ids: "ids_fix_tags N"
    and nip44: "\<And>r k pk p. is_ok (nip44_encrypt N r k pk p)"
    and answers: "\<And>i. env_ready env i = Some (Inr ())" "\<And>i. snd (env_round1 env i) = (True, Some (Inr ()))"
      "\<And>i k. snd (env_round2 env i k) = (True, Some (Inr ()))"
  shows "service_setup C B K V N (relaying C B K V N env rng) rng (service_vault env) (service_session env)"
proof -
  let ?vault = "service_vault env" and ?sid = "service_session env"
  let ?e1 = "round1_event B K V N env rng ?vault ?sid" and ?e2 = "round2_event C B K V N env rng ?vault ?sid"
  have sid: "proper ?sid" by (rule SessionId_new_proper [OF service_session_new])
  note ok1 = round1_sealed [OF S'(1,2) sid] and ok2 = round2_sealed [OF S'(1,2) sid S'(3) _ _ nip44]
  have send2: "r2_sender (round2_of C B K 2 3 rng j ! k) = party (Suc j)" if "j < 3" "k < 3" for j k
    using round2_of_parties(1) [OF S'(3), of 2 3 j "round2_of C B K 2 3 rng j ! k" rng] round2_of_length [OF S'(3), of 2 3 j rng] that by simp
  have inj1: "ev_id (?e1 j) = ev_id (?e1 j') \<longleftrightarrow> j = j'" if "j < 3" "j' < 3" for j j'
    using published_same_id(1) [OF S'(2) ids ok1 ok1, of j j'] that party_of_three(2) [of j j']
    by (auto simp: round1_event_def service_delivered1(7) [OF S'(1)] round1_of_def)
  have inj12: "ev_id (?e1 j) \<noteq> ev_id (?e2 j' k)" if "j < 3" "j' < 3" "k < 3" for j j' k
    using published_same_id(2) [OF S'(2) ids ok1 ok2, of j j' k] that
    by (auto simp: round1_event_def round2_event_def service_delivered1(5) [OF S'(1)] service_delivered2(5) [OF S'(1)])
  have inj2: "j = j' \<and> k = k'" if b: "j < 3" "k < 3" "j' < 3" "k' < 3" and e: "ev_id (?e2 j k) = ev_id (?e2 j' k')" for j k j' k'
  proof -
    note same = published_same_id [OF S'(2) ids ok2 ok2, OF b e [unfolded round2_event_def]]
    have "j = j'" using same(1) b send2 party_of_three(2) [of j j'] by (simp add: service_delivered2(7) [OF S'(1)])
    moreover have "k = k'"
      using same(2) b distinct_recipients [OF S'(3), of j rng] round2_of_length [OF S'(3), of 2 3 j rng] \<open>j = j'\<close>
      by (simp add: service_delivered2(5) [OF S'(1)] distinct_conv_nth) metis
    ultimately show ?thesis ..
  qed
  have es1: "distinct (map ev_id (map ?e1 (other_devices i)))" for i
    by (auto simp: distinct_map o_def inj_on_def other_devices_def inj1)
  have flat: "concat (map (\<lambda>j. map (?e2 j) [0..<3]) js) = map (\<lambda>(j, k). ?e2 j k) (List.product js [0..<3])" for js
    by (induction js) auto
  have es2: "distinct (map ev_id (concat (map (\<lambda>j. map (?e2 j) [0..<3]) (other_devices i))))" for i
    unfolding flat map_map using inj2
    by (simp add: distinct_map distinct_product inj_on_def other_devices_def) (meson atLeastLessThan_iff)
  have new: "ev_id ` set (concat (map (\<lambda>j. map (?e2 j) [0..<3]) (other_devices i))) \<inter> ev_id ` set (map ?e1 (other_devices i)) = {}" for i
    using inj12 by (auto simp: other_devices_def dest!: sym [of _ "ev_id (?e1 _)"])
  have "relay_works C B K V N (relaying C B K V N env rng) rng ?vault ?sid"
    unfolding relay_works_def relaying_names relaying_events
    using answers ok2 one_portion_delivers [OF es1 Int_empty_right] one_portion_delivers [OF es2 new]
    by (auto simp: relaying_def Let_def)
  then show ?thesis using S' sid by (simp add: service_setup_def)
qed

end
