(* ===== verification/Frost_Instances.thy ===== *)
theory Frost_Instances
  imports Instances Live_Complete
begin

text \<open>
  A key generation library over the reference group that keeps \<open>keygen_laws\<close>: Shamir's
  scheme with the polynomials in the open. It shows that the hypotheses of the theorems on
  FROST key generation can hold, and gives their witnesses.
\<close>

section \<open>Shamir's scheme\<close>

text \<open>The generator is the coefficient of every power; paired shares carry their index and the public key.\<close>

definition shamir_eval :: "gf list \<Rightarrow> gf \<Rightarrow> gf" where
  "shamir_eval p x = foldr (\<lambda>a v. a + x * v) p 0"

definition gf_list :: "gf set \<Rightarrow> gf list" where
  "gf_list I = map of_int (sorted_list_of_set (gf_rep ` I))"

definition even_share :: "gf \<times> gf \<times> gf \<Rightarrow> gf \<times> gf \<times> gf" where
  "even_share share = (case share of (i, s, k) \<Rightarrow> if odd_rep k then (i, - s, - k) else (i, s, k))"

definition toy_keygen :: "(gf, unit, gf list, nat \<times> (u32 \<times> gf list) list, gf list list, gf \<times> gf \<times> gf, gf, gf) keygen_lib" where
  "toy_keygen = \<lparr>
     gen_keygen_input = (\<lambda>t I _ r. let p = replicate (unat t) r in ((), p, map (\<lambda>x. (x, shamir_eval p x)) (gf_list I))),
     coordinator_new = (\<lambda>_ n. (unat n, [])),
     add_input = (\<lambda>(n, ps) j p. Inr (n, btree_insert j p ps)),
     finish = (\<lambda>(n, ps). if length ps = n then Some (map snd ps) else None),
     collect_secret_inputs = (\<lambda>i shares. (i, sum_list shares)),
     receive_secret_share = (\<lambda>ps (i, s). if s = (\<Sum>p\<leftarrow>ps. shamir_eval p i) then Inr (i, s, \<Sum>p\<leftarrow>ps. shamir_eval p 0)
        else Inl ''share does not match commitment''),
     agg_shared_key = (\<lambda>ps. \<Sum>p\<leftarrow>ps. shamir_eval p 0),
     share_non_zero = (\<lambda>(i, s, k). if s = 0 then None else Some (i, s, k)),
     share_into_xonly = even_share,
     key_non_zero = (\<lambda>k. if k = 0 then None else Some k),
     key_into_xonly = (\<lambda>k. fst (even_y toy k)),
     key_xonly_bytes = to_xonly_bytes toy\<rparr>"

text \<open>Signatures are only written.\<close>

definition toy_frost_bincode :: "(gf, gf list, gf \<times> gf \<times> gf, gf, gf, gf \<times> gf) bincode_lib" where
  "toy_frost_bincode = \<lparr>bc_scalar = codec_of f_gf, bc_keygen_input = codec_of (f_list f_gf),
     bc_paired_share = codec_of (f_pair f_gf (f_pair f_gf f_gf)), bc_shared_key = codec_of f_gf, bc_nonce = codec_of f_gf,
     bc_signature = \<lparr>to_vec = \<lambda>sig. Inr (signature_to_bytes toy sig), from_slice = \<lambda>_. Inl ''unsupported''\<rparr>\<rparr>"

lemma gf_list_props: "finite I \<Longrightarrow> set (gf_list I) = I \<and> distinct (gf_list I)"
proof -
  assume I: "finite I"
  have inj: "inj_on (of_int :: int \<Rightarrow> gf) (gf_rep ` I)" by (rule inj_onI) (auto simp: of_int_gf_rep)
  have "set (gf_list I) = of_int ` gf_rep ` I" using I by (simp add: gf_list_def)
  also have "\<dots> = I" by (simp add: image_image of_int_gf_rep)
  finally show ?thesis using I inj by (simp add: gf_list_def distinct_map)
qed

lemma toy_contribution:
  "contribution toy_keygen t n rng j = (let p = replicate (unat t) (rng j) in
     ((), p, map (\<lambda>x. (x, shamir_eval p x)) (gf_list (set (party_indices n)))))"
  by (simp add: contribution_def toy_keygen_def)

definition toy_inputs :: "u32 \<Rightarrow> nat \<Rightarrow> (nat \<Rightarrow> gf) \<Rightarrow> gf list list" where
  "toy_inputs t n rng = map (\<lambda>j. replicate (unat t) (rng j)) [0..<n]"

lemma toy_shares_for:
  assumes "i \<in> {1..n}"
  shows "shares_for toy_keygen t n rng i = map (\<lambda>p. shamir_eval p (of_nat i)) (toy_inputs t n rng)"
proof -
  have "of_nat i \<in> set (gf_list (set (party_indices n)))"
    using gf_list_props [of "set (party_indices n)"] assms by (auto simp: party_indices_eq)
  then have "map_of (map (\<lambda>x. (x, shamir_eval p x)) (gf_list (set (party_indices n)))) (of_nat i) = Some (shamir_eval p (of_nat i))" for p
    by (simp add: map_of_map_restrict)
  then show ?thesis by (simp add: shares_for_def toy_contribution toy_inputs_def Let_def)
qed

definition toy_keyed :: "u32 \<Rightarrow> (nat \<Rightarrow> gf) \<Rightarrow> nat list \<Rightarrow> (u32 \<times> gf list) list" where
  "toy_keyed t rng js = map (\<lambda>j. (word_of_nat j, replicate (unat t) (rng j))) js"

lemma toy_added:
  "try_for (\<lambda>j co. add_input toy_keygen co (word_of_nat j) (contributed_input toy_keygen t n rng j)) js (m, ps)
    = Inr (m, fold (\<lambda>(k, v). btree_insert k v) (toy_keyed t rng js) ps)"
  by (induction js arbitrary: ps) (simp_all add: toy_contribution Let_def toy_keyed_def, simp_all add: toy_keygen_def)

text \<open>The coordinator keeps the inputs by index: their order of arrival is forgotten.\<close>

lemma toy_coordinator:
  assumes n: "n \<le> 65535" and js: "mset js = mset [0..<n]"
  shows "\<exists>co. try_for (\<lambda>j co. add_input toy_keygen co (word_of_nat j) (contributed_input toy_keygen t n rng j)) js
      (coordinator_new toy_keygen t (word_of_nat n)) = Inr co \<and> finish toy_keygen co = Some (toy_inputs t n rng)"
proof -
  have less: "(word_of_nat i :: u32) < word_of_nat j" if "i < j" "j < n" for i j using that n by (simp add: word_less_nat_alt unat_of_nat)
  have sorted: "sorted_wrt (<) (map fst (toy_keyed t rng [0..<n]))"
    by (auto simp: toy_keyed_def sorted_wrt_iff_nth_less less)
  then have d: "distinct (map fst (toy_keyed t rng [0..<n]))" using strict_sorted_iff by blast
  have perm: "mset (toy_keyed t rng [0..<n]) = mset (toy_keyed t rng js)" using js by (simp add: toy_keyed_def)
  have "btree_of (toy_keyed t rng js) = toy_keyed t rng [0..<n]"
    using btree_of_perm [OF d perm] btree_of_id [OF sorted] by simp
  then have "fold (\<lambda>(k, v). btree_insert k v) (toy_keyed t rng js) [] = toy_keyed t rng [0..<n]" by (simp add: btree_of_def)
  moreover have "coordinator_new toy_keygen t (word_of_nat n) = (n, [])" using n by (simp add: toy_keygen_def unat_of_nat)
  ultimately show ?thesis
    unfolding \<open>coordinator_new toy_keygen t (word_of_nat n) = (n, [])\<close> toy_added
    by (simp add: toy_keygen_def toy_keyed_def toy_inputs_def o_def)
qed

lemma toy_honest_iff:
  assumes n: "n \<le> 65535"
  shows "honest_keygen toy_keygen t n rng ag ps \<longleftrightarrow> ag = toy_inputs t n rng
    \<and> (\<forall>i\<in>{1..n}. ps i = (of_nat i, \<Sum>p\<leftarrow>ag. shamir_eval p (of_nat i), \<Sum>p\<leftarrow>ag. shamir_eval p 0))"
proof -
  have rcv: "receive_secret_share toy_keygen (toy_inputs t n rng) (collect_secret_inputs toy_keygen (of_nat i) ss)
    = Inr (of_nat i, \<Sum>p\<leftarrow>toy_inputs t n rng. shamir_eval p (of_nat i), \<Sum>p\<leftarrow>toy_inputs t n rng. shamir_eval p 0)"
    if "i \<in> {1..n}" "mset ss = mset (shares_for toy_keygen t n rng i)" for i ss
  proof -
    have "sum_list ss = (\<Sum>p\<leftarrow>toy_inputs t n rng. shamir_eval p (of_nat i))"
      using that by (metis sum_mset_sum_list toy_shares_for)
    then show ?thesis by (simp add: toy_keygen_def)
  qed
  show ?thesis
  proof
    assume h: "honest_keygen toy_keygen t n rng ag ps"
    from toy_coordinator [OF n refl, of t rng] honest_keygenD(1) [OF h refl] have ag: "ag = toy_inputs t n rng" by auto
    show "ag = toy_inputs t n rng \<and> (\<forall>i\<in>{1..n}. ps i = (of_nat i, \<Sum>p\<leftarrow>ag. shamir_eval p (of_nat i), \<Sum>p\<leftarrow>ag. shamir_eval p 0))"
    proof (intro conjI ballI)
      fix i assume i: "i \<in> {1..n}"
      from honest_keygenD(2) [OF h i refl] rcv [OF i refl] show "ps i = (of_nat i, \<Sum>p\<leftarrow>ag. shamir_eval p (of_nat i), \<Sum>p\<leftarrow>ag. shamir_eval p 0)" unfolding ag by simp
    qed (rule ag)
  next
    assume h: "ag = toy_inputs t n rng \<and> (\<forall>i\<in>{1..n}. ps i = (of_nat i, \<Sum>p\<leftarrow>ag. shamir_eval p (of_nat i), \<Sum>p\<leftarrow>ag. shamir_eval p 0))"
    then have ag: "ag = toy_inputs t n rng" ..
    show "honest_keygen toy_keygen t n rng ag ps"
      unfolding honest_keygen_def
    proof (intro conjI allI impI ballI)
      show "\<exists>co. try_for (\<lambda>j co. add_input toy_keygen co (word_of_nat j) (contributed_input toy_keygen t n rng j)) js
          (coordinator_new toy_keygen t (word_of_nat n)) = Inr co \<and> finish toy_keygen co = Some ag" if "mset js = mset [0..<n]" for js
        unfolding ag by (rule toy_coordinator [OF n that])
    qed (use h rcv in simp)
  qed
qed

lemma toy_keygen_laws: "keygen_laws toy_keygen"
  unfolding keygen_laws_def
proof (intro allI impI, elim conjE, intro conjI allI impI)
  fix t :: u32 and n :: nat and rng j
  assume n: "n \<le> 65535"
  note g = gf_list_props [of "set (party_indices n)"]
  show "distinct (map fst (contributed_shares toy_keygen t n rng j))" using g by (simp add: toy_contribution Let_def o_def)
  show "fst ` set (contributed_shares toy_keygen t n rng j) = set (party_indices n)" using g by (simp add: toy_contribution Let_def image_image)
  show "\<exists>ag ps. honest_keygen toy_keygen t n rng ag ps" 
    unfolding toy_honest_iff [OF n]
    by (intro exI [of _ "toy_inputs t n rng"]
        exI [of _ "\<lambda>i. (of_nat i, \<Sum>p\<leftarrow>toy_inputs t n rng. shamir_eval p (of_nat i), \<Sum>p\<leftarrow>toy_inputs t n rng. shamir_eval p 0)"]) simp
qed

lemma toy_big_endian: "big_endian toy"
  unfolding big_endian_def
proof (intro allI impI conjI)
  fix i :: nat assume i: "i \<le> 65535"
  show "length (scalar_to_bytes toy (of_nat i)) = 32" by simp
  have f: "int (from_be_bytes b) = from_base b" for b
    by (induction b rule: rev_induct) (simp_all add: from_be_bytes_def from_base_def)
  have "gf_rep (of_nat i) = int i" using gf_rep_of_int [of "int i"] i by simp
  then show "from_be_bytes (scalar_to_bytes toy (of_nat i)) = i"
    using f [of "scalar_to_bytes toy (of_nat i)"] from_to_base [of 32 "int i"] i by simp
qed

lemma toy_frost_setup: "frost_setup toy toy_frost_bincode toy_keygen"
proof -
  have "format_ok f_gf" "format_ok (f_list f_gf)" "format_ok (f_pair f_gf (f_pair f_gf f_gf))" by (intro format_intros f_gf_ok)+
  then show ?thesis
    by (simp add: frost_setup_def big_characteristic_gf toy_big_endian bincode_ok_def toy_frost_bincode_def codec_of_ok toy_keygen_laws)
qed

section \<open>Two of three\<close>

definition demo_rng :: "nat \<Rightarrow> gf" where
  "demo_rng j = of_nat (Suc j)"

lemma demo_inputs: "toy_inputs 2 3 demo_rng = [[1, 1], [2, 2], [3, 3]]"
proof -
  have "replicate 2 x = [x, x]" for x :: gf by (simp add: numeral_2_eq_2)
  then show ?thesis by (simp add: toy_inputs_def demo_rng_def upt_conv_Cons)
qed

lemma demo_nonzero: "keygen_nonzero toy_keygen 2 3 demo_rng"
  unfolding keygen_nonzero_def
proof (intro allI impI conjI ballI)
  fix ag ps
  assume "honest_keygen toy_keygen 2 3 demo_rng ag ps"
  then have h: "ag = [[1, 1], [2, 2], [3, 3]]" "\<forall>i\<in>{1..3}. ps i = (of_nat i, \<Sum>p\<leftarrow>ag. shamir_eval p (of_nat i), \<Sum>p\<leftarrow>ag. shamir_eval p 0)"
    using toy_honest_iff [of 3 2 demo_rng ag ps] demo_inputs by simp_all
  from h(1) show "key_non_zero toy_keygen (agg_shared_key toy_keygen ag) \<noteq> None"
    by (simp add: toy_keygen_def shamir_eval_def gf_numeral_neq_0)
  fix i :: nat assume i: "i \<in> {1..3}"
  then have "i = 1 \<or> i = 2 \<or> i = 3" by auto
  then have "6 + 6 * (of_nat i :: gf) \<noteq> 0" by (auto simp: gf_numeral_neq_0)
  moreover have "ps i = (of_nat i, 6 + 6 * of_nat i, 6)" using bspec [OF h(2) i] unfolding h(1) by (simp add: shamir_eval_def algebra_simps)
  ultimately show "share_non_zero toy_keygen (ps i) \<noteq> None" by (simp add: toy_keygen_def)
qed

section \<open>Sessions and programs\<close>

definition demo_round1 :: "Round1Package list" where
  "demo_round1 = all_round1 toy_frost_bincode toy_keygen 2 3 demo_rng"

definition demo_round2 :: "Round2Package list" where
  "demo_round2 = concat (map (round2_of toy toy_frost_bincode toy_keygen 2 3 demo_rng) [0..<3])"

definition demo_party :: "nat \<Rightarrow> unit FrostDkgSession" where
  "demo_party j = fst (fds_round1 True toy toy_frost_bincode toy_keygen (demo_rng j) (FrostDkgSession_new (party_config demo_session 2 3 j)))"

lemma demo_honest: obtains ag ps where "honest_keygen toy_keygen (ucast (2 :: u16)) (unat (3 :: u16)) demo_rng ag ps"
  using keygen_lawsD(3) [of toy_keygen 2 3 0 demo_rng] toy_keygen_laws by auto

lemma demo_party_runs:
  assumes "j < 3"
  shows "\<exists>s out share. fds_round2 True toy_frost_bincode toy_keygen (demo_party j) demo_round1 = (s, Inr out)
    \<and> fds_finalize True toy_frost_bincode toy_keygen s demo_round2 = Inr share"
proof -
  obtain ag ps where h: "honest_keygen toy_keygen (ucast (2 :: u16)) (unat (3 :: u16)) demo_rng ag ps" by (rule demo_honest)
  have party: "demo_party j = party_session toy toy_frost_bincode toy_keygen demo_session 2 3 demo_rng
      [(party (Suc j), round1_of toy_frost_bincode toy_keygen 2 3 demo_rng j)] j"
    using honest_round1_call [OF toy_frost_setup, of 2 3 j True demo_rng demo_session] assms by (simp add: demo_party_def)
  have "filter (\<lambda>p. r2_recipient p = party (Suc j)) demo_round2
      = map (secret_package toy_frost_bincode toy_keygen 2 3 demo_rng (Suc j)) [0..<unat (3 :: u16)]"
    using all_round2_for [OF toy_frost_setup, of 2 3 "Suc j" demo_rng] assms by (simp add: demo_round2_def)
  then show ?thesis
    unfolding party demo_round1_def
    using honest_round2_call [OF toy_frost_setup h refl] honest_finalize_call [OF toy_frost_setup h, of j demo_round2] demo_nonzero assms by simp
qed

definition f_round1 :: "Round1Package format" where
  "f_round1 = f_map (\<lambda>k. (r1_participant_id k, r1_bytes k)) (\<lambda>(i, b). \<lparr>r1_participant_id = i, r1_bytes = b\<rparr>) (f_pair f_id f_bytes)"

definition f_round2 :: "Round2Package format" where
  "f_round2 = f_map (\<lambda>k. (r2_sender k, r2_recipient k, r2_bytes k)) (\<lambda>(s, r, b). \<lparr>r2_sender = s, r2_recipient = r, r2_bytes = b\<rparr>)
     (f_pair f_id (f_pair f_id f_bytes))"

definition demo_cli_codecs :: cli_codecs where
  "demo_cli_codecs = \<lparr>cc_message = demo_json, cc_round1 = codec_of f_round1, cc_round2 = codec_of f_round2\<rparr>"

lemma demo_cli_codecs_ok: "cli_codecs_ok demo_cli_codecs"
proof -
  have "format_ok f_round1" "format_ok f_round2"
    unfolding f_round1_def f_round2_def by (intro format_intros basic_formats_ok; simp)+
  then show ?thesis by (simp add: cli_codecs_ok_def demo_cli_codecs_def demo_json_ok codec_of_ok)
qed

text \<open>A relay that answers and delivers nothing, and a clock that only moves while the service sleeps.\<close>

definition demo_polling :: "(nat, nat) polling" where
  "demo_polling = \<lparr>po_start = 7, po_now = (\<lambda>k. 7 + 100 * k), po_deliver = (\<lambda>_ d. d)\<rparr>"

definition demo_env :: "(nat, nat, unit) relay_env" where
  "demo_env = \<lparr>env_test_relay = None, env_nanos = 1, env_keys = (\<lambda>i. i), env_ready = (\<lambda>_. Some (Inr ())),
     env_round1 = (\<lambda>_. ((), True, Some (Inr ()))), env_round2 = (\<lambda>_ _. ((), True, Some (Inr ()))),
     env_poll1 = (\<lambda>_. demo_polling), env_poll2 = (\<lambda>_. demo_polling)\<rparr>"

lemma demo_steady: "steady (env_poll1 demo_env i)" "steady (env_poll2 demo_env i)"
  by (simp_all add: steady_def demo_env_def demo_polling_def)

text \<open>The same environment with a relay that hands the events over at the first poll.\<close>

definition demo_service_codecs :: service_codecs where
  "demo_service_codecs = \<lparr>sv_message = demo_json, sv_round1 = codec_of f_round1, sv_round2 = codec_of f_round2\<rparr>"

definition relayed_env :: "(nat, nat, unit) relay_env" where
  "relayed_env = relaying toy toy_frost_bincode toy_keygen demo_service_codecs toy_nostr demo_env demo_rng"

lemma relayed_names: "service_vault relayed_env = ''nostr-transport-service-1''" "relay_url relayed_env = ''ws://127.0.0.1:7777''"
  by (simp_all add: relayed_env_def relaying_def Let_def service_vault_def demo_env_def show_nat.simps relay_url_def) code_simp

lemma relayed_setup:
  "service_setup toy toy_frost_bincode toy_keygen demo_service_codecs toy_nostr relayed_env demo_rng
    (service_vault relayed_env) (service_session relayed_env)"
  unfolding relayed_env_def relaying_names
proof (rule relaying_setup)
  show "service_codecs_ok demo_service_codecs"
    using demo_cli_codecs_ok by (simp add: service_codecs_ok_def demo_service_codecs_def cli_codecs_ok_def demo_cli_codecs_def demo_json_ok)
  show "ids_fix_tags toy_nostr" by (simp add: ids_fix_tags_def toy_nostr_def)
  show "is_ok (nip44_encrypt toy_nostr r k pk p)" for r k pk p by (simp add: toy_nostr_def)
qed (simp_all add: toy_nostr_laws toy_frost_setup demo_env_def)

section \<open>Signing\<close>

text \<open>
  Schnorr signing on Shamir shares: the nonce of the signature is the sum of the nonces with
  even representative, and every signer weights its share with its Lagrange weight.
\<close>

definition toy_signing ::
    "(gf, gf, gf \<times> gf \<times> gf, gf, gf, gf, gf set \<times> gf, gf \<times> gf set \<times> gf \<times> bytes, gf \<times> gf, gf) signing_lib" where
  "toy_signing = \<lparr>seed_nonce_rng = (\<lambda>r _ _. r), gen_nonce = (\<lambda>r. r), nonce_public = (\<lambda>k. k), shared_public_key = (\<lambda>X. X),
     coordinator_sign_session = (\<lambda>_ nonces _. Inr (dom nonces, \<Sum>i\<in>dom nonces. the (nonces i))),
     session_parties = fst, session_agg_binonce = snd,
     party_sign_session = (\<lambda>X I R m. (X, I, R, m)),
     party_sign = (\<lambda>(X, I, R, m) (i, s, _) k. Inr (conditional_negate (odd_rep R) k
        + toy_challenge (fst (even_y toy R)) X m * (s * lagrange_weight I i))),
     verify_and_combine = (\<lambda>(I, R) _ shares. Inr (fst (even_y toy R), \<Sum>i\<in>dom shares. the (shares i)))\<rparr>"

text \<open>A map by distinct keys: its domain, and sums over it.\<close>

lemma sum_map_of:
  fixes f :: "nat \<Rightarrow> 'a" and g :: "nat \<Rightarrow> 'b::comm_monoid_add"
  assumes "inj_on f {..<m}"
  defines "M \<equiv> map_of (map (\<lambda>j. (f j, g j)) [0..<m])"
  shows "dom M = f ` {..<m}" "(\<Sum>x\<in>dom M. the (M x)) = (\<Sum>j<m. g j)"
proof -
  show d: "dom M = f ` {..<m}" by (auto simp: M_def dom_map_of_conv_image_fst image_image atLeast0LessThan)
  have "M (f j) = Some (g j)" if "j < m" for j
    unfolding M_def using assms(1) that by (intro map_of_is_SomeI) (auto simp: o_def distinct_map atLeast0LessThan)
  then show "(\<Sum>x\<in>dom M. the (M x)) = (\<Sum>j<m. g j)" unfolding d by (simp add: sum.reindex [OF assms(1)])
qed

text \<open>Enough evaluations of a polynomial, weighted, give its constant coefficient.\<close>

lemma lagrange_shamir:
  assumes "finite S" "length p \<le> card S" "S \<noteq> {}"
  shows "(\<Sum>x\<in>S. shamir_eval p x * lagrange_weight S x) = shamir_eval p 0"
proof -
  have "shamir_eval p x = (\<Sum>d<length p. p ! d * x ^ d)" for x
    by (induction p) (simp_all add: shamir_eval_def sum.lessThan_Suc_shift sum_distrib_left mult_ac del: sum.lessThan_Suc)
  moreover have "lagrange_sum S (\<lambda>x. \<Sum>d<length p. p ! d * x ^ d) = (\<Sum>d<length p. p ! d * 0 ^ d)"
    unfolding lagrange_sum_linear using assms(1,2) by (intro sum.cong) (auto simp: lagrange_sum_power power_0_left)
  ultimately show ?thesis by (simp only: lagrange_sum_def)
qed

lemma lagrange_shamir_sum:
  assumes "finite S" "S \<noteq> {}" "\<And>p. p \<in> set ps \<Longrightarrow> length p \<le> card S"
  shows "(\<Sum>x\<in>S. (\<Sum>p\<leftarrow>ps. shamir_eval p x) * lagrange_weight S x) = (\<Sum>p\<leftarrow>ps. shamir_eval p 0)"
  using assms(3) by (induction ps) (simp_all add: distrib_right sum.distrib lagrange_shamir [OF assms(1) _ assms(2)])

text \<open>The key and the shares of an honest run, negated alike when the key is odd.\<close>

lemma toy_final_shares:
  assumes n: "n \<le> 65535" and h: "honest_keygen toy_keygen t n rng ag ps" and nz: "keygen_nonzero toy_keygen t n rng"
  defines "A \<equiv> \<lambda>x. \<Sum>p\<leftarrow>ag. shamir_eval p x"
  shows "ag = toy_inputs t n rng" "A 0 \<noteq> 0" "final_key toy_keygen ag = conditional_negate (odd_rep (A 0)) (A 0)"
    "i \<in> {1..n} \<Longrightarrow> final_share toy_keygen ps i
       = (of_nat i, conditional_negate (odd_rep (A 0)) (A (of_nat i)), final_key toy_keygen ag)"
proof -
  have hh: "ag = toy_inputs t n rng" "\<And>i. i \<in> {1..n} \<Longrightarrow> ps i = (of_nat i, A (of_nat i), A 0)"
    using toy_honest_iff [OF n, of t rng ag ps] h by (auto simp: A_def)
  show "ag = toy_inputs t n rng" by (rule hh)
  have "key_non_zero toy_keygen (agg_shared_key toy_keygen ag) \<noteq> None" "\<And>i. i \<in> {1..n} \<Longrightarrow> share_non_zero toy_keygen (ps i) \<noteq> None"
    using nz h by (auto simp: keygen_nonzero_def)
  then have "share_non_zero toy_keygen (of_nat i, A (of_nat i), A 0) \<noteq> None" if "i \<in> {1..n}" for i using hh(2) [OF that] that by metis
  then have s: "A (of_nat i) \<noteq> 0" if "i \<in> {1..n}" for i using that by (fastforce simp: toy_keygen_def)
  show k: "A 0 \<noteq> 0" using nz h by (auto simp: keygen_nonzero_def toy_keygen_def A_def split: if_splits)
  show key: "final_key toy_keygen ag = conditional_negate (odd_rep (A 0)) (A 0)"
    using k by (simp add: final_key_def toy_keygen_def A_def conditional_negate_def)
  show "final_share toy_keygen ps i = (of_nat i, conditional_negate (odd_rep (A 0)) (A (of_nat i)), final_key toy_keygen ag)"
    if "i \<in> {1..n}"
    using hh(2) [OF that] s [OF that] unfolding key by (simp add: final_share_def toy_keygen_def even_share_def conditional_negate_def)
qed

lemma gf_of_nat_inj: "inj_on ix {..<m} \<Longrightarrow> ix ` {..<m} \<subseteq> {1..n} \<Longrightarrow> n \<le> 65535 \<Longrightarrow> inj_on (\<lambda>j. of_nat (ix j) :: gf) {..<m}"
proof (rule inj_onI)
  fix a b assume ix: "inj_on ix {..<m}" "ix ` {..<m} \<subseteq> {1..n}" "n \<le> 65535" and ab: "a \<in> {..<m}" "b \<in> {..<m}"
    and eq: "(of_nat (ix a) :: gf) = of_nat (ix b)"
  have "gf_rep (of_nat (ix c)) = int (ix c)" if "c \<in> {..<m}" for c
  proof -
    have "ix c \<le> 65535" using ix(2,3) that by fastforce
    then show ?thesis using gf_rep_of_int [of "int (ix c)"] by simp
  qed
  then have "ix a = ix b" using ab eq by (metis of_nat_eq_iff)
  with ix(1) ab show "a = b" by (auto dest: inj_onD)
qed

lemma toy_signing_laws: "signing_laws toy toy_keygen toy_signing (\<lambda>_ ks _. sum_list ks = 0)"
  unfolding signing_laws_def
proof (intro allI impI, elim conjE)
  fix t :: u32 and n rng ag ps m ix msg and nk :: "nat \<Rightarrow> gf"
  assume t: "0 < t" "unat t \<le> m" and n: "n \<le> 65535" and h: "honest_keygen toy_keygen t n rng ag ps"
    and nz: "keygen_nonzero toy_keygen t n rng" and ix: "inj_on ix {..<m}" "ix ` {..<m} \<subseteq> {1..n}"
    and good: "sum_list (map nk [0..<m]) \<noteq> 0"
  note f = toy_final_shares [OF n h nz]
  define A neg where "A = (\<lambda>x. \<Sum>p\<leftarrow>ag. shamir_eval p x)" and "neg = odd_rep (A 0)"
  define R X where "R = (\<Sum>j<m. nk j)" and "X = final_key toy_keygen ag"
  let ?I = "\<lambda>j. of_nat (ix j) :: gf" and ?e = "toy_challenge (fst (even_y toy R)) X msg"
  let ?S = "?I ` {..<m}"
  note inj = gf_of_nat_inj [OF ix n]
  have m: "0 < m" using t by (simp add: word_less_nat_alt)
  have "(\<Sum>x\<in>?S. A x * lagrange_weight ?S x) = A 0"
    unfolding A_def by (rule lagrange_shamir_sum) (use m t card_image [OF inj] f(1) in \<open>auto simp: toy_inputs_def\<close>)
  then have "(\<Sum>j<m. A (?I j) * lagrange_weight ?S (?I j)) = A 0" by (simp add: sum.reindex [OF inj])
  then have lag: "(\<Sum>j<m. conditional_negate neg (A (?I j)) * lagrange_weight ?S (?I j)) = X"
    using f(3) by (simp add: X_def neg_def A_def conditional_negate_def sum_negf)
  define z where "z j = conditional_negate (odd_rep R) (nk j) + ?e * (conditional_negate neg (A (?I j)) * lagrange_weight ?S (?I j))" for j
  have z: "(\<Sum>j<m. z j) = fst (even_y toy R) + ?e * X"
    unfolding z_def sum.distrib sum_distrib_left [symmetric] lag by (simp add: R_def conditional_negate_def sum_negf)
  have "frost_round toy_signing X m ix (\<lambda>j. final_share toy_keygen ps (ix j)) nk msg (?S, R) z"
    using f(4) ix(2) sum_map_of [OF inj, of nk] unfolding frost_round_def
    by (auto simp: toy_signing_def z_def R_def X_def A_def neg_def image_subset_iff)
  moreover have "verify_and_combine toy_signing (?S, R) X (map_of (map (\<lambda>j. (?I j, z j)) [0..<m])) = Inr (fst (even_y toy R), \<Sum>j<m. z j)"
    using sum_map_of [OF inj, of z] by (simp add: toy_signing_def)
  moreover have "from_xonly_bytes toy (key_xonly_bytes toy_keygen X) = Some X"
    using f(2,3) odd_rep_minus [of "A 0"]
    by (auto simp: toy_keygen_def X_def A_def conditional_negate_def from_to_base_gf of_int_gf_rep Let_def)
  moreover have "schnorr_verify toy X msg (fst (even_y toy R), \<Sum>j<m. z j)" unfolding z by simp
  ultimately show "\<exists>cs z. frost_round toy_signing (final_key toy_keygen ag) m ix (\<lambda>j. final_share toy_keygen ps (ix j)) nk msg cs z
      \<and> (\<exists>X sig. verify_and_combine toy_signing cs (final_key toy_keygen ag) (map_of (map (\<lambda>j. (of_nat (ix j), z j)) [0..<m])) = Inr sig
           \<and> from_xonly_bytes toy (key_xonly_bytes toy_keygen (final_key toy_keygen ag)) = Some X \<and> schnorr_verify toy X msg sig)"
    unfolding X_def by blast
qed

lemma toy_signing_codecs: "signing_codecs_ok toy toy_frost_bincode"
  by (simp add: signing_codecs_ok_def toy_frost_bincode_def codec_of_ok [OF f_gf_ok])

lemma toy_key_text: "key_text_ok toy_btc toy_keygen"
proof -
  have "of_char (char_of (unat w)) = w" for w :: u8
  proof -
    have "unat w < 256" using unsigned_less [of w] by simp
    then have "(of_char (char_of (unat w)) :: nat) = unat w" by (simp add: of_char_of)
    then show ?thesis using of_nat_of_char [of "char_of (unat w)", where 'a = u8] by simp
  qed
  then have "map (\<lambda>w. of_char (char_of (unat w))) b = b" for b :: bytes by (intro map_idI)
  then show ?thesis by (simp add: key_text_ok_def toy_keygen_def toy_btc_def o_def)
qed

text \<open>Every signer draws its position plus one: the nonces of at most three signers do not cancel.\<close>

lemma demo_nonces_usable:
  "nonces_usable K toy_signing (\<lambda>_ ks _. sum_list ks = 0) t n rng sid demo_rng [x, y] digest"
proof -
  have "map f [0..<length [x, y]] = [f 0, f 1]" for f :: "nat \<Rightarrow> gf" by simp
  then show ?thesis by (simp only: nonces_usable_def) (simp add: drawn_nonce_def toy_signing_def demo_rng_def gf_numeral_neq_0)
qed

end
