(* ===== verification/Spec2Isabelle.thy ===== *)
theory Spec2Isabelle
  imports Frost_Instances
begin

text \<open>
  Verification of dkgkit, a Rust toolkit for distributed key generation and threshold
  signing (Cargo workspace under \<open>src/crates\<close>). This theory states the properties;
  the theories it imports hold the model and the lemmas.

  \<^bold>\<open>The program.\<close> \<open>dkgkit-core\<close> has identifiers, threshold policies and the message
  envelope. \<open>dkgkit-frost\<close> has the cryptographic protocols: policies over signer sets,
  Birkhoff interpolation, hierarchical threshold secret sharing (HTSS) with local and
  distributed key generation, resharing and threshold signing, plain and for a tweaked
  Taproot output key, and sessions around the FROST implementation of the external crate
  \<open>schnorr_fun\<close>. \<open>dkgkit-transport\<close> has the transport trait and an in-memory transport,
  \<open>dkgkit-nostr\<close> transports over Nostr events, local and over live relays. \<open>dkgkit-sdk\<close>
  coordinates sessions over a transport. \<open>dkgkit-bitcoin\<close> derives addresses and the key
  tweaks to spend from them. The programs under \<open>examples\<close> put them together: a vault
  service, a key generation over local Nostr events, one over live relays, message signing.

  \<^bold>\<open>The theories.\<close>
  \<^item> \<open>Prelude\<close>: \<open>u8\<close> to \<open>u64\<close> as words, \<open>Result\<close> as a sum with \<open>rbind\<close> for \<open>?\<close>,
    \<open>collect\<close> and loops with early return, formatting, the lemmas on them (loop invariants,
    duplicate checks, sums).
  \<^item> \<open>Core_Types\<close>: \<open>core/src/lib.rs\<close> up to \<open>SessionManifest\<close>; every constructor with the
    exact set of arguments it accepts; the locale \<open>ranked_config\<close> for rank lookup.
  \<^item> \<open>Core_Messages\<close>: message kinds, \<open>ProtocolMessage\<close>, delivery, JSON.
  \<^item> \<open>Secp\<close>: the interface of \<open>secp256kfun\<close>/\<open>schnorr_fun\<close> as a record of functions with
    its documented laws (\<open>secp_laws\<close>, \<open>big_characteristic\<close>), and the scalar helpers.
  \<^item> \<open>Linear_Solver\<close>: \<open>solve_scalar_system\<close> step by step (pivot search, swap, scaling,
    elimination) with the contract \<open>linear_solver\<close>: it returns the one solution, or an
    error exactly when there is a kernel.
  \<^item> \<open>Scalar_Poly\<close>: derivative bases and derivative values, equal to formal derivatives.
  \<^item> \<open>Signer_Sets\<close>: the validators of signer sets, equal to their policies.
  \<^item> \<open>Birkhoff\<close>: interpolation points, matrix, coefficients; they interpolate, are refused
    exactly for dependent conditions, and are the Lagrange weights for flat points.
  \<^item> \<open>Htss_Keys\<close>: dealing, reconstruction, resharing, signing with the reconstructed
    secret. \<open>htss_dealt\<close> is the invariant of key material: one polynomial, every share a
    derivative value of it, the group key that of its constant coefficient.
  \<^item> \<open>Htss_Dkg\<close>: the two rounds and the finalisation of distributed key generation;
    \<open>finalize_opened_iff\<close> says when a participant finishes and with what, on any packages.
  \<^item> \<open>Htss_Signing\<close>: nonces, shares, aggregation, output-key variants, local signers; the
    locale \<open>signer_package_set\<close> is the contract of both set validators.
  \<^item> \<open>Packages\<close>: packages and signing requests; the locale \<open>package_message\<close> is the
    contract of the eight pairs of \<open>to_protocol_message\<close>/\<open>from_protocol_message\<close>.
  \<^item> \<open>Frost_Sessions\<close>: \<open>FrostDkgSession\<close> and \<open>FrostSigningSession\<close>; their \<open>RefCell\<close>s are
    explicit state, panics are results. Which round 1 and nonce sets are accepted, exactly;
    the calls on a signing session as the inductive relation \<open>signing_run\<close>.
  \<^item> \<open>Transport\<close>: the trait as a record of operations, the in-memory transport; the locales
    \<open>drain_queue\<close> and \<open>message_queue\<close> are the contract the coordinator relies on.
  \<^item> \<open>Nostr\<close>: UTF-8 checking, envelopes and their validation, the local event transport,
    which interprets \<open>message_queue\<close> for the messages it can carry, and how it fails.
  \<^item> \<open>Live\<close>: events and tags, encryption, the handler of inbound events, the relay thread as
    a loop over its inputs, the transport operations; \<open>live_run\<close> interleaves them with the
    threads of all connects, those that timed out included.
  \<^item> \<open>Sdk\<close>: session builder, HTSS service, coordinator, local FROST runs; what a coordinator
    delivers is proved inside the locales of \<open>Transport\<close>.
  \<^item> \<open>Bitcoin\<close>: authorisation messages, addresses, BIP32 children, the BIP341 and silent
    payment tweaks (\<open>spends\<close>: the output key is \<open>A P + B G\<close>), verification, transactions.
  \<^item> \<open>Vault\<close>: the vault service, its methods as functions from vault to vault and result; the
    loop rule \<open>sfor_invariant\<close> and the three loops of the key generation.
  \<^item> \<open>Frost_Agreement\<close>: FROST sessions of one round 1 set end with one key, because the
    ordered map forgets the order of arrival; what local runs return; \<open>dkg_run\<close>, the sessions
    calls can reach, and that they are well formed.
  \<^item> \<open>Frost_Honest\<close>: the contract \<open>keygen_laws\<close> of the key generation library, whatever the
    order of the packages, and the honest run: every call of the three phases with its result.
  \<^item> \<open>Frost_Signing\<close>: the contract \<open>signing_laws\<close> of the signing library, and the calls of a
    signing session for shares of an honest key generation, up to the verified signature.
  \<^item> \<open>Examples\<close>: \<open>nostr-dkg-cli\<close>, \<open>bitcoin-message-signing\<close> and the \<open>main\<close> of the vault
    service as functions to what they print; they succeed (\<open>cli_main_succeeds\<close>,
    \<open>message_signing_succeeds\<close>, \<open>vault_main_succeeds\<close>).
  \<^item> \<open>Live_Service\<close>: \<open>nostr-transport-service\<close> with its polling loop; time and the relay are
    the argument \<open>relay_env\<close>. It ends when the clock advances (\<open>poll_ends\<close>: a wait of 20 s
    drains at most 201 times), and its devices cannot disagree on the key unless they
    collected different round 1 packages (\<open>service_never_differs\<close>).
  \<^item> \<open>Live_Complete\<close>: the service completes over a relay that works (\<open>relay_works\<close>: answers
    come, and each wait gets the events of the other devices, in any order and portions,
    before its deadline; the own events are not echoed, as the code says); such a relay exists.
  \<^item> \<open>Reference_Group\<close>: a concrete instance of the group interface (integers modulo 65537)
    and a small policy; \<open>Instances\<close> and \<open>Frost_Instances\<close>: instances of the other library
    parameters. The hypotheses of the properties are discharged on them.

  \<^bold>\<open>Correspondence.\<close> A Rust struct \<open>T\<close> is a record with prefixed fields, \<open>T::new\<close> is
  \<open>T_new\<close>; other functions keep their names. Loop bodies and closures are definitions of
  their own where a lemma speaks of them. \<open>BTreeSet\<close> is a set, a \<open>BTreeMap\<close> collected from
  an iterator is \<open>map_of\<close> of the reversed pairs. Every error carries the text of the code.
  Conversions \<open>as u16\<close> truncate and additions of \<open>u16\<close> wrap, as in a release build; the
  lemmas show where they cannot. A call's random draws are an argument of its definition.
  Points and scalars live in arbitrary types with the operations the code uses; \<open>normalize\<close>,
  \<open>public\<close> and \<open>mark_zero\<close> only change Rust types. No definition needs fuel: every loop of
  the crates runs over a list or a range. The one loop that may run forever, the polling loop
  of the live service, is a partial function with \<open>None\<close> for a run that does not end.

  A method with \<open>&mut self\<close> returns the object it leaves behind, on errors too. Panics and
  arithmetic overflow of a checked build are values where the code can reach them.

  \<^bold>\<open>Parameters.\<close> Not part of the repository, hence arguments with named laws: the group and
  Schnorr functions (\<open>secp_laws\<close>), \<open>serde_json\<close> and \<open>bincode\<close> with the derived serialisers
  (\<open>codec_ok\<close>, \<open>json_ok\<close>: writing succeeds, gives UTF-8 and reads back), \<open>schnorr_fun\<close>'s
  key generation (\<open>keygen_laws\<close> for honest runs, none for agreement) and signing sessions
  (\<open>signing_laws\<close> for honest rounds, except for nonces that cancel; none for soundness),
  \<open>nostr-sdk\<close> (\<open>nostr_laws\<close>: NIP-44 round trip, tags of built events; \<open>subscription_laws\<close>:
  a relay applies a hashtag filter), the \<open>bitcoin\<close> and \<open>secp256k1\<close> crates (\<open>btc_laws\<close>: the
  curve is the same, BIP32, BIP341 and BIP340 are as specified; \<open>tx_laws\<close>). What the relay
  thread answers in time is an argument of the live transport's operations.

  \<^bold>\<open>Not modelled.\<close> Scheduling and time: the order of the relay threads' inputs is given, and
  the join of a disconnect is taken to return; the pause of the live service before its first
  publication is left out. Printing (a program returns what
  it prints), \<open>Debug\<close> output, \<open>Drop\<close>, accessors that return a field, and the tests. Secrecy
  is not a statement of this development: the properties are about correctness and about
  what a participant can be made to accept.
\<close>

section \<open>HTSS threshold signing\<close>

text \<open>
  C1. An HTSS signing round works. Take key shares dealt from one polynomial, a signer
  set accepted by the rank rule with a regular interpolation system, and one nonce per
  signer drawn by \<open>htss_nonce\<close>, the nonce packages arriving in any order. Then
  \<open>htss_sign_share\<close> returns a share for every signer, and whatever order those shares
  arrive in, \<open>aggregate_htss_signature_shares\<close> returns a signature that verifies under
  the group key.
\<close>

theorem htss_threshold_signing:
  fixes C :: "('f::field, 'p::ab_group_add) secp"
  assumes "secp_laws C" and "hc_wf c" and "htss_dealt C c p ks" and "regular_quorum C c signers"
    and "\<forall>x\<in>set signers. ls x \<in> set (ks_shares ks) \<and> hs_participant_id (ls x) = x"
    and "\<forall>x\<in>set signers. k x \<noteq> 0 \<and> htss_nonce C (k x) sid (ls x) = Inr (lno x)"
    and "(\<Sum>x\<leftarrow>signers. k x) \<noteq> 0"
    and "mset ns = mset (map (\<lambda>x. hln_package (lno x)) signers)"
  shows "\<exists>sh. collect (\<lambda>x. htss_sign_share C (ks_group_key ks) digest (ls x) (lno x) ns signers c) signers = Inr sh
    \<and> (\<forall>sh'. mset sh' = mset sh \<longrightarrow>
        (\<exists>sig. aggregate_htss_signature_shares C (ks_group_key ks) digest ns sh' signers c = Inr sig
           \<and> valid_signature C (gk_xonly_public_key (ks_group_key ks)) digest sig))"
proof -
  have "distinct signers" using regular_quorum_quorum [OF assms(2,4)] by (simp add: hierarchical_quorum_def)
  then have "honest_round C c p sid k signers ns ls lno"
    using assms by (intro honest_round_of_nonces) blast+
  with assms show ?thesis by (intro htss_signing_round)
qed

theorem htss_threshold_signing_witness:
  "\<exists>sh. collect (\<lambda>x. htss_sign_share toy (ks_group_key demo_keys) [7] (share_of demo_keys x) (demo_nonce x)
        (map (\<lambda>x. hln_package (demo_nonce x)) (rev demo_signers)) demo_signers demo_config) demo_signers = Inr sh
    \<and> (\<exists>sig. aggregate_htss_signature_shares toy (ks_group_key demo_keys) [7]
          (map (\<lambda>x. hln_package (demo_nonce x)) (rev demo_signers)) (rev sh) demo_signers demo_config = Inr sig
        \<and> valid_signature toy (gk_xonly_public_key (ks_group_key demo_keys)) [7] sig)"
  using htss_threshold_signing [OF toy_laws demo_wf demo_dealt demo_regular, where ls = "share_of demo_keys"
      and k = "\<lambda>_. 3" and sid = demo_session and lno = demo_nonce and digest = "[7]"
      and ns = "map (\<lambda>x. hln_package (demo_nonce x)) (rev demo_signers)"]
  by (simp add: demo_share_of demo_nonce_eq gf_numeral_neq_0 add_mset_commute) (metis mset_rev)

section \<open>Distributed key generation\<close>

text \<open>
  C2. Participants that follow the key generation agree. When every participant draws
  non-zero coefficients, \<open>run_distributed_htss_keygen\<close> fails only if the drawn secrets
  cancel out, with the error for a zero group key. Otherwise it returns a key set dealt
  from the sum of the drawn polynomials, negated when the sum's public key has an odd
  y-coordinate.
\<close>

theorem distributed_keygen_deals:
  assumes "secp_laws C" and "hc_wf c" and "\<forall>k j. rnd k j \<noteq> 0"
  defines "s \<equiv> map (\<lambda>j. \<Sum>k<length (hc_participants c). rnd k j) [0..<unat (hc_threshold c)]"
  shows "if s ! 0 = 0
    then run_distributed_htss_keygen C rnd c = Inl (Protocol ''HTSS DKG group key cannot be zero'')
    else \<exists>ks. run_distributed_htss_keygen C rnd c = Inr ks \<and> htss_dealt C c (normal_poly C s) ks"
  using run_distributed_htss_keygen_dealt [OF assms(1,2), of rnd] assms(3) unfolding s_def by auto

theorem distributed_keygen_deals_witness:
  "\<exists>ks. run_distributed_htss_keygen toy (\<lambda>k j. 2) demo_config = Inr ks \<and> htss_dealt toy demo_config (normal_poly toy [6, 6]) ks"
proof -
  have "map (\<lambda>j. \<Sum>k<3::nat. 2 :: gf) [0..<2] = [6, 6]" by (simp add: numeral_2_eq_2)
  with distributed_keygen_deals [OF toy_laws demo_wf, of "\<lambda>k j. 2"] show ?thesis
    by (simp add: gf_numeral_neq_0)
qed

text \<open>
  C3. Agreement without honesty. Whatever round 1 packages are on the table, there is
  one polynomial such that every participant that finishes on them, whatever round 2
  packages it was sent, holds exactly its own derivative share of that polynomial and
  the group key of its constant coefficient: nobody can be handed a share of another
  key.
\<close>

theorem dkg_agreement:
  fixes C :: "('f::field, 'p::ab_group_add) secp"
  assumes "secp_laws C" and "hc_wf c"
  shows "\<exists>p. length p = unat (hc_threshold c)
    \<and> (\<forall>i r2 out. finalize_htss_dkg C i r1 r2 c = Inr out \<longrightarrow> p ! 0 \<noteq> 0
        \<and> \<not> snd (even_y C (g_mul C (p ! 0) (base_point C)))
        \<and> (\<exists>rank. hc_rank_of c i = Some rank \<and> out =
             (\<lparr>gk_xonly_public_key = to_xonly_bytes C (g_mul C (p ! 0) (base_point C)), gk_verification_key_bytes = []\<rparr>,
              \<lparr>hs_participant_id = i, hs_rank = rank_val rank, hs_share_value_bytes =
                 scalar_to_bytes C (polynomial_derivative_value p (pid_val i) (rank_val rank))\<rparr>)))"
  using finalize_agreement [OF assms, of r1] by (simp add: dkg_output_def deal_share_def)

theorem dkg_agreement_witness:
  "\<exists>a b. finalize_htss_dkg toy (ParticipantId 1) (honest_round1 toy demo_config (\<lambda>_. [3, 5]))
        (map (\<lambda>q. honest_package toy [3, 5] q (hc_participants demo_config ! 0)) (hc_participants demo_config)) demo_config = Inr a
    \<and> finalize_htss_dkg toy (ParticipantId 2) (honest_round1 toy demo_config (\<lambda>_. [3, 5]))
        (map (\<lambda>q. honest_package toy [3, 5] q (hc_participants demo_config ! 1)) (hc_participants demo_config)) demo_config = Inr b
    \<and> gk_xonly_public_key (fst a) = gk_xonly_public_key (fst b)"
proof -
  let ?A = "\<lambda>_ :: ParticipantId. [3, 5 :: gf]" and ?q = "\<lambda>j. hc_participants demo_config ! j"
  let ?fin = "\<lambda>j. finalize_htss_dkg toy (rp_id (?q j)) (honest_round1 toy demo_config ?A)
    (map (\<lambda>q. honest_package toy [3, 5] q (?q j)) (hc_participants demo_config)) demo_config"
  have "dkg_sum demo_config ?A ! 0 = (9 :: gf)" by (simp add: dkg_sum_def) (simp add: demo_config_def)
  then have "dkg_sum demo_config ?A ! 0 \<noteq> (0 :: gf)" by (simp add: gf_numeral_neq_0)
  then have fin: "\<exists>out. ?fin j = Inr out" if "j < 3" for j
    using finalize_honest [OF toy_laws demo_wf _ refl, where A = ?A and p = "?q j"] that
    by (simp add: gf_numeral_neq_0)
  from fin [of 0] fin [of 1] obtain a b where ab: "?fin 0 = Inr a" "?fin 1 = Inr b" by auto
  from dkg_agreement [OF toy_laws demo_wf, of "honest_round1 toy demo_config ?A"] obtain p :: "gf list"
    where p: "\<And>i r2 out. finalize_htss_dkg toy i (honest_round1 toy demo_config ?A) r2 demo_config = Inr out \<Longrightarrow>
      gk_xonly_public_key (fst out) = to_xonly_bytes toy (g_mul toy (p ! 0) (base_point toy))"
    by (fastforce simp del: toy_simps)
  from p [OF ab(1)] p [OF ab(2)] ab show ?thesis by (auto simp: demo_config_def)
qed

text \<open>
  C4. The check of a derivative share is exact. Against commitments to the coefficients
  \<open>a\<close>, \<open>verify_htss_dkg_derivative_share\<close> accepts a share from the right sender if and
  only if it is the derivative value of \<open>a\<close> at the recipient: every other share is
  rejected.
\<close>

theorem derivative_share_check_exact:
  assumes "secp_laws C"
    and "hd1_commitment_bytes r1 = map (\<lambda>x. point_to_bytes C (g_mul C x (base_point C))) a"
    and "\<forall>x\<in>set a. x \<noteq> 0" and "length a \<le> 65535"
  shows "verify_htss_dkg_derivative_share C pkg r1 = Inr () \<longleftrightarrow> hd2_sender pkg = hd1_participant_id r1
    \<and> scalar_from_bytes C (hd2_share_value_bytes pkg)
        = Some (polynomial_derivative_value a (pid_val (hd2_recipient pkg)) (hd2_recipient_rank pkg))"
  using assms by (rule verify_derivative_share_iff)

theorem derivative_share_check_exact_witness:
  "\<exists>e. verify_htss_dkg_derivative_share toy
      \<lparr>hd2_sender = ParticipantId 1, hd2_recipient = ParticipantId 2, hd2_recipient_rank = 1,
       hd2_share_value_bytes = to_base 32 6\<rparr>
      \<lparr>hd1_participant_id = ParticipantId 1, hd1_rank = 0,
       hd1_commitment_bytes = map toy_point_bytes [3, 5]\<rparr> = Inl e"
  (is "\<exists>e. verify_htss_dkg_derivative_share toy ?pkg ?r1 = Inl e")
proof -
  have v: "polynomial_derivative_value [3, 5] 2 1 = (5 :: gf)"
    by (simp add: polynomial_derivative_value_eq dbasis_def lessThan_Suc)
  have nz: "\<forall>x\<in>set [3, 5 :: gf]. x \<noteq> 0" by (simp add: gf_numeral_neq_0)
  have cb: "hd1_commitment_bytes ?r1 = map (\<lambda>x. point_to_bytes toy (g_mul toy x (base_point toy))) [3, 5]" by simp
  have len: "length [3, 5 :: gf] \<le> 65535" by simp
  have "scalar_from_bytes toy (to_base 32 6) = Some 6" by (simp add: from_to_base Let_def)
  moreover have "(6 :: gf) \<noteq> 5" by (simp add: gf_numeral_eq_iff)
  ultimately have "scalar_from_bytes toy (hd2_share_value_bytes ?pkg)
      \<noteq> Some (polynomial_derivative_value [3, 5] (pid_val (hd2_recipient ?pkg)) (hd2_recipient_rank ?pkg))"
    unfolding HtssDkgRound2Package.select_convs ParticipantId.sel v by simp
  then show ?thesis
    using derivative_share_check_exact [OF toy_laws cb nz len, of ?pkg] by (intro not_Inr_unit) blast
qed

section \<open>Reconstruction, resharing, output keys\<close>

text \<open>
  C5. Every regular quorum reconstructs the same secret: the constant coefficient of the
  dealt polynomial.
\<close>

theorem reconstruct_any_quorum:
  assumes "secp_laws C" and "hc_wf c" and "htss_dealt C c p ks" and "regular_quorum C c signers"
  shows "reconstruct_htss_secret_scalar C (ks_shares ks) signers c = Inr (scalar_to_bytes C (p ! 0))"
  using assms reconstruct_dealt [OF assms(1-3)] by (auto elim: regular_quorumE)

theorem reconstruct_any_quorum_witness:
  "reconstruct_htss_secret_scalar toy (ks_shares demo_keys) demo_signers demo_config = Inr (to_base 32 4)"
  using reconstruct_any_quorum [OF toy_laws demo_wf demo_dealt demo_regular] by simp

text \<open>
  C6. Signing for a tweaked output key works. With \<open>Q = A P + B G\<close>, where \<open>A\<close> is \<open>- 1\<close> or
  \<open>1\<close> as \<open>negate_key\<close> says, the shares made by \<open>htss_sign_share_for_output\<close> aggregate, in
  any order, to a signature that verifies under \<open>Q\<close>.
\<close>

theorem htss_output_signing:
  fixes C :: "('f::field, 'p::ab_group_add) secp"
  assumes "secp_laws C" and "hc_wf c" and "htss_dealt C c p ks" and "regular_quorum C c signers"
    and "\<forall>x\<in>set signers. ls x \<in> set (ks_shares ks) \<and> hs_participant_id (ls x) = x"
    and "\<forall>x\<in>set signers. k x \<noteq> 0 \<and> htss_nonce C (k x) sid (ls x) = Inr (lno x)"
    and "(\<Sum>x\<leftarrow>signers. k x) \<noteq> 0"
    and "mset ns = mset (map (\<lambda>x. hln_package (lno x)) signers)"
    and "scalar_from_bytes C tweak = Some b"
    and "from_xonly_bytes C out = Some ((if negate_key then - g_mul C (p ! 0) (base_point C)
           else g_mul C (p ! 0) (base_point C)) + g_mul C b (base_point C))"
  shows "\<exists>sh. collect (\<lambda>x. htss_sign_share_for_output C (ks_group_key ks) digest out negate_key (ls x) (lno x) ns signers c)
        signers = Inr sh
    \<and> (\<forall>sh'. mset sh' = mset sh \<longrightarrow>
        (\<exists>sig. aggregate_htss_signature_shares_for_output C digest out tweak ns sh' signers c = Inr sig
           \<and> valid_signature C out digest sig))"
proof -
  have "distinct signers" using regular_quorum_quorum [OF assms(2,4)] by (simp add: hierarchical_quorum_def)
  then have "honest_round C c p sid k signers ns ls lno"
    using assms by (intro honest_round_of_nonces) blast+
  moreover have "from_xonly_bytes C out = Some (g_mul C (conditional_negate negate_key (p ! 0) + b) (base_point C))"
    using assms(10) secp_lawsD(2) [OF assms(1)] by (cases negate_key) (simp_all add: g_mul_add g_mul_diff)
  ultimately show ?thesis using assms by (intro htss_signing_round_for_output)
qed

theorem htss_output_signing_witness:
  "\<exists>sh. collect (\<lambda>x. htss_sign_share_for_output toy (ks_group_key demo_keys) [7] (to_base 32 6) True
        (share_of demo_keys x) (demo_nonce x) (map (\<lambda>x. hln_package (demo_nonce x)) demo_signers) demo_signers demo_config)
        demo_signers = Inr sh
    \<and> (\<exists>sig. aggregate_htss_signature_shares_for_output toy [7] (to_base 32 6) (to_base 32 10)
          (map (\<lambda>x. hln_package (demo_nonce x)) demo_signers) sh demo_signers demo_config = Inr sig
        \<and> valid_signature toy (to_base 32 6) [7] sig)"
proof -
  have "from_xonly_bytes toy (to_base 32 6) = Some (- 4 + 10)"
    by (simp add: from_to_base gf_numeral_neq_0 Let_def)
  then show ?thesis
    using htss_output_signing [OF toy_laws demo_wf demo_dealt demo_regular, where ls = "share_of demo_keys"
        and k = "\<lambda>_. 3" and sid = demo_session and lno = demo_nonce and digest = "[7]" and tweak = "to_base 32 10"
        and out = "to_base 32 6" and negate_key = True and b = 10
        and ns = "map (\<lambda>x. hln_package (demo_nonce x)) demo_signers"]
    by (simp add: demo_share_of demo_nonce_eq gf_numeral_neq_0 from_to_base Let_def) blast
qed

text \<open>
  C7. Resharing keeps the key. From shares dealt under the old policy, a regular quorum
  of it moves the same secret to any new policy: \<open>reshare_htss\<close> returns a key set dealt
  under the new policy from a polynomial with the same constant coefficient, and the
  group key is unchanged.
\<close>

theorem reshare_keeps_key:
  assumes "secp_laws C" and "hc_wf old_config" and "hc_wf new_config" and "htss_dealt C old_config p old"
    and "regular_quorum C old_config reconstruct_set"
  shows "\<exists>new q. reshare_htss C rnd old old_config reconstruct_set new_config = Inr new
    \<and> htss_dealt C new_config (p ! 0 # q) new \<and> ks_group_key new = ks_group_key old"
  using assms reshare_htss_dealt [OF assms(1-4)] by (auto elim: regular_quorumE)

theorem reshare_keeps_key_witness:
  "\<exists>new q. reshare_htss toy (\<lambda>i. 11) demo_keys demo_config demo_signers demo_config = Inr new
    \<and> htss_dealt toy demo_config (4 # q) new \<and> ks_group_key new = ks_group_key demo_keys"
  using reshare_keeps_key [OF toy_laws demo_wf demo_wf demo_dealt demo_regular] by simp

text \<open>
  C8. Resharing is safe on any input. Whatever shares and signer set it is given, a
  returned key set has the old group key and is dealt from one polynomial under the new
  policy: wrong shares are an error, never a silent change of key.
\<close>

theorem reshare_never_changes_key:
  assumes "secp_laws C" and "hc_wf new_config"
    and "reshare_htss C rnd old old_config reconstruct_set new_config = Inr new"
  shows "ks_group_key new = ks_group_key old \<and> (\<exists>p. htss_dealt C new_config p new)"
  using assms by (rule reshare_htss_Inr)

theorem reshare_never_changes_key_witness:
  "\<exists>new. reshare_htss toy (\<lambda>i. 11) demo_keys demo_config demo_signers demo_config = Inr new
    \<and> ks_group_key new = ks_group_key demo_keys"
proof -
  from demo_regular obtain points cs where "birkhoff_points_from_hierarchical_signer_set demo_signers demo_config = Inr points"
    and "birkhoff_interpolation_coefficients toy points = Inr cs" by (rule regular_quorumE)
  from reshare_htss_dealt [OF toy_laws demo_wf demo_wf demo_dealt this] obtain new
    where "reshare_htss toy (\<lambda>i. 11) demo_keys demo_config demo_signers demo_config = Inr new" by blast
  with reshare_never_changes_key [OF toy_laws demo_wf this] show ?thesis by blast
qed

section \<open>Interpolation\<close>

text \<open>
  C9. The linear solver is correct: on a square system it returns either the one
  solution, or an error when the matrix has a non-trivial kernel.
\<close>

theorem solver_correct:
  assumes "square_system n m t"
  shows "case solve_scalar_system m t of
      Inr y \<Rightarrow> length y = n \<and> (\<forall>x. (\<forall>i<n. (\<Sum>j<n. m ! i ! j * x j) = t ! i) \<longleftrightarrow> (\<forall>i<n. x i = y ! i))
    | Inl e \<Rightarrow> \<exists>x. (\<exists>i<n. x i \<noteq> 0) \<and> (\<forall>i<n. (\<Sum>j<n. m ! i ! j * x j) = 0)"
  using gj.sound [OF assms] gj.complete [OF assms] by (auto simp: sat_def split: sum.split)

theorem solver_correct_witness:
  "case solve_scalar_system [[1, 0], [1, 1]] [1, 0 :: gf] of
      Inr y \<Rightarrow> length y = 2 \<and> (\<forall>x. (\<forall>i<2. (\<Sum>j<2. [[1, 0], [1, 1 :: gf]] ! i ! j * x j) = [1, 0] ! i) \<longleftrightarrow> (\<forall>i<2. x i = y ! i))
    | Inl e \<Rightarrow> \<exists>x. (\<exists>i<2. x i \<noteq> 0) \<and> (\<forall>i<2. (\<Sum>j<2. [[1, 0], [1, 1 :: gf]] ! i ! j * x j) = 0)"
  by (rule solver_correct) (simp add: square_system_def less_Suc_eq numeral_2_eq_2)

text \<open>
  C10. The Birkhoff coefficients interpolate: when the points are accepted, weighting the
  derivative values of any polynomial with as many coefficients as points gives its
  constant coefficient.
\<close>

theorem birkhoff_coefficients_interpolate:
  assumes "birkhoff_interpolation_coefficients C points = Inr cs" and "length points \<le> 65535"
  shows "\<exists>w. cs = map (coefficient_of C) (zip points w) \<and> length w = length points
    \<and> (\<forall>a. length a \<le> length points \<and> a \<noteq> [] \<longrightarrow>
        (\<Sum>i<length points. w ! i * polynomial_derivative_value a (bp_x (points ! i)) (bp_derivative_order (points ! i)))
          = a ! 0)"
  using birkhoff_coefficients_Inr [OF assms] by (auto simp: interpolates_def)

theorem birkhoff_coefficients_interpolate_witness:
  "\<exists>cs w. birkhoff_interpolation_coefficients toy [signer_point demo_config (ParticipantId 2), signer_point demo_config (ParticipantId 1)]
      = Inr cs \<and> cs = map (coefficient_of toy)
          (zip [signer_point demo_config (ParticipantId 2), signer_point demo_config (ParticipantId 1)] w)"
proof -
  have "\<exists>cs. birkhoff_interpolation_coefficients toy
      [signer_point demo_config (ParticipantId 2), signer_point demo_config (ParticipantId 1)] = Inr cs"
    by (rule two_points_regular) simp_all
  then obtain cs where cs: "birkhoff_interpolation_coefficients toy
      [signer_point demo_config (ParticipantId 2), signer_point demo_config (ParticipantId 1)] = Inr cs" ..
  from birkhoff_coefficients_interpolate [OF cs] cs show ?thesis by auto
qed

text \<open>
  C11. The coefficients are refused exactly when the derivative conditions of the points
  are linearly dependent.
\<close>

theorem birkhoff_error_iff_dependent:
  fixes C :: "('f::field, 'p) secp"
  assumes "points \<noteq> []" and "length points \<le> 65535"
  shows "(\<exists>e. birkhoff_interpolation_coefficients C points = Inl e) \<longleftrightarrow>
    (\<exists>x :: nat \<Rightarrow> 'f. dependent_conditions points x)"
  using assms by (rule birkhoff_coefficients_Inl_iff)

theorem birkhoff_error_iff_dependent_witness:
  "\<exists>e. birkhoff_interpolation_coefficients toy [signer_point demo_config (ParticipantId 2)] = Inl e"
proof -
  have "dependent_conditions [signer_point demo_config (ParticipantId 2)] (\<lambda>_. 1 :: gf)"
    by (simp add: dependent_conditions_def point_basis_def dbasis_def)
  then show ?thesis using birkhoff_error_iff_dependent [of "[signer_point demo_config (ParticipantId 2)]" toy] by auto
qed

text \<open>
  C12. Flat policies get Lagrange coefficients: for points of derivative order 0 with
  distinct x-coordinates the linear system always has its solution, and the coefficients
  are the closed form, the product of \<open>x\<^sub>k / (x\<^sub>k - x\<^sub>i)\<close> over the other points.
\<close>

theorem flat_points_lagrange:
  fixes C :: "('f::field, 'p) secp"
  assumes "big_characteristic TYPE('f)" and "points \<noteq> []" and "length points \<le> 65535"
    and "\<forall>p\<in>set points. bp_derivative_order p = 0" and "distinct (map bp_x points)"
  shows "birkhoff_interpolation_coefficients C points
    = Inr (map (\<lambda>p. coefficient_of C (p, \<Prod>k \<in> (\<lambda>q. of_nat (unat (bp_x q))) ` set points - {of_nat (unat (bp_x p))}.
        k / (k - of_nat (unat (bp_x p))))) points)"
  using flat_coefficients_lagrange [OF assms(1,3,2,4,5), of C]
  by (simp add: zip_map2 zip_same_conv_map lagrange_weight_def)

theorem flat_points_lagrange_witness:
  "birkhoff_interpolation_coefficients toy
     [\<lparr>bp_participant_id = ParticipantId 5, bp_x = 5, bp_derivative_order = 0\<rparr>,
      \<lparr>bp_participant_id = ParticipantId 7, bp_x = 7, bp_derivative_order = 0\<rparr>]
   = Inr [coefficient_of toy (\<lparr>bp_participant_id = ParticipantId 5, bp_x = 5, bp_derivative_order = 0\<rparr>, 7 / (7 - 5)),
      coefficient_of toy (\<lparr>bp_participant_id = ParticipantId 7, bp_x = 7, bp_derivative_order = 0\<rparr>, 5 / (5 - 7))]"
proof -
  have "(5 :: gf) \<noteq> 7" using of_nat_index_inj [OF big_characteristic_gf, of 5 7] by auto
  then have "{5, 7} - {5 :: gf} = {7}" "{5, 7} - {7 :: gf} = {5}" by auto
  then show ?thesis using flat_points_lagrange [OF big_characteristic_gf, of "[\<lparr>bp_participant_id = ParticipantId 5, bp_x = 5, bp_derivative_order = 0\<rparr>,
      \<lparr>bp_participant_id = ParticipantId 7, bp_x = 7, bp_derivative_order = 0\<rparr>]" toy] by simp
qed

text \<open>
  C13. The share a dealer hands out is a derivative value: \<open>polynomial_derivative_value\<close>,
  with its 16-bit degree arithmetic, is the \<open>r\<close>-th formal derivative of the polynomial at
  the participant's coordinate.
\<close>

theorem share_is_formal_derivative:
  assumes "length cs \<le> 65535"
  shows "polynomial_derivative_value cs x r = poly_eval ((poly_deriv ^^ unat r) cs) (of_nat (unat x) :: 'f::field)"
  using assms by (simp add: polynomial_derivative_value_eq poly_eval_deriv_pow)

theorem share_is_formal_derivative_witness:
  "polynomial_derivative_value [1, 2, 3 :: gf] 4 1 = poly_eval (poly_deriv [1, 2, 3]) 4"
  using share_is_formal_derivative [of "[1, 2, 3 :: gf]" 4 1] by simp

section \<open>Policies\<close>

text \<open>
  C14. The hierarchical signer-set rule, exactly: enough distinct known signers with
  identifiers up to the participant count, and for every \<open>i\<close> below the threshold more than
  \<open>i\<close> signers of rank at most \<open>i\<close>. The code sorts the ranks and compares positions.
\<close>

theorem hierarchical_rule_exact:
  assumes "hc_wf c"
  shows "validate_hierarchical_signer_set signers c = Inr () \<longleftrightarrow>
    unat (hc_threshold c) \<le> length signers \<and> distinct signers
    \<and> (\<forall>x\<in>set signers. unat (pid_val x) \<le> length (hc_participants c))
    \<and> set signers \<subseteq> rp_id ` set (hc_participants c)
    \<and> (\<forall>i < unat (hc_threshold c). i < length (filter (\<lambda>x. hc_rank c x \<le> i) signers))"
  using validate_hierarchical_signer_set_iff [OF assms] by (simp add: hierarchical_quorum_def)

theorem hierarchical_rule_exact_witness:
  "validate_hierarchical_signer_set [ParticipantId 2, ParticipantId 3] demo_config \<noteq> Inr ()"
proof -
  have "hc_rank demo_config (ParticipantId 3) = 1" by (simp add: demo_config_def hc_rank_def hc_rank_of_def)
  then have "\<not> 0 < length (filter (\<lambda>x. hc_rank demo_config x \<le> 0) [ParticipantId 2, ParticipantId 3])" by simp
  moreover have "0 < unat (hc_threshold demo_config)" by simp
  ultimately show ?thesis using hierarchical_rule_exact [OF demo_wf, of "[ParticipantId 2, ParticipantId 3]"] by blast
qed

text \<open>
  C15. The grouped signer-set rule, exactly, for configurations built by the validating
  constructors: enough distinct known signers, and of every required rank at least the
  required number. The 16-bit counters of the code do not wrap.
\<close>

theorem grouped_rule_exact:
  assumes "gc_validated c"
  shows "validate_grouped_threshold_signer_set signers c = Inr () \<longleftrightarrow>
    (\<Sum>r\<leftarrow>gc_requirements c. unat (gr_required r)) \<le> length signers \<and> distinct signers
    \<and> (\<forall>x\<in>set signers. unat (pid_val x) \<le> length (gc_participants c))
    \<and> set signers \<subseteq> rp_id ` set (gc_participants c)
    \<and> (\<forall>r\<in>set (gc_requirements c).
         unat (gr_required r) \<le> length (filter (\<lambda>x. gc_rank_of c x = Some (gr_rank r)) signers))"
  using validate_grouped_threshold_signer_set_iff [OF assms] by (simp add: grouped_quorum_def)

definition demo_grouped :: GroupedThresholdConfig where
  "demo_grouped = \<lparr>gc_participants =
     [\<lparr>rp_id = ParticipantId 1, rp_rank = Rank 1, rp_label = None\<rparr>,
      \<lparr>rp_id = ParticipantId 2, rp_rank = Rank 2, rp_label = None\<rparr>],
     gc_requirements = [\<lparr>gr_rank = Rank 1, gr_required = 1, gr_total = 1\<rparr>, \<lparr>gr_rank = Rank 2, gr_required = 1, gr_total = 1\<rparr>]\<rparr>"

lemma demo_grouped_validated: "gc_validated demo_grouped"
  by (simp add: gc_validated_def gc_wf_def demo_grouped_def)

theorem grouped_rule_exact_witness:
  "validate_grouped_threshold_signer_set [ParticipantId 2, ParticipantId 1] demo_grouped = Inr ()"
  using grouped_rule_exact [OF demo_grouped_validated, of "[ParticipantId 2, ParticipantId 1]"]
  by (simp add: demo_grouped_def gc_rank_of_def)

text \<open>
  The flat signer-set rule, exactly: enough signers, no duplicates, every identifier
  up to the participant count.
\<close>

lemma flat_rule_exact:
  "validate_signer_set signers tc = Inr () \<longleftrightarrow>
     unat (tc_threshold tc) \<le> length signers \<and> distinct signers
     \<and> (\<forall>x\<in>set signers. unat (pid_val x) \<le> unat (tc_participants tc))"
  by (simp add: validate_signer_set_iff word_le_nat_alt)

text \<open>
  \<open>HierarchicalThresholdConfig::new\<close> accepts exactly the configurations with a
  threshold between 1 and the number of participants, at most 65535 participants and
  distinct identifiers, and stores its arguments.
\<close>

lemma hierarchical_config_exact:
  "HierarchicalThresholdConfig_new t ps = Inr c \<longleftrightarrow>
     c = \<lparr>hc_threshold = t, hc_participants = ps\<rparr> \<and> 0 < unat t \<and> unat t \<le> length ps
     \<and> length ps \<le> 65535 \<and> distinct (map rp_id ps)"
  by (auto simp: HierarchicalThresholdConfig_new_Inr_iff hc_wf_def)

text \<open>
  \<open>GroupedThresholdConfig::new\<close> accepts exactly the configurations with participants
  and requirements, distinct identifiers, one requirement per rank whose total is the
  number of participants of the rank, and no participant without a requirement.
\<close>

lemma grouped_config_exact:
  "GroupedThresholdConfig_new ps rs = Inr c \<longleftrightarrow>
     c = \<lparr>gc_participants = ps, gc_requirements = rs\<rparr> \<and> ps \<noteq> [] \<and> rs \<noteq> []
     \<and> distinct (map rp_id ps) \<and> distinct (map gr_rank rs)
     \<and> (\<forall>r\<in>set rs. length (filter (\<lambda>p. rp_rank p = gr_rank r) ps) = unat (gr_total r))
     \<and> rp_rank ` set ps \<subseteq> gr_rank ` set rs"
  unfolding GroupedThresholdConfig_new_Inr_iff gc_wf_def by (metis GroupedThresholdConfig.select_convs(1,2))

section \<open>Soundness of aggregation\<close>

text \<open>
  C19. Whatever packages it is given, a signature returned by
  \<open>aggregate_htss_signature_shares\<close> verifies under the group key.
\<close>

theorem aggregate_sound:
  assumes "aggregate_htss_signature_shares C gk digest ns sh signers c = Inr sig"
  shows "valid_signature C (gk_xonly_public_key gk) digest sig"
  using assms by (rule aggregate_Inr_valid)

lemma demo_round: "honest_round toy demo_config [4, 7] demo_session (\<lambda>_. 3) demo_signers
    (map (\<lambda>x. hln_package (demo_nonce x)) demo_signers) (share_of demo_keys) demo_nonce"
  using demo_share_of demo_nonce_eq
  by (intro honest_round_of_nonces [OF toy_laws demo_wf demo_dealt]) (simp_all add: gf_numeral_neq_0)

lemma demo_signature:
  "\<exists>sh sig. aggregate_htss_signature_shares toy (ks_group_key demo_keys) [7]
     (map (\<lambda>x. hln_package (demo_nonce x)) demo_signers) sh demo_signers demo_config = Inr sig"
  using htss_signing_round [OF toy_laws demo_wf demo_dealt demo_regular demo_round] by blast

theorem aggregate_sound_witness:
  "\<exists>sh sig. aggregate_htss_signature_shares toy (ks_group_key demo_keys) [7]
      (map (\<lambda>x. hln_package (demo_nonce x)) demo_signers) sh demo_signers demo_config = Inr sig
    \<and> valid_signature toy (gk_xonly_public_key (ks_group_key demo_keys)) [7] sig"
  using demo_signature aggregate_sound by blast

text \<open>
  C20. Tampering is detected. For fixed nonces, signers, key and digest the aggregation
  accepts only one value of the sum of the shares: share sets that both pass have equal
  sums, so a set whose sum was changed is rejected.
\<close>

theorem aggregate_accepts_one_sum:
  assumes "secp_laws C"
    and "aggregate_htss_signature_shares C gk digest ns sh signers c = Inr sig"
    and "aggregate_htss_signature_shares C gk digest ns sh' signers c = Inr sig'"
  shows "sum_signature_shares C sh = sum_signature_shares C sh'"
  using assms by (rule aggregate_Inr_sum_unique)

theorem aggregate_accepts_one_sum_witness:
  "\<exists>sh s. sum_signature_shares toy sh = Inr s \<and> (\<forall>sh'. sum_signature_shares toy sh' \<noteq> Inr s \<longrightarrow>
     (\<exists>e. aggregate_htss_signature_shares toy (ks_group_key demo_keys) [7]
        (map (\<lambda>x. hln_package (demo_nonce x)) demo_signers) sh' demo_signers demo_config = Inl e))"
proof -
  let ?agg = "\<lambda>sh. aggregate_htss_signature_shares toy (ks_group_key demo_keys) [7]
     (map (\<lambda>x. hln_package (demo_nonce x)) demo_signers) sh demo_signers demo_config"
  from demo_signature obtain sh sig where ok: "?agg sh = Inr sig" by blast
  then obtain s where s: "sum_signature_shares toy sh = Inr s"
    by (auto simp: aggregate_htss_signature_shares_def rbind_Inr_iff)
  have "\<exists>e. ?agg sh' = Inl e" if "sum_signature_shares toy sh' \<noteq> Inr s" for sh'
    using aggregate_accepts_one_sum [OF toy_laws ok, of sh'] that s by (cases "?agg sh'") simp_all
  with s show ?thesis by blast
qed

section \<open>From key generation to signatures\<close>

text \<open>
  Local key generation deals: with a non-zero first draw it returns a key set of one
  polynomial whose public key has an even y-coordinate.
\<close>

lemma local_keygen_deals:
  assumes "secp_laws C" and "hc_wf c" and "rnd 0 \<noteq> 0"
  shows "\<exists>ks p. run_local_htss_keygen C rnd c = Inr ks \<and> htss_dealt C c p ks"
  using assms by (rule run_local_htss_keygen_dealt)

text \<open>
  Signing by reconstruction works: \<open>sign_digest_with_local_htss_shares\<close> on dealt shares
  and a regular quorum returns a signature that verifies under the group key.
\<close>

lemma reconstructing_signer:
  assumes "secp_laws C" and "hc_wf c" and "htss_dealt C c p ks" and "regular_quorum C c signers"
  shows "\<exists>sig. sign_digest_with_local_htss_shares C (ks_group_key ks) digest (ks_shares ks) signers c = Inr sig
    \<and> valid_signature C (gk_xonly_public_key (ks_group_key ks)) digest sig"
  using assms sign_digest_dealt [OF assms(1-3)] by (auto elim!: regular_quorumE)

text \<open>
  C23. From distributed key generation to a signature: when the drawn secrets and the
  drawn nonces do not cancel out, key generation returns a key set and any regular quorum
  of it signs any digest, verifiably under the generated group key.
\<close>

theorem keygen_then_sign:
  fixes C :: "('f::field, 'p::ab_group_add) secp"
  assumes "secp_laws C" and "hc_wf c" and "regular_quorum C c signers"
    and "\<forall>k j. rnd k j \<noteq> 0" and "(\<Sum>k<length (hc_participants c). rnd k 0) \<noteq> 0"
    and "\<forall>i. nonce_rnd i \<noteq> 0" and "(\<Sum>i<length signers. nonce_rnd i) \<noteq> 0"
  shows "\<exists>ks sig. run_distributed_htss_keygen C rnd c = Inr ks
    \<and> sign_digest_with_local_htss_threshold_shares C nonce_rnd (ks_group_key ks) digest (ks_shares ks) signers c = Inr sig
    \<and> valid_signature C (gk_xonly_public_key (ks_group_key ks)) digest sig"
proof -
  have "0 < unat (hc_threshold c)" using assms(2) by (simp add: hc_wf_def)
  then obtain ks p where "run_distributed_htss_keygen C rnd c = Inr ks" "htss_dealt C c p ks"
    using run_distributed_htss_keygen_dealt(2) [OF assms(1,2), of rnd] assms(4,5) by auto
  then show ?thesis
    using sign_digest_local_threshold [OF assms(1,2) _ assms(3), of p ks nonce_rnd] assms(6,7) by blast
qed

theorem keygen_then_sign_witness:
  "\<exists>ks sig. run_distributed_htss_keygen toy (\<lambda>k j. 2) demo_config = Inr ks
    \<and> sign_digest_with_local_htss_threshold_shares toy (\<lambda>_. 9) (ks_group_key ks) [5] (ks_shares ks) demo_signers demo_config
        = Inr sig
    \<and> valid_signature toy (gk_xonly_public_key (ks_group_key ks)) [5] sig"
  by (rule keygen_then_sign [OF toy_laws demo_wf demo_regular]) (simp_all add: gf_numeral_neq_0)

text \<open>
  C24. After resharing, signers of the new policy sign under the old group key.
\<close>

theorem reshare_then_sign:
  fixes C :: "('f::field, 'p::ab_group_add) secp"
  assumes "secp_laws C" and "hc_wf old_config" and "hc_wf new_config" and "htss_dealt C old_config p old"
    and "regular_quorum C old_config reconstruct_set" and "regular_quorum C new_config signers"
    and "\<forall>i. nonce_rnd i \<noteq> 0" and "(\<Sum>i<length signers. nonce_rnd i) \<noteq> 0"
  shows "\<exists>new sig. reshare_htss C rnd old old_config reconstruct_set new_config = Inr new
    \<and> sign_digest_with_local_htss_threshold_shares C nonce_rnd (ks_group_key new) digest (ks_shares new) signers new_config
        = Inr sig
    \<and> valid_signature C (gk_xonly_public_key (ks_group_key old)) digest sig"
proof -
  from assms(5) obtain points cs where "birkhoff_points_from_hierarchical_signer_set reconstruct_set old_config = Inr points"
    and "birkhoff_interpolation_coefficients C points = Inr cs" by (rule regular_quorumE)
  from reshare_htss_dealt [OF assms(1-4) this] obtain new q
    where "reshare_htss C rnd old old_config reconstruct_set new_config = Inr new"
      "htss_dealt C new_config (p ! 0 # q) new" "ks_group_key new = ks_group_key old" by blast
  then show ?thesis
    using sign_digest_local_threshold [OF assms(1,3) _ assms(6), of "p ! 0 # q" new nonce_rnd digest] assms(7,8) by auto
qed

theorem reshare_then_sign_witness:
  "\<exists>new sig. reshare_htss toy (\<lambda>i. 11) demo_keys demo_config demo_signers demo_config = Inr new
    \<and> sign_digest_with_local_htss_threshold_shares toy (\<lambda>_. 9) (ks_group_key new) [5] (ks_shares new) demo_signers demo_config
        = Inr sig
    \<and> valid_signature toy (gk_xonly_public_key (ks_group_key demo_keys)) [5] sig"
  by (rule reshare_then_sign [OF toy_laws demo_wf demo_wf demo_dealt demo_regular demo_regular])
    (simp_all add: gf_numeral_neq_0)

section \<open>Messages\<close>

text \<open>
  C25. Round 2 packages of the HTSS key generation, which carry secret shares, survive the
  envelope, and reach only their recipient: the message written for a package is direct,
  for the recipient alone, and reads back as the package.
\<close>

theorem htss_round2_message_roundtrip:
  assumes "codec_ok J"
  shows "\<exists>m. HtssDkgRound2Package_to_protocol_message J k sid = Inr m
    \<and> HtssDkgRound2Package_from_protocol_message J m = Inr k
    \<and> (\<forall>i. is_for m i \<longleftrightarrow> i = hd2_recipient k)"
proof -
  from htss_round2.roundtrip [OF assms, of k sid] obtain m
    where m: "HtssDkgRound2Package_to_protocol_message J k sid = Inr m"
      "HtssDkgRound2Package_from_protocol_message J m = Inr k" by auto
  from m(1) have "is_for m i \<longleftrightarrow> i = hd2_recipient k" for i
    by (auto simp: HtssDkgRound2Package_to_protocol_message_def rbind_Inr_iff)
  with m show ?thesis by blast
qed

text \<open>A codec for the witnesses: identifiers, rank and share as two bytes each and the share's bytes.\<close>

definition demo_codec :: "HtssDkgRound2Package codec" where
  "demo_codec =
     (let u = (\<lambda>w :: u16. to_base 2 (uint w)); r = (\<lambda>b. word_of_int (from_base b) :: u16) in
      \<lparr>to_vec = (\<lambda>k. Inr (u (pid_val (hd2_sender k)) @ u (pid_val (hd2_recipient k)) @ u (hd2_recipient_rank k)
                          @ hd2_share_value_bytes k)),
       from_slice = (\<lambda>b. Inr \<lparr>hd2_sender = ParticipantId (r (take 2 b)), hd2_recipient = ParticipantId (r (take 2 (drop 2 b))),
          hd2_recipient_rank = r (take 2 (drop 4 b)), hd2_share_value_bytes = drop 6 b\<rparr>)\<rparr>)"

lemma demo_codec_ok: "codec_ok demo_codec"
proof -
  have "from_base (to_base 2 (uint w)) = uint w" for w :: u16
    using uint_lt2p [of w] by (simp add: from_to_base)
  then show ?thesis by (simp add: codec_ok_def demo_codec_def Let_def)
qed

theorem htss_round2_message_roundtrip_witness:
  "\<exists>m. HtssDkgRound2Package_to_protocol_message demo_codec \<lparr>hd2_sender = ParticipantId 1, hd2_recipient = ParticipantId 2,
      hd2_recipient_rank = 1, hd2_share_value_bytes = to_base 32 5\<rparr> demo_session = Inr m \<and> \<not> is_for m (ParticipantId 3)"
  using htss_round2_message_roundtrip [OF demo_codec_ok, of "\<lparr>hd2_sender = ParticipantId 1, hd2_recipient = ParticipantId 2,
      hd2_recipient_rank = 1, hd2_share_value_bytes = to_base 32 5\<rparr>" demo_session] by auto

text \<open>
  Which messages are accepted as an HTSS nonce: exactly the broadcast messages of
  kind \<open>htss_signing_nonce\<close> whose payload decodes to a package of the envelope's sender and
  session with a 33-byte public nonce.
\<close>

lemma htss_nonce_message_accepted_iff:
  "HtssNoncePackage_from_protocol_message J m = Inr k \<longleftrightarrow>
     pm_kind m = HtssSigningNonce \<and> pm_recipient m = None \<and> from_slice J (pm_payload m) = Inr k
     \<and> hn_participant_id k = pm_sender m \<and> hn_signing_session_id k = pm_session_id m
     \<and> length (hn_public_nonce_bytes k) = 33"
  using htss_nonce.from_message [of J m k] by auto

text \<open>
  C27. Signature shares cannot be relabelled: a message accepted as an HTSS signature
  share is rejected under every other sender.
\<close>

theorem signature_share_not_relabelled:
  assumes "HtssSignatureSharePackage_from_protocol_message J m = Inr k" and "s \<noteq> pm_sender m"
  shows "\<exists>e. HtssSignatureSharePackage_from_protocol_message J (m\<lparr>pm_sender := s\<rparr>) = Inl e"
  using assms by (rule htss_signature_share.relabelled_sender)

theorem signature_share_not_relabelled_witness:
  "\<exists>e. HtssSignatureSharePackage_from_protocol_message
      \<lparr>to_vec = \<lambda>_. Inr [], from_slice = \<lambda>b. Inr \<lparr>hss_participant_id = ParticipantId 1, hss_signing_session_id = demo_session,
         hss_signature_share_bytes = b\<rparr>\<rparr>
      (ProtocolMessage_broadcast demo_session (ParticipantId 2) HtssSignatureShare [3]) = Inl e"
  using signature_share_not_relabelled [of
      "\<lparr>to_vec = \<lambda>_. Inr [], from_slice = \<lambda>b. Inr \<lparr>hss_participant_id = ParticipantId 1, hss_signing_session_id = demo_session,
         hss_signature_share_bytes = b\<rparr>\<rparr>"
      "ProtocolMessage_broadcast demo_session (ParticipantId 1) HtssSignatureShare [3]"
      "\<lparr>hss_participant_id = ParticipantId 1, hss_signing_session_id = demo_session, hss_signature_share_bytes = [3]\<rparr>"
      "ParticipantId 2"]
  by (simp add: htss_signature_share.from_message ProtocolMessage_broadcast_def)

text \<open>
  C28. The text names of message kinds: reading back the name of a kind gives the kind
  unless it is a custom kind whose name is one of the thirteen names the parser keeps for
  built-in kinds. A custom kind called \<open>round1\<close> comes back as the FROST round 1 kind.
\<close>

theorem kind_name_roundtrip_iff:
  "kind_from_str (kind_as_str kind) = kind \<longleftrightarrow> kind \<notin> Custom ` reserved_kind_names"
  using kind_roundtrip_iff [of kind] by (cases kind) auto

section \<open>Limits of the policies\<close>

text \<open>
  A hierarchical configuration can be accepted and never have a quorum: the signer
  rule compares identifiers with the number of participants, so when fewer participants
  than the threshold have an identifier up to that number, every signer set is refused.
\<close>

lemma high_identifiers_never_sign:
  assumes "hc_wf c"
    and "length (filter (\<lambda>q. unat (pid_val (rp_id q)) \<le> length (hc_participants c)) (hc_participants c)) < unat (hc_threshold c)"
  shows "\<exists>e. validate_hierarchical_signer_set signers c = Inl e"
proof (rule not_Inr_unit, rule notI)
  let ?ok = "filter (\<lambda>q. unat (pid_val (rp_id q)) \<le> length (hc_participants c)) (hc_participants c)"
  assume "validate_hierarchical_signer_set signers c = Inr ()"
  then have q: "hierarchical_quorum c signers" by (simp add: validate_hierarchical_signer_set_iff [OF assms(1)])
  then have "set signers \<subseteq> rp_id ` set ?ok" by (auto simp: hierarchical_quorum_def)
  with q have "length signers \<le> length ?ok"
    using distinct_subset_ids_length [of signers ?ok] by (simp add: hierarchical_quorum_def)
  with q assms(2) show False by (simp add: hierarchical_quorum_def)
qed

lemma high_identifiers_example:
  "\<exists>c. HierarchicalThresholdConfig_new 2 [\<lparr>rp_id = ParticipantId 1, rp_rank = Rank 0, rp_label = None\<rparr>,
        \<lparr>rp_id = ParticipantId 3, rp_rank = Rank 0, rp_label = None\<rparr>] = Inr c
     \<and> (\<forall>signers. \<exists>e. validate_hierarchical_signer_set signers c = Inl e)"
proof -
  let ?c = "\<lparr>hc_threshold = 2, hc_participants = [\<lparr>rp_id = ParticipantId 1, rp_rank = Rank 0, rp_label = None\<rparr>,
        \<lparr>rp_id = ParticipantId 3, rp_rank = Rank 0, rp_label = None\<rparr>]\<rparr>"
  have wf: "hc_wf ?c" by (simp add: hc_wf_def)
  have "\<exists>e. validate_hierarchical_signer_set signers ?c = Inl e" for signers
    by (rule high_identifiers_never_sign [OF wf]) simp
  with wf show ?thesis by (simp add: HierarchicalThresholdConfig_new_Inr_iff)
qed

text \<open>
  C30. The rank rule does not guarantee that signers can sign: participants 1 and 3 of
  rank 0 with participant 2 of rank 1 and threshold 3 satisfy it, but over every field the
  interpolation system is singular (\<open>f(3) - f(1) = 2 f'(2)\<close> for every quadratic \<open>f\<close>), so
  the coefficients are refused.
\<close>

definition gap_participants :: "RankedParticipant list" where
  "gap_participants = [\<lparr>rp_id = ParticipantId 1, rp_rank = Rank 0, rp_label = None\<rparr>,
     \<lparr>rp_id = ParticipantId 2, rp_rank = Rank 1, rp_label = None\<rparr>,
     \<lparr>rp_id = ParticipantId 3, rp_rank = Rank 0, rp_label = None\<rparr>]"

lemma gap_quorum:
  "hc_wf \<lparr>hc_threshold = 3, hc_participants = gap_participants\<rparr>"
  "hierarchical_quorum \<lparr>hc_threshold = 3, hc_participants = gap_participants\<rparr>
     [ParticipantId 1, ParticipantId 2, ParticipantId 3]"
proof -
  let ?c = "\<lparr>hc_threshold = 3, hc_participants = gap_participants\<rparr>"
  show "hc_wf ?c" by (simp add: hc_wf_def gap_participants_def)
  have r: "hc_rank ?c (ParticipantId 1) = 0" "hc_rank ?c (ParticipantId 2) = 1" "hc_rank ?c (ParticipantId 3) = 0"
    by (simp_all add: hc_rank_def hc_rank_of_def gap_participants_def)
  have "i < length (filter (\<lambda>x. hc_rank ?c x \<le> i) [ParticipantId 1, ParticipantId 2, ParticipantId 3])" if "i < 3" for i
    using that r by (cases "i = 0") simp_all
  then show "hierarchical_quorum ?c [ParticipantId 1, ParticipantId 2, ParticipantId 3]"
    by (simp add: hierarchical_quorum_def gap_participants_def del: filter.simps)
qed

theorem rank_rule_admits_singular_set:
  fixes C :: "('f::field, 'p) secp"
  shows "\<exists>c signers points e. HierarchicalThresholdConfig_new 3 gap_participants = Inr c
    \<and> validate_hierarchical_signer_set signers c = Inr ()
    \<and> birkhoff_points_from_hierarchical_signer_set signers c = Inr points
    \<and> birkhoff_interpolation_coefficients C points = Inl e"
proof -
  let ?c = "\<lparr>hc_threshold = 3, hc_participants = gap_participants\<rparr>"
  let ?s = "[ParticipantId 1, ParticipantId 2, ParticipantId 3]"
  let ?p = "map (signer_point ?c) ?s"
  let ?x = "\<lambda>i::nat. if i = 0 then 1 else if i = 1 then 2 else - 1 :: 'f"
  have rank: "hc_rank_of ?c (ParticipantId 1) = Some (Rank 0)" "hc_rank_of ?c (ParticipantId 2) = Some (Rank 1)"
    "hc_rank_of ?c (ParticipantId 3) = Some (Rank 0)"
    by (simp_all add: hc_rank_of_def gap_participants_def)
  have sum3: "(\<Sum>i<3. g i) = g 0 + g 1 + g 2" for g :: "nat \<Rightarrow> 'f" by (simp add: eval_nat_numeral)
  have dep: "(\<Sum>i<3. ?x i * point_basis (?p ! i) j) = 0" if "j < 3" for j
  proof -
    from that consider "j = 0" | "j = 1" | "j = 2" by linarith
    then show ?thesis
      unfolding sum3 by cases (simp_all add: point_basis_def dbasis_def rank flip: numeral_2_eq_2)
  qed
  have len: "length ?p = 3" by simp
  have "\<exists>i<3. ?x i \<noteq> 0" by (intro exI [of _ 0]) simp
  then have "dependent_conditions ?p ?x" unfolding dependent_conditions_def len using dep by blast
  moreover have "?p \<noteq> []" "length ?p \<le> 65535" by simp_all
  ultimately obtain e where "birkhoff_interpolation_coefficients C ?p = Inl e"
    using birkhoff_coefficients_Inl_iff [of ?p C] by blast
  moreover have "birkhoff_points_from_hierarchical_signer_set ?s ?c = Inr ?p"
    using gap_quorum(2) by (simp add: birkhoff_points_iff [OF gap_quorum(1)])
  moreover have "validate_hierarchical_signer_set ?s ?c = Inr ()"
    using gap_quorum by (simp add: validate_hierarchical_signer_set_iff)
  ultimately show ?thesis using gap_quorum(1) by (auto simp: HierarchicalThresholdConfig_new_Inr_iff)
qed

text \<open>
  C31. A grouped policy without a rank 0 group is a trap: key generation returns a key
  set, but the signing wrapper refuses every signer set, because it converts the policy to
  a hierarchical one and the rank rule asks for a signer of rank 0.
\<close>

theorem grouped_without_rank_zero_never_signs:
  fixes C :: "('f::field, 'p::ab_group_add) secp"
  assumes "gc_validated c" and "\<forall>q\<in>set (gc_participants c). rp_rank q \<noteq> Rank 0"
  shows "(\<exists>ks. run_local_grouped_htss_keygen C rnd c = Inr ks)
    \<and> (\<exists>e. sign_digest_with_local_grouped_htss_threshold_shares C nonce_rnd gk digest shares signers c = Inl e)"
proof
  let ?h = "\<lparr>hc_threshold = gc_required_signer_count c, hc_participants = gc_participants c\<rparr>"
  note h = hierarchical_config_from_grouped_validated [OF assms(1)]
  show "\<exists>ks. run_local_grouped_htss_keygen C rnd c = Inr ks"
    by (simp add: run_local_grouped_htss_keygen_def h(1) run_local_htss_keygen_def Let_def)
  have "\<not> hierarchical_quorum ?h signers" using quorum_has_rank_zero [OF h(2)] assms(2) by auto
  then have "validate_hierarchical_signer_set signers ?h \<noteq> Inr ()"
    by (simp add: validate_hierarchical_signer_set_iff [OF h(2)])
  then have "sign_digest_with_local_htss_threshold_shares C nonce_rnd gk digest shares signers ?h \<noteq> Inr sig" for sig
    using local_threshold_Inr_quorum by blast
  then have "sign_digest_with_local_grouped_htss_threshold_shares C nonce_rnd gk digest shares signers c \<noteq> Inr sig" for sig
    by (auto simp: sign_digest_with_local_grouped_htss_threshold_shares_def rbind_Inr_iff h(1))
  then show "\<exists>e. sign_digest_with_local_grouped_htss_threshold_shares C nonce_rnd gk digest shares signers c = Inl e"
    by (cases "sign_digest_with_local_grouped_htss_threshold_shares C nonce_rnd gk digest shares signers c") auto
qed

theorem grouped_without_rank_zero_never_signs_witness:
  "(\<exists>ks. run_local_grouped_htss_keygen toy (\<lambda>_. 3) demo_grouped = Inr ks)
    \<and> (\<exists>e. sign_digest_with_local_grouped_htss_threshold_shares toy (\<lambda>_. 3) (ks_group_key demo_keys) [7] (ks_shares demo_keys)
          [ParticipantId 1, ParticipantId 2] demo_grouped = Inl e)"
  by (rule grouped_without_rank_zero_never_signs [OF demo_grouped_validated]) (simp add: demo_grouped_def)

text \<open>
  C32. The counts of a grouped configuration stay within 16 bits: the required signer
  count, a wrapping sum in the code, is the sum of the requirements, is positive and is at
  most the participant count, which is not truncated.
\<close>

theorem grouped_counts_do_not_wrap:
  assumes "gc_validated c"
  shows "unat (gc_required_signer_count c) = (\<Sum>r\<leftarrow>gc_requirements c. unat (gr_required r))
    \<and> 0 < unat (gc_required_signer_count c) \<and> unat (gc_required_signer_count c) \<le> unat (gc_participant_count c)
    \<and> unat (gc_participant_count c) = length (gc_participants c)"
  using gc_validated_counts [OF assms] by simp

theorem grouped_counts_do_not_wrap_witness:
  "unat (gc_required_signer_count demo_grouped) = 2 \<and> unat (gc_participant_count demo_grouped) = 2"
  using grouped_counts_do_not_wrap [OF demo_grouped_validated] by (simp add: demo_grouped_def)

section \<open>The vault service\<close>

text \<open>
  C33. Key generation of a vault over its transport refines the key generation of the
  library: on a new, connected vault, with the same random draws, \<open>run_htss_dkg\<close> returns
  without error, keeps the group key and every participant's share that
  \<open>run_distributed_htss_keygen\<close> computes, and leaves no message on the transport.
\<close>

theorem vault_keygen_refines:
  fixes rnd :: "nat \<Rightarrow> nat \<Rightarrow> 'f::field" and C :: "('f, 'p::ab_group_add) secp"
  assumes "vault_codecs_ok V" and "secp_laws C" and "gc_validated g"
    and "vault_new vault_id dkg_session_id network chain_code g = Inr v0" and "connect_transport V v0 = (v1, r)"
    and "\<forall>k j. rnd k j \<noteq> 0" and "run_distributed_htss_keygen C rnd (svc_config (vs_dkg v0)) = Inr ks"
  shows "\<exists>v2. run_htss_dkg V C rnd v1 = (v2, Inr ()) \<and> vs_group_key v2 = Some (ks_group_key ks)
    \<and> (\<forall>x. map_of (vs_local_shares v2) x = find (\<lambda>s. hs_participant_id s = x) (ks_shares ks))
    \<and> ln_pending_len (fc_transport (vs_coordinator v2)) = 0"
  using vault_keygen [where rnd = rnd, OF assms(1-5) _ assms(7)] assms(6) carries_Nil_pending by blast

theorem vault_keygen_refines_witness:
  "\<exists>v2 ks. run_distributed_htss_keygen toy (\<lambda>k j. 2) demo_config = Inr ks
    \<and> run_htss_dkg demo_codecs toy (\<lambda>k j. 2) (fst (connect_transport demo_codecs demo_vault)) = (v2, Inr ())
    \<and> vs_group_key v2 = Some (ks_group_key ks)"
proof -
  obtain ks where ks: "run_distributed_htss_keygen toy (\<lambda>k j. 2) demo_config = Inr ks"
    using run_distributed_htss_keygen_dealt(2) [OF toy_laws demo_wf, of "\<lambda>k j. 2"] by (auto simp: gf_numeral_neq_0)
  obtain v1 r where v1: "connect_transport demo_codecs demo_vault = (v1, r)" by fastforce
  from vault_keygen_refines [OF demo_codecs_ok toy_laws vault_policy_validated demo_vault_new(1) v1, of "\<lambda>k j. 2" ks]
  show ?thesis using ks by (auto simp: v1 demo_vault_new(2) gf_numeral_neq_0)
qed

text \<open>
  C34. A vault signs: after key generation, a signer set that satisfies the grouped policy
  and gives a regular interpolation system authorises a message. \<open>sign_authorization\<close>
  exchanges nonces and shares over the transport, the aggregate verifies under BIP340, the
  share of the first signer is returned, the keys are untouched and the transport is empty.
\<close>

theorem vault_authorizes:
  fixes rnd :: "nat \<Rightarrow> nat \<Rightarrow> 'f::field" and C :: "('f, 'p::ab_group_add) secp"
  assumes "vault_codecs_ok V" and "secp_laws C" and "btc_laws C L" and "gc_validated g"
    and "vault_new vault_id dkg_session_id network chain_code g = Inr v0" and "connect_transport V v0 = (v1, r)"
    and "\<forall>k j. rnd k j \<noteq> 0" and "(\<Sum>k<length (gc_participants g). rnd k 0) \<noteq> 0"
    and "validate_grouped_threshold_signer_set signers g = Inr ()" and "regular_quorum C (svc_config (vs_dkg v0)) signers"
    and "SessionId_new name = Inr sid" and "\<forall>i. nonce_rnd i \<noteq> 0" and "(\<Sum>i<length signers. nonce_rnd i) \<noteq> 0"
  shows "\<exists>v2 v3 share. run_htss_dkg V C rnd v1 = (v2, Inr ())
    \<and> sign_authorization V C L nonce_rnd v2 name auth signers = (v3, Inr share)
    \<and> hss_participant_id share = hd signers \<and> hss_signing_session_id share = sid
    \<and> vs_group_key v3 = vs_group_key v2 \<and> vs_local_shares v3 = vs_local_shares v2
    \<and> ln_pending_len (fc_transport (vs_coordinator v3)) = 0"
  using vault_signs [where rnd = rnd, OF assms(1-6) _ assms(8-11) _ assms(13)] assms(7,12) by blast

theorem vault_authorizes_witness:
  "\<exists>v2 v3 share. run_htss_dkg demo_codecs toy (\<lambda>k j. 2) (fst (connect_transport demo_codecs demo_vault)) = (v2, Inr ())
    \<and> sign_authorization demo_codecs toy toy_btc (\<lambda>_. 9) v2 ''demo''
        \<lparr>bam_network = ''regtest'', bam_action = ''approve-payment'', bam_recipient = None, bam_amount_sats = Some 100000,
         bam_memo = None, bam_nonce = ''approval-001''\<rparr> demo_signers = (v3, Inr share)
    \<and> hss_participant_id share = ParticipantId 2"
proof -
  obtain v1 r where v1: "connect_transport demo_codecs demo_vault = (v1, r)" by fastforce
  have quorum: "regular_quorum toy (svc_config (vs_dkg demo_vault)) demo_signers" by (simp add: demo_vault_new(2) demo_regular)
  have name: "SessionId_new ''demo'' = Inr demo_session" by (simp add: SessionId_new_def demo_session_def white1_def white2_def white3_def)
  have "length (gc_participants vault_policy) = 3" by (simp add: vault_policy_def)
  from vault_authorizes [OF demo_codecs_ok toy_laws toy_btc_laws vault_policy_validated demo_vault_new(1) v1 _ _
      vault_policy_quorum quorum name, where rnd = "\<lambda>k j. 2" and nonce_rnd = "\<lambda>_. 9"
      and auth = "\<lparr>bam_network = ''regtest'', bam_action = ''approve-payment'', bam_recipient = None, bam_amount_sats = Some 100000,
         bam_memo = None, bam_nonce = ''approval-001''\<rparr>"] this
  show ?thesis by (auto simp: v1 gf_numeral_neq_0)
qed

section \<open>Spending\<close>

text \<open>
  C35. The coins at a vault's receive address can be spent: where \<open>taproot_child_key_tweak\<close>
  gives a tweak for a path, the address derived for the path commits to the output key of
  the tweak, and a quorum of the group key signs any spend digest so that it verifies under
  that output key.
\<close>

theorem child_address_spend:
  fixes C :: "('f::field, 'p::ab_group_add) secp"
  assumes "secp_laws C" and "btc_laws C L" and "hc_wf c" and "htss_dealt C c p ks" and "regular_quorum C c signers"
    and "\<forall>i. rnd i \<noteq> 0" and "(\<Sum>i<length signers. rnd i) \<noteq> 0"
    and "bak_group_key account = ks_group_key ks" and "taproot_child_key_tweak L account network path = Inr tw"
  shows "\<exists>d Q net sig. parse_network network = Inr net \<and> from_xonly_bytes C (tkt_output_xonly tw) = Some Q
    \<and> taproot_child_address_descriptor_for_network L account network path = Inr d
    \<and> bad_address d = address_to_string L (p2tr_tweaked L Q net)
    \<and> sign_digest_with_local_htss_threshold_shares_for_output C rnd (ks_group_key ks) digest (tkt_output_xonly tw)
        (tkt_tweak tw) (tkt_negate_key tw) (ks_shares ks) signers c = Inr sig
    \<and> verify_schnorr_digest L (tkt_output_xonly tw) digest (as_signature_bytes sig) = Inr True"
proof -
  note P = dealt_from_xonly [OF assms(1,4)]
  note a = child_key_tweak_spends [OF assms(1,2) P [folded assms(8)] assms(9)]
  from spends_signable [where rnd = rnd, OF assms(1-5) _ assms(7) P conjunct1 [OF a], of "ks_group_key ks" digest] assms(6) a
  show ?thesis by blast
qed

theorem child_address_spend_witness:
  "\<exists>tw sig. taproot_child_key_tweak toy_btc demo_account ''regtest'' (bip86 0 0 0) = Inr tw
    \<and> verify_schnorr_digest toy_btc (tkt_output_xonly tw) [5] (as_signature_bytes (sig :: AggregateSignature)) = Inr True"
proof -
  from demo_child_tweak obtain tw where tw: "taproot_child_key_tweak toy_btc demo_account ''regtest'' (bip86 0 0 0) = Inr tw"
    by (auto simp: is_ok_iff)
  have "bak_group_key demo_account = ks_group_key demo_keys" by (simp add: demo_account_def BitcoinAccountKey_new_def)
  from child_address_spend [OF toy_laws toy_btc_laws demo_wf demo_dealt demo_regular _ _ this tw, of "\<lambda>_. 9" "[5]"] tw
  show ?thesis by (auto simp: gf_numeral_neq_0)
qed

text \<open>
  C36. Silent payments to a vault can be spent, as a key-path output and under the leaf key:
  a quorum of the group key signs with either tweak so that the signature verifies under
  the key the tweak names.
\<close>

theorem silent_payment_spend:
  fixes C :: "('f::field, 'p::ab_group_add) secp"
  assumes "secp_laws C" and "btc_laws C L" and "hc_wf c" and "htss_dealt C c p ks" and "regular_quorum C c signers"
    and "\<forall>i. rnd i \<noteq> 0" and "(\<Sum>i<length signers. rnd i) \<noteq> 0"
    and "silent_payment_output_tweak L (ks_group_key ks) k = Inr tw \<or> silent_payment_leaf_tweak L (ks_group_key ks) k = Inr tw"
  shows "\<exists>sig. sign_digest_with_local_htss_threshold_shares_for_output C rnd (ks_group_key ks) digest (tkt_output_xonly tw)
        (tkt_tweak tw) (tkt_negate_key tw) (ks_shares ks) signers c = Inr sig
    \<and> verify_schnorr_digest L (tkt_output_xonly tw) digest (as_signature_bytes sig) = Inr True"
proof -
  note P = dealt_from_xonly [OF assms(1,4)]
  have "spends C (g_mul C (p ! 0) (base_point C)) tw"
    using assms(8) silent_payment_output_spends [OF assms(1,2) P] silent_payment_leaf_spends [OF assms(1,2) P] by blast
  from spends_signable [where rnd = rnd, OF assms(1-5) _ assms(7) P this] assms(6) show ?thesis by blast
qed

theorem silent_payment_spend_witness:
  "\<exists>tw sig tw' sig'. silent_payment_output_tweak toy_btc (ks_group_key demo_keys) (to_base 32 9) = Inr tw
    \<and> verify_schnorr_digest toy_btc (tkt_output_xonly tw) [5] (as_signature_bytes (sig :: AggregateSignature)) = Inr True
    \<and> silent_payment_leaf_tweak toy_btc (ks_group_key demo_keys) (to_base 32 9) = Inr tw'
    \<and> verify_schnorr_digest toy_btc (tkt_output_xonly tw') [5] (as_signature_bytes (sig' :: AggregateSignature)) = Inr True"
proof -
  from demo_payment_tweaks obtain tw tw'
    where tw: "silent_payment_output_tweak toy_btc (ks_group_key demo_keys) (to_base 32 9) = Inr tw"
      "silent_payment_leaf_tweak toy_btc (ks_group_key demo_keys) (to_base 32 9) = Inr tw'" by (auto simp: is_ok_iff)
  have spend: "\<exists>sig :: AggregateSignature. verify_schnorr_digest toy_btc (tkt_output_xonly t) [5] (as_signature_bytes sig) = Inr True"
    if "t = tw \<or> t = tw'" for t
    using silent_payment_spend [OF toy_laws toy_btc_laws demo_wf demo_dealt demo_regular, of "\<lambda>_. 9" "to_base 32 9" t "[5]"] tw that
    by (auto simp: gf_numeral_neq_0)
  from spend [of tw] spend [of tw'] tw show ?thesis by blast
qed

text \<open>
  C37. What an authorisation signature covers: when network, action, recipient and memo have
  no line break, the canonical text determines every field, up to an absent recipient or
  memo being an empty one.
\<close>

theorem authorization_text_determines:
  assumes "canonical_text m = canonical_text m'" and "single_line_fields m" and "single_line_fields m'"
  shows "bam_network m = bam_network m' \<and> bam_action m = bam_action m' \<and> opt_str (bam_recipient m) = opt_str (bam_recipient m')
    \<and> bam_amount_sats m = bam_amount_sats m' \<and> opt_str (bam_memo m) = opt_str (bam_memo m') \<and> bam_nonce m = bam_nonce m'"
  using assms by (rule canonical_text_determines)

definition demo_authorization :: "string option \<Rightarrow> BitcoinAuthorizationMessage" where
  "demo_authorization memo = \<lparr>bam_network = ''regtest'', bam_action = ''pay'', bam_recipient = Some ''bcrt1'',
     bam_amount_sats = Some 7, bam_memo = memo, bam_nonce = ''a''\<rparr>"

theorem authorization_text_determines_witness:
  "demo_authorization None \<noteq> demo_authorization (Some [])
    \<and> canonical_text (demo_authorization None) = canonical_text (demo_authorization (Some []))
    \<and> opt_str (bam_memo (demo_authorization None)) = opt_str (bam_memo (demo_authorization (Some [])))
    \<and> canonical_text (demo_authorization None) \<noteq> canonical_text (demo_authorization (Some ''x''))"
proof -
  have same: "canonical_text (demo_authorization None) = canonical_text (demo_authorization (Some []))"
    by (simp add: demo_authorization_def canonical_text_def opt_str_def)
  have line: "single_line_fields (demo_authorization memo)" if "memo \<in> {None, Some [], Some ''x''}" for memo
    using that by (auto simp: demo_authorization_def single_line_fields_def one_line_def opt_str_def)
  have "canonical_text (demo_authorization None) \<noteq> canonical_text (demo_authorization (Some ''x''))"
    using authorization_text_determines [of "demo_authorization None" "demo_authorization (Some ''x'')"] line
    by (auto simp: demo_authorization_def opt_str_def)
  with same authorization_text_determines [OF same] line show ?thesis by (simp add: demo_authorization_def)
qed

section \<open>FROST sessions\<close>

text \<open>
  C38. A FROST signing session never uses a nonce twice: in every sequence of calls of
  \<open>nonce\<close> and \<open>sign_share\<close> on a session, whatever they return, two signature shares have a
  successful call of \<open>nonce\<close> between them (the latest call comes first).
\<close>

theorem frost_nonce_used_once:
  assumes "signing_run B S request s (post @ ShareCall (Inr sh2) # mid @ ShareCall (Inr sh1) # pre)"
  shows "\<exists>pkg. NonceCall (Inr pkg) \<in> set mid"
  using assms by (rule nonce_used_once)

theorem frost_nonce_used_once_witness:
  "\<exists>sh pkg. signing_run toy_bincode toy_frost solo_request (solo_session None)
      [ShareCall (Inr sh), NonceCall (Inr solo_nonce), ShareCall (Inr sh), NonceCall (Inr solo_nonce)]
    \<and> NonceCall (Inr pkg) \<in> set [NonceCall (Inr solo_nonce)]"
proof -
  from solo_run obtain sh where sh: "signing_run toy_bincode toy_frost solo_request (solo_session None)
      [ShareCall (Inr sh), NonceCall (Inr solo_nonce), ShareCall (Inr sh), NonceCall (Inr solo_nonce)]" by blast
  from frost_nonce_used_once [of toy_bincode toy_frost solo_request "solo_session None" "[]" sh
      "[NonceCall (Inr solo_nonce)]" sh "[NonceCall (Inr solo_nonce)]"] sh
  show ?thesis by auto
qed

section \<open>The live transport\<close>

text \<open>
  C39. The live transport loses and duplicates nothing of what its relay threads take: however
  connects (timed out ones included, whose threads live on and share the buffer), disconnects,
  publications, drains and the events the threads take interleave, the buffered and the drained
  messages together are what the handler makes of each event taken, thread by thread, and the
  messages looped back. No thread takes an event twice, and a thread whose connect did not time
  out runs only while its connection is up. Two threads can take the same event: after a
  connect that timed out a message can reach the buffer twice, as in the witness.
\<close>

theorem live_buffer_conserved:
  assumes "live_run J N cfg w"
  shows "mset (lt_inbound (lw_transport w)) + mset (lw_drained w) =
      mset (concat (map (\<lambda>e. snd (handle_inbound_event J N (lc_keys cfg) (lc_self_id cfg) e ({}, [])))
        (concat (map rt_events (lw_threads w))))) + mset (lw_looped w)
    \<and> (\<forall>th\<in>set (lw_threads w). distinct (map ev_id (rt_events th)))
    \<and> (\<forall>k<length (lw_threads w). rt_running (lw_threads w ! k) \<and> \<not> rt_abandoned (lw_threads w ! k) \<longrightarrow>
        lw_owned w = Some k \<and> lt_connected (lw_transport w))"
  using live_run_inv [OF assms]
  by (auto simp: live_inv_def taken_messages_def handled_alone thread_ok_def owned_only_def)

theorem live_buffer_conserved_witness:
  "\<exists>e. let w = world_drained demo_session (\<lambda>_. True) (world_notified demo_json toy_nostr 0 e (world_notified demo_json toy_nostr 1 e
       (world_connected (Some (Inr ())) (world_connected None (live_start demo_receiver_config))))) in
     mset (lt_inbound (lw_transport w)) + mset (lw_drained w) = {#demo_secret, demo_secret#}"
proof -
  from demo_received obtain e where e: "event_message demo_json toy_nostr 20 (ParticipantId 2) e = Some demo_secret" by blast
  define w2 :: "(nat, nat, string \<times> string list list) live_world" where
    "w2 = world_connected (Some (Inr ())) (world_connected None (live_start demo_receiver_config))"
  define w4 where "w4 = world_notified demo_json toy_nostr 0 e (world_notified demo_json toy_nostr 1 e w2)"
  have t2: "lw_threads w2 = [spawned True, spawned False]"
    by (simp add: w2_def world_connected_def live_start_def LiveNostrTransport_new_def lt_connect_def)
  have t4: "map rt_events (lw_threads w4) = [[e], [e]]" "map rt_running (lw_threads w4) = [True, True]"
    by (simp_all add: w4_def world_notified_def Let_def handle_inbound_event_eq t2 spawned_def split: prod.splits)
  have run2: "live_run demo_json toy_nostr demo_receiver_config w2" unfolding w2_def by (intro live_run.connects live_run.started)
  have "live_run demo_json toy_nostr demo_receiver_config (world_notified demo_json toy_nostr 1 e w2)"
    by (rule live_run.notified [OF run2]) (simp_all add: t2 spawned_def)
  then have "live_run demo_json toy_nostr demo_receiver_config w4"
    unfolding w4_def by (rule live_run.notified)
      (simp_all add: world_notified_def Let_def handle_inbound_event_eq t2 spawned_def split: prod.splits)
  then have run: "live_run demo_json toy_nostr demo_receiver_config (world_drained demo_session (\<lambda>_. True) w4)" by (rule live_run.drained)
  have "lw_threads (world_drained demo_session (\<lambda>_. True) w4) = lw_threads w4" "lw_looped (world_drained demo_session (\<lambda>_. True) w4) = []"
    by (simp_all add: world_drained_def lt_drain_matching_def case_prod_beta w4_def world_notified_def Let_def w2_def world_connected_def live_start_def)
  with live_buffer_conserved [OF run] t4 e show ?thesis
    unfolding w4_def w2_def Let_def by (intro exI [of _ e]) (simp add: handle_inbound_event_eq demo_receiver_config_def)
qed

text \<open>
  C40. From one live transport to another: behind a relay that applies the subscriptions, the
  event of a published message reaches exactly the transports of the sender's vault. There a
  participant the message is for appends exactly that message to the buffer, and every other
  participant appends nothing; a transport of another vault does not see the event. The content
  of a round 2 message to a recipient is the encryption of the envelope's content to the key
  the directory has for the recipient. The receiver itself does not look at the vault tag, as
  the design document wants it to: the separation of vaults rests on the relay.
\<close>

theorem live_message_delivered:
  assumes "nostr_laws N" and "subscription_laws N" and "json_ok J" and "deliverable m"
    and "lt_publish J N rng alive ack s m = (s', r, Some (content, tags))"
    and "plain_name (lc_vault_tag (lt_cfg s))" and "plain_name (lc_vault_tag cfg)"
    and "is_secret_kind (pm_kind m) \<and> pm_recipient m = Some (lc_self_id cfg) \<longrightarrow>
      lc_directory (lt_cfg s) (lc_self_id cfg) = Some (public_key N (lc_keys cfg))"
    and "e = build_event N (lc_keys (lt_cfg s)) content tags" and "ev_id e \<notin> seen"
  shows "(if match_event N (subscription_filter cfg) e
        then handle_inbound_event J N (lc_keys cfg) (lc_self_id cfg) e (seen, inbound) else (seen, inbound)) =
      (if lc_vault_tag cfg = lc_vault_tag (lt_cfg s)
       then (insert (ev_id e) seen, if is_for m (lc_self_id cfg) then inbound @ [m] else inbound) else (seen, inbound))
    \<and> (is_secret_kind (pm_kind m) \<and> pm_recipient m = Some j \<longrightarrow>
        (\<exists>pk env. lc_directory (lt_cfg s) j = Some pk \<and> NostrEnvelopeEvent_from_protocol_message J m = Inr env
          \<and> nip44_encrypt N rng (lc_keys (lt_cfg s)) pk (ne_content env) = Inr content))"
  using event_delivered [OF assms(1,3,4) lt_publish_sealed [OF assms(5)] assms(8)] assms(10) secret_published_encrypted [OF assms(5), of j]
    event_matches_vault [OF assms(1,2) lt_publish_sealed [OF assms(5)] assms(6,7), of "lc_keys (lt_cfg s)"]
  by (simp add: handle_inbound_event_eq assms(9))

theorem live_message_delivered_witness:
  "\<exists>e. match_event toy_nostr (subscription_filter demo_receiver_config) e
    \<and> snd (handle_inbound_event demo_json toy_nostr 20 (ParticipantId 2) e ({}, [])) = [demo_secret]
    \<and> \<not> match_event toy_nostr (subscription_filter (demo_receiver_config\<lparr>lc_vault_tag := ''other''\<rparr>)) e"
proof -
  from demo_published obtain s' content tags
    where p: "lt_publish demo_json toy_nostr () True (Some (Inr ())) demo_live demo_secret = (s', Inr (), Some (content, tags))" by blast
  define e where "e = build_event toy_nostr 10 content tags"
  have cfg: "lt_cfg demo_live = demo_live_config" by (simp add: demo_live_def lt_connect_def LiveNostrTransport_new_def)
  have key: "public_key toy_nostr 20 = 21" by (simp add: toy_nostr_def)
  have got: "(if match_event toy_nostr (subscription_filter c) e
        then handle_inbound_event demo_json toy_nostr (lc_keys c) (lc_self_id c) e ({}, []) else ({}, []))
      = (if v = ''vault'' then ({ev_id e}, [demo_secret]) else ({}, []))"
    if "c = demo_receiver_config\<lparr>lc_vault_tag := v\<rparr>" "plain_name v" for c v
    using live_message_delivered [OF toy_nostr_laws toy_subscription_laws demo_json_ok demo_secret_deliverable p, of c e "{}" "[]"] that
    by (simp add: cfg demo_secret_simps demo_live_config_def demo_receiver_config_def key is_for_def e_def plain_name_def)
  have "demo_receiver_config = demo_receiver_config\<lparr>lc_vault_tag := ''vault''\<rparr>" by (simp add: demo_receiver_config_def demo_live_config_def)
  from got [OF this] got [OF refl, of "''other''"] show ?thesis
    by (intro exI [of _ e])
      (auto simp: plain_name_def demo_receiver_config_def demo_live_config_def handle_inbound_event_eq split: if_splits)
qed

section \<open>FROST key generation\<close>

text \<open>
  C16. FROST participants agree without trust in each other or in the library: two sessions
  of one threshold that accepted the same round 1 packages, in whatever order each received
  them, and that both finalise, with any round 2 packages, hold the same group key.
\<close>

theorem frost_dkg_agreement:
  assumes "fds_round2 oc B K s1 pkgs1 = (s1', Inr out1)" and "fds_round2 oc B K s2 pkgs2 = (s2', Inr out2)"
    and "dsc_threshold (fds_config s1) = dsc_threshold (fds_config s2)" and "mset pkgs1 = mset pkgs2"
    and "fds_finalize oc B K s1' in1 = Inr share1" and "fds_finalize oc B K s2' in2 = Inr share2"
  shows "lks_group_key share1 = lks_group_key share2"
  using assms by (rule frost_keys_agree)

theorem frost_dkg_agreement_witness:
  "\<exists>s1 s2 share1 share2. fst (fds_round2 True toy_frost_bincode toy_keygen (demo_party 0) demo_round1) = s1
    \<and> fst (fds_round2 True toy_frost_bincode toy_keygen (demo_party 1) demo_round1) = s2
    \<and> fds_finalize True toy_frost_bincode toy_keygen s1 demo_round2 = Inr share1
    \<and> fds_finalize True toy_frost_bincode toy_keygen s2 demo_round2 = Inr share2
    \<and> lks_group_key share1 = lks_group_key share2"
proof -
  from demo_party_runs [of 0] obtain s1 o1 a where a: "fds_round2 True toy_frost_bincode toy_keygen (demo_party 0) demo_round1 = (s1, Inr o1)"
    "fds_finalize True toy_frost_bincode toy_keygen s1 demo_round2 = Inr a" by auto
  from demo_party_runs [of 1] obtain s2 o2 b where b: "fds_round2 True toy_frost_bincode toy_keygen (demo_party 1) demo_round1 = (s2, Inr o2)"
    "fds_finalize True toy_frost_bincode toy_keygen s2 demo_round2 = Inr b" by auto
  have "fds_config (demo_party j) = party_config demo_session 2 3 j" for j
    unfolding demo_party_def by (metis FrostDkgSession.select_convs(1) FrostDkgSession_new_def fds_round1_config prod.collapse)
  then have "dsc_threshold (fds_config (demo_party 0)) = dsc_threshold (fds_config (demo_party 1))" by (simp add: party_config_def)
  from frost_dkg_agreement [OF a(1) b(1) this refl a(2) b(2)] a b show ?thesis by simp
qed

text \<open>
  C18. A DKG session stays well formed under any calls of \<open>round1\<close> and \<open>round2\<close>, with any
  arguments and whether they succeed or fail: its configuration never changes, its map of
  round 1 packages is ordered, binds every package to its own sender and is either the local
  package alone or complete with identifiers in range, and the pending secret shares are for
  proper participants.
\<close>

theorem frost_session_typed:
  assumes "dkg_run oc C B K config s"
  shows "session_typed config s"
  using assms by (rule dkg_run_typed)

theorem frost_session_typed_witness:
  "session_typed (party_config demo_session 2 3 0)
     (fst (fds_round2 True toy_frost_bincode toy_keygen (demo_party 0) demo_round1))"
proof (rule frost_session_typed)
  let ?run = "dkg_run True toy toy_frost_bincode toy_keygen (party_config demo_session 2 3 0)"
  have "?run (demo_party 0)" unfolding demo_party_def by (rule dkg_run.round1 [OF dkg_run.created]) (rule prod.collapse [symmetric])
  then show "?run (fst (fds_round2 True toy_frost_bincode toy_keygen (demo_party 0) demo_round1))"
    by (rule dkg_run.round2) (rule prod.collapse [symmetric])
qed

text \<open>
  C21. Honest FROST key generation completes: where the libraries keep their contracts and
  no share or key comes out as zero, \<open>run_local_frost_dkg\<close> returns one share for every
  participant, in order, all of one group key. Indices, encodings, the distribution of the
  secret shares and every check of the sessions work together.
\<close>

theorem frost_keygen_completes:
  assumes "frost_setup C B K" and "0 < t" and "t \<le> n" and "SessionId_new name = Inr sid"
    and "keygen_nonzero K (ucast t) (unat n) rng"
  shows "\<exists>shares. run_local_frost_dkg oc C B K rng name t n = Inr shares
    \<and> map lks_participant_id shares = map (\<lambda>i. ParticipantId (as_u16 i)) [1..<Suc (unat n)]
    \<and> (\<forall>a\<in>set shares. \<forall>b\<in>set shares. lks_group_key a = lks_group_key b)"
proof -
  have "0 < unat n" using assms(2,3) by (simp add: word_less_nat_alt word_le_nat_alt)
  then obtain ag ps where "honest_keygen K (ucast t) (unat n) rng ag ps"
    using keygen_lawsD(3) [of K t n 0 rng] assms(1-3) by (auto simp: frost_setup_def)
  note run = run_local_frost_dkg_honest [OF assms(1-4) this assms(5), of oc]
  show ?thesis by (intro exI conjI ballI) (rule run run_local_frost_dkg_shares [OF run]; assumption?)+
qed

theorem frost_keygen_completes_witness:
  "\<exists>shares. run_local_frost_dkg True toy toy_frost_bincode toy_keygen demo_rng ''demo'' 2 3 = Inr shares
    \<and> map lks_participant_id shares = [ParticipantId 1, ParticipantId 2, ParticipantId 3]"
proof -
  have name: "SessionId_new ''demo'' = Inr demo_session" by (simp add: SessionId_new_def demo_session_def white1_def white2_def white3_def)
  have ids: "map (\<lambda>i. ParticipantId (as_u16 i)) [1..<Suc (unat (3 :: u16))] = [ParticipantId 1, ParticipantId 2, ParticipantId 3]"
    by code_simp
  show ?thesis
    using frost_keygen_completes [OF toy_frost_setup _ _ name, of 2 3 demo_rng True] demo_nonzero unfolding ids by auto
qed

text \<open>
  C22. Key generation over Nostr events refines the local one: \<open>nostr-dkg-cli\<close>, where three
  participants exchange their packages through the local Nostr transport, ends without
  error and with the group key of \<open>run_local_frost_dkg\<close> on the same random draws; 3 round 1
  and 9 round 2 events were published, and none is left.
\<close>

theorem cli_refines_local_keygen:
  fixes C :: "('f::field, 'p) secp"
  assumes "cli_codecs_ok V" and "frost_setup C B K" and "keygen_nonzero K 2 3 rng"
  shows "\<exists>shares. run_local_frost_dkg oc C B K rng ''nostr-local-demo'' 2 3 = Inr shares
    \<and> cli_main oc C B K V rng = Inr \<lparr>cr_round1_events = 3, cr_round2_events = 9, cr_remaining_events = 0,
        cr_group_key = gk_xonly_public_key (lks_group_key (shares ! 0))\<rparr>"
proof -
  obtain ag ps where h: "honest_keygen K (ucast (2 :: u16)) (unat (3 :: u16)) rng ag ps"
    using keygen_lawsD(3) [of K 2 3 0 rng] assms(2) by (auto simp: frost_setup_def)
  have name: "SessionId_new ''nostr-local-demo'' = Inr (SessionId ''nostr-local-demo'')" by code_simp
  from run_local_frost_dkg_honest [OF assms(2) _ _ name h, of oc] assms(3)
  have "run_local_frost_dkg oc C B K rng ''nostr-local-demo'' 2 3 = Inr (map (dealt_share B K ag ps) [1..<Suc (unat (3 :: u16))])" by simp
  moreover have "map (dealt_share B K ag ps) [1..<Suc (unat (3 :: u16))] ! 0 = dealt_share B K ag ps 1" by (subst nth_map) simp_all
  ultimately show ?thesis using cli_main_succeeds [OF assms(1,2) _ assms(3), of ag ps oc] h by simp
qed

theorem cli_refines_local_keygen_witness:
  "\<exists>key. cli_main True toy toy_frost_bincode toy_keygen demo_cli_codecs demo_rng
     = Inr \<lparr>cr_round1_events = 3, cr_round2_events = 9, cr_remaining_events = 0, cr_group_key = key\<rparr>"
  using cli_refines_local_keygen [OF demo_cli_codecs_ok toy_frost_setup demo_nonzero, of True] by blast

text \<open>
  C17. FROST signing completes: after the honest local key generation, and unless the drawn
  nonces are among those the library promises nothing for (\<open>nonces_usable\<close>),
  \<open>sign_digest_with_shares\<close> signs any digest for exactly the signer sets that the threshold
  rule accepts and that leave out participant 0. The rule lets participant 0 pass, but nobody
  holds a share for it. Through the nonce, share and aggregation calls of the sessions the
  signature comes out valid under the group key.
\<close>

theorem frost_signing_completes:
  fixes C :: "('f::field, 'p::ab_group_add) secp"
  assumes "secp_laws C" and "frost_setup C B K" and "signing_laws C K S bad" and "signing_codecs_ok C B"
    and "0 < t" and "t \<le> n" and "SessionId_new name = Inr ksid" and "keygen_nonzero K (ucast t) (unat n) rng"
    and "SessionId_new sname = Inr sid" and "nonces_usable K S bad (ucast t) (unat n) rng sid srng signers digest"
  shows "\<exists>shares. run_local_frost_dkg oc C B K rng name t n = Inr shares
    \<and> ((\<exists>sig. sign_digest_with_shares B S srng sname \<lparr>tc_threshold = t, tc_participants = n\<rparr>
            (lks_group_key (shares ! 0)) digest shares signers = Inr sig)
        \<longleftrightarrow> validate_signer_set signers \<lparr>tc_threshold = t, tc_participants = n\<rparr> = Inr () \<and> ParticipantId 0 \<notin> set signers)
    \<and> (\<forall>sig. sign_digest_with_shares B S srng sname \<lparr>tc_threshold = t, tc_participants = n\<rparr>
            (lks_group_key (shares ! 0)) digest shares signers = Inr sig
        \<longrightarrow> valid_signature C (gk_xonly_public_key (lks_group_key (shares ! 0))) digest sig)"
proof -
  have n: "0 < unat n" using assms(5,6) by (simp add: word_less_nat_alt word_le_nat_alt)
  then obtain ag ps where h: "honest_keygen K (ucast t) (unat n) rng ag ps"
    using keygen_lawsD(3) [of K t n 0 rng] assms(2,5,6) by (auto simp: frost_setup_def)
  let ?shares = "map (dealt_share B K ag ps) [1..<Suc (unat n)]" and ?tc = "\<lparr>tc_threshold = t, tc_participants = n\<rparr>"
  let ?gk = "lks_group_key (?shares ! 0)"
  let ?sign = "sign_digest_with_shares B S srng sname ?tc ?gk digest ?shares signers"
  have "?shares ! 0 = dealt_share B K ag ps 1" using n by (simp add: nth_append upt_rec)
  moreover have "length (signature_to_bytes C sig) = 64" for sig using secp_lawsD(5) [OF assms(1)] unfolding schnorr_ok_def by blast
  ultimately have good: "\<exists>sig. ?sign = Inr sig \<and> valid_signature C (gk_xonly_public_key ?gk) digest sig"
    if "validate_signer_set signers ?tc = Inr ()" "ParticipantId 0 \<notin> set signers"
    using frost_signs_after_keygen [OF assms(2-6) h assms(8) that assms(9) _ assms(10)] by simp
  have needs: "validate_signer_set signers ?tc = Inr () \<and> ParticipantId 0 \<notin> set signers" if "?sign = Inr sig" for sig
    using sign_digest_needs [OF that] dealt_shares_exclude_zero [of B K ag ps n] by blast
  from needs good have "(\<exists>sig. ?sign = Inr sig) \<longleftrightarrow> validate_signer_set signers ?tc = Inr () \<and> ParticipantId 0 \<notin> set signers" by blast
  moreover from needs good have "\<forall>sig. ?sign = Inr sig \<longrightarrow> valid_signature C (gk_xonly_public_key ?gk) digest sig"
    by (metis sum.inject(2))
  ultimately show ?thesis
    using run_local_frost_dkg_honest [OF assms(2,5,6,7) h assms(8), of oc] by blast
qed

theorem frost_signing_completes_witness:
  "\<exists>shares sig. run_local_frost_dkg True toy toy_frost_bincode toy_keygen demo_rng ''demo'' 2 3 = Inr shares
    \<and> sign_digest_with_shares toy_frost_bincode toy_signing demo_rng ''demo'' \<lparr>tc_threshold = 2, tc_participants = 3\<rparr>
        (lks_group_key (shares ! 0)) [7] shares [ParticipantId 3, ParticipantId 1] = Inr sig
    \<and> valid_signature toy (gk_xonly_public_key (lks_group_key (shares ! 0))) [7] sig
    \<and> validate_signer_set [ParticipantId 0, ParticipantId 1] \<lparr>tc_threshold = 2, tc_participants = 3\<rparr> = Inr ()
    \<and> (\<forall>sig'. sign_digest_with_shares toy_frost_bincode toy_signing demo_rng ''demo'' \<lparr>tc_threshold = 2, tc_participants = 3\<rparr>
        (lks_group_key (shares ! 0)) [7] shares [ParticipantId 0, ParticipantId 1] \<noteq> Inr sig')"
proof -
  have name: "SessionId_new ''demo'' = Inr demo_session" by (simp add: SessionId_new_def demo_session_def white1_def white2_def white3_def)
  have signers: "validate_signer_set [ParticipantId 3, ParticipantId 1] \<lparr>tc_threshold = 2, tc_participants = 3\<rparr> = Inr ()"
    "validate_signer_set [ParticipantId 0, ParticipantId 1] \<lparr>tc_threshold = 2, tc_participants = 3\<rparr> = Inr ()"
    by (simp_all add: validate_signer_set_iff)
  have nz: "keygen_nonzero toy_keygen (ucast (2 :: u16)) (unat (3 :: u16)) demo_rng" using demo_nonzero by simp
  note sign = frost_signing_completes [where oc = True and digest = "[7]", OF toy_laws toy_frost_setup toy_signing_laws
      toy_signing_codecs _ _ name nz name]
  from sign [OF _ _ demo_nonces_usable [of _ _ _ _ _ "ParticipantId 3" "ParticipantId 1"]]
    sign [OF _ _ demo_nonces_usable [of _ _ _ _ _ "ParticipantId 0" "ParticipantId 1"]] signers show ?thesis by auto
qed

text \<open>
  C26. The live service ends: with a clock that advances at least as long as the service
  sleeps, and relay threads that end when they are told to, \<open>nostr-transport-service\<close>
  returns a report or an error, whatever the relay delivers, answers or withholds. Without such a clock the polling loop need not end.
\<close>

theorem service_terminates:
  assumes "\<forall>i<3. steady (env_poll1 env i) \<and> steady (env_poll2 env i)"
  shows "\<exists>r. service_main oc C B K V N env rng = Some r"
  using service_main_ends [of env oc C B K V N rng] assms by auto

theorem service_terminates_witness:
  "\<exists>r. service_main True toy toy_frost_bincode toy_keygen
     \<lparr>sv_message = demo_json, sv_round1 = codec_of f_round1, sv_round2 = codec_of f_round2\<rparr> toy_nostr demo_env demo_rng = Some r"
  by (rule service_terminates) (simp add: demo_steady)

text \<open>
  C29. The live service refines the local key generation: with a relay that works, which
  acknowledges the publications and hands every device the events of the others before
  the deadline, in any order and in any portions, \<open>nostr-transport-service\<close> ends with a
  report that all devices hold the same key, and the key is the one
  \<open>run_local_frost_dkg\<close> computes from the same random draws.
\<close>

theorem service_refines_local_keygen:
  fixes C :: "('f::field, 'p) secp"
  assumes "service_setup C B K V N env rng (service_vault env) (service_session env)" and "keygen_nonzero K 2 3 rng"
  shows "\<exists>shares. run_local_frost_dkg oc C B K rng (service_vault env @ ''-dkg'') 2 3 = Inr shares
    \<and> service_main oc C B K V N env rng = Some (Inr \<lparr>rep_relay = relay_url env, rep_topic = ''dkgkit:'' @ service_vault env,
        rep_group_key = gk_xonly_public_key (lks_group_key (shares ! 0)), rep_all_match = True\<rparr>)"
proof -
  note F = service_setupD(3) [OF assms(1)]
  obtain ag ps where h: "honest_keygen K 2 3 rng ag ps"
    using keygen_lawsD(3) [of K 2 3 0 rng] F by (auto simp: frost_setup_def)
  have name: "SessionId_new (service_vault env @ ''-dkg'') = Inr (service_session env)"
    using service_session_new [of env] by (simp add: service_session_def)
  from run_local_frost_dkg_honest [OF F _ _ name, of 2 3 rng ag ps oc] h assms(2)
  have "run_local_frost_dkg oc C B K rng (service_vault env @ ''-dkg'') 2 3 = Inr (map (dealt_share B K ag ps) [1..<4])" by simp
  then show ?thesis using service_main_succeeds [OF assms(1) h assms(2), of oc] by (simp add: upt_rec)
qed

theorem service_refines_local_keygen_witness:
  "\<exists>key. service_main True toy toy_frost_bincode toy_keygen demo_service_codecs toy_nostr relayed_env demo_rng
     = Some (Inr \<lparr>rep_relay = ''ws://127.0.0.1:7777'', rep_topic = ''dkgkit:nostr-transport-service-1'',
         rep_group_key = key, rep_all_match = True\<rparr>)"
  using service_refines_local_keygen [OF relayed_setup demo_nonzero, of True] unfolding relayed_names by auto

end
